(* ===== verification/Prelude.thy ===== *)
theory Prelude
  imports Main "HOL-Library.Word" "HOL-Library.Signed_Division"
begin

section \<open>Shared vocabulary: Go integers, instants, durations\<close>

text \<open>
  What every component of the model shares. Nothing here models a file of the repository:
  it is the part of the Go language and of package \<^verbatim>\<open>time\<close> the sources use.

  \<^item> An \<^verbatim>\<open>int64\<close> is an \<^typ>\<open>int\<close> kept in range by \<open>wrap64\<close>, the two's complement
    wrap-around of 64-bit arithmetic.
  \<^item> A \<^verbatim>\<open>time.Duration\<close> is a number of nanoseconds (an \<^verbatim>\<open>int64\<close>).
  \<^item> A \<^verbatim>\<open>time.Time\<close> is the number of nanoseconds since the zero time of Go (year 1, UTC),
    so \<^verbatim>\<open>t.IsZero()\<close> is \<open>t = 0\<close>, \<^verbatim>\<open>Before\<close> is \<open><\<close> and \<^verbatim>\<open>Sub\<close> is a
    difference that saturates at the bounds of \<^verbatim>\<open>Duration\<close>, as the package documents.
    Monotonic clock readings are not modelled.
\<close>

type_synonym duration = int
type_synonym instant = int

named_theorems go_time \<open>unfolding of the operations of package time\<close>
named_theorems frame \<open>fields an operation leaves unchanged\<close>

subsection \<open>64-bit integers\<close>

definition wrap64 :: "int \<Rightarrow> int" where
  "wrap64 x = sint (word_of_int x :: 64 word)"

definition in_int64 :: "int \<Rightarrow> bool" where
  "in_int64 x \<longleftrightarrow> - (2 ^ 63) \<le> x \<and> x < 2 ^ 63"

lemma wrap64_eq: "wrap64 x = (x + 2 ^ 63) mod 2 ^ 64 - 2 ^ 63"
  by (simp add: wrap64_def sint_word_ariths signed_take_bit_eq_take_bit_shift
      take_bit_eq_mod sint_sbintrunc' )

lemma wrap64_id [simp]: "in_int64 x \<Longrightarrow> wrap64 x = x"
  by (simp add: wrap64_eq in_int64_def)

lemma wrap64_range: "in_int64 (wrap64 x)"
  by (simp add: wrap64_eq in_int64_def)

lemma wrap64_dvd:
  assumes "2 ^ k dvd x" and "k \<le> 64"
  shows "(2 ^ k :: int) dvd wrap64 x"
proof -
  let ?q = "(x + 2 ^ 63) div 2 ^ 64"
  have "wrap64 x = x - 2 ^ 64 * ?q"
    unfolding wrap64_eq by (simp add: minus_mult_div_eq_mod [symmetric])
  moreover have "(2 ^ k :: int) dvd 2 ^ 64 * ?q"
    using assms(2) by (meson dvd_mult2 le_imp_power_dvd)
  ultimately show ?thesis using assms(1) by (metis dvd_diff)
qed

lemma sdiv_nonneg: "0 \<le> a \<Longrightarrow> 0 < b \<Longrightarrow> (a :: int) sdiv b = a div b"
  by (cases "a = 0") (auto simp: signed_divide_int_def)

subsection \<open>Instants\<close>

definition time_is_zero :: "instant \<Rightarrow> bool" where
  [go_time]: "time_is_zero t \<longleftrightarrow> t = 0"

definition time_before :: "instant \<Rightarrow> instant \<Rightarrow> bool" where
  [go_time]: "time_before t u \<longleftrightarrow> t < u"

definition time_add :: "instant \<Rightarrow> duration \<Rightarrow> instant" where
  [go_time]: "time_add t d = t + d"

definition time_sub :: "instant \<Rightarrow> instant \<Rightarrow> duration" where
  "time_sub t u = max (- (2 ^ 63)) (min (2 ^ 63 - 1) (t - u))"

lemma time_sub_ge_iff [go_time]:
  "in_int64 d \<Longrightarrow> - (2 ^ 63) < d \<Longrightarrow> time_sub t u \<ge> d \<longleftrightarrow> t - u \<ge> d"
  by (auto simp: time_sub_def in_int64_def)

lemma time_sub_less_iff [go_time]:
  "in_int64 d \<Longrightarrow> - (2 ^ 63) < d \<Longrightarrow> time_sub t u < d \<longleftrightarrow> t - u < d"
  by (auto simp: time_sub_def in_int64_def)

subsection \<open>Units\<close>

abbreviation millis :: "int \<Rightarrow> duration" where "millis n \<equiv> n * 1000000"
abbreviation seconds :: "int \<Rightarrow> duration" where "seconds n \<equiv> n * 1000000000"
abbreviation minutes :: "int \<Rightarrow> duration" where "minutes n \<equiv> n * 60000000000"

subsection \<open>Lists\<close>

lemma filter_filter_mono:
  "(\<And>x. P x \<Longrightarrow> Q x) \<Longrightarrow> filter P (filter Q xs) = filter P xs"
  by (induction xs) auto

lemma last_n_length: "length (drop (length xs - n) xs) = min n (length xs)"
  by simp

end
