(* ===== verification/Backoff.thy ===== *)
theory Backoff
  imports Prelude
begin

section \<open>Restart timing and the crash budget (internal/supervisor/backoff.go)\<close>

text \<open>
  \<open>policy\<close> is \<^verbatim>\<open>BackoffPolicy\<close>; the random generator is an argument \<open>r\<close> of \<open>jitter\<close> and
  \<open>delay\<close>: the value \<^verbatim>\<open>rand.IntN(4)\<close> returned, in \<open>[0, 4)\<close>. \<open>tracker\<close> is
  \<^verbatim>\<open>Tracker\<close>: its operations take the time \<^verbatim>\<open>now\<close> the caller passes.
\<close>

record policy =
  base :: duration
  max_delay :: duration
  steady_reset :: duration
  crash_window :: duration
  crash_cap :: int

definition new_backoff :: policy where
  "new_backoff = \<lparr>base = seconds 1, max_delay = seconds 60, steady_reset = minutes 5,
     crash_window = seconds 60, crash_cap = 3\<rparr>"

definition jitter :: "duration \<Rightarrow> int \<Rightarrow> duration" where
  "jitter d r = wrap64 (d * (8 + r)) sdiv 10"

definition unjittered :: "policy \<Rightarrow> int \<Rightarrow> duration" where
  \<comment> \<open>\<^verbatim>\<open>Delay\<close> up to its last line: clamp the count, shift, clamp to the maximum\<close>
  "unjittered p consecutive =
     (let c = (if consecutive < 1 then 1 else consecutive);
          s = (if c - 1 > 62 then 62 else c - 1);
          d = wrap64 (base p * 2 ^ nat s)
      in if d \<le> 0 \<or> d > max_delay p then max_delay p else d)"

definition delay :: "policy \<Rightarrow> int \<Rightarrow> int \<Rightarrow> duration" where
  "delay p consecutive r = jitter (unjittered p consecutive) r"

record tracker =
  policy :: policy
  running :: instant
  crashes :: "instant list"

definition new_tracker :: "policy \<Rightarrow> tracker" where
  "new_tracker p = \<lparr>policy = p, running = 0, crashes = []\<rparr>"

definition mark_running :: "instant \<Rightarrow> tracker \<Rightarrow> tracker" where
  "mark_running now t = t\<lparr>running := now\<rparr>"

definition record_crash :: "instant \<Rightarrow> tracker \<Rightarrow> tracker" where
  "record_crash now t =
     (let kept = (if \<not> time_is_zero (running t)
                     \<and> time_sub now (running t) \<ge> steady_reset (policy t)
                  then [] else crashes t);
          cutoff = time_add now (wrap64 (- crash_window (policy t)))
      in t\<lparr>running := 0, crashes := filter (\<lambda>ts. \<not> time_before ts cutoff) (kept @ [now])\<rparr>)"

definition consecutive :: "tracker \<Rightarrow> int" where
  "consecutive t = int (length (crashes t))"

definition should_rollback :: "tracker \<Rightarrow> bool" where
  "should_rollback t \<longleftrightarrow> consecutive t \<ge> crash_cap (policy t)"

definition reset :: "tracker \<Rightarrow> tracker" where
  "reset t = t\<lparr>crashes := [], running := 0\<rparr>"

subsection \<open>The delay\<close>

lemma int_div_times_le: "0 < b \<Longrightarrow> (a :: int) div b * b \<le> a"
  using div_mult_mod_eq [of a b] pos_mod_sign [of b a] by linarith

lemma jitter_bounds:
  assumes "0 \<le> d" and "d * 11 < 2 ^ 63" and "0 \<le> r" and "r < 4"
  shows "jitter d r = d * (8 + r) div 10"
    and "d * 8 div 10 \<le> jitter d r" and "10 * jitter d r \<le> 11 * d"
proof -
  have u: "d * (8 + r) \<le> d * 11" by (rule mult_left_mono) (use assms in simp_all)
  have l: "d * 8 \<le> d * (8 + r)" by (rule mult_left_mono) (use assms in simp_all)
  have nn: "0 \<le> d * (8 + r)" using assms by simp
  have "d * (8 + r) < 2 ^ 63" by (rule le_less_trans [OF u assms(2)])
  then have "in_int64 (d * (8 + r))" unfolding in_int64_def using nn by simp
  then show e: "jitter d r = d * (8 + r) div 10"
    unfolding jitter_def using nn by (simp add: sdiv_nonneg)
  show "d * 8 div 10 \<le> jitter d r" unfolding e by (rule zdiv_mono1 [OF l]) simp
  have "d * (8 + r) div 10 * 10 \<le> d * (8 + r)" by (rule int_div_times_le) simp
  with u show "10 * jitter d r \<le> 11 * d" unfolding e by (simp only: mult.commute)
qed

text \<open>
  The shift may overflow \<^verbatim>\<open>int64\<close>. It then leaves a multiple of a large power of two, which
  the clamp catches: negative, zero, or above the maximum.
\<close>

lemma shift_overflow_clamped:
  assumes b: "2 ^ v dvd (b :: int)" "0 < b" "b < 2 ^ c" and c: "v \<le> c" "c \<le> 63"
    and m: "m < 2 ^ (v + 64 - c)" and s: "s \<le> 62" and big: "b * 2 ^ s \<ge> 2 ^ 63"
  shows "wrap64 (b * 2 ^ s) \<le> 0 \<or> wrap64 (b * 2 ^ s) > m"
proof -
  have "(2 ^ 63 :: int) < 2 ^ c * 2 ^ s"
    by (rule le_less_trans [OF big]) (use b(3) in simp)
  then have "(2 ^ 63 :: int) < 2 ^ (c + s)" by (simp add: power_add)
  then have "63 < c + s" by (rule power_less_imp_less_exp [rotated]) simp
  then have cs: "64 \<le> c + s" by simp
  have "(2 ^ (v + 64 - c) :: int) dvd 2 ^ (v + s)"
    using cs c by (intro le_imp_power_dvd) simp
  also have "(2 ^ (v + s) :: int) dvd b * 2 ^ s"
    using b(1) by (simp add: power_add mult_dvd_mono)
  finally have "(2 ^ (v + 64 - c) :: int) dvd wrap64 (b * 2 ^ s)"
    using c by (intro wrap64_dvd) auto
  then have "wrap64 (b * 2 ^ s) \<le> 0 \<or> 2 ^ (v + 64 - c) \<le> wrap64 (b * 2 ^ s)"
    using zdvd_imp_le by force
  with m show ?thesis by auto
qed

lemma unjittered_exact:
  assumes b: "2 ^ v dvd base p" "0 < base p" "base p < 2 ^ c" and c: "v \<le> c" "c \<le> 63"
    and m: "max_delay p < 2 ^ (v + 64 - c)" "max_delay p < 2 ^ 62" and n: "1 \<le> n"
  shows "unjittered p n = min (base p * 2 ^ nat (n - 1)) (max_delay p)"
proof -
  define s where "s = nat (if n - 1 > 62 then 62 else n - 1)"
  have s: "s \<le> 62" "s \<le> nat (n - 1)" "s = nat (n - 1) \<or> s = 62" using n by (auto simp: s_def)
  let ?d = "base p * 2 ^ s"
  have u: "unjittered p n =
      (if wrap64 ?d \<le> 0 \<or> wrap64 ?d > max_delay p then max_delay p else wrap64 ?d)"
    using n by (simp add: unjittered_def s_def Let_def)
  have pos: "0 < ?d" using b by simp
  have le: "?d \<le> base p * 2 ^ nat (n - 1)"
    using s b by (intro mult_left_mono power_increasing) auto
  have "1 * 2 ^ 62 \<le> base p * 2 ^ 62" using b(2) by (intro mult_right_mono) auto
  then have capped: "max_delay p < ?d" if "s = 62" using m(2) that by simp
  show ?thesis
  proof (cases "?d < 2 ^ 63")
    case True
    then have w: "wrap64 ?d = ?d" using pos by (intro wrap64_id) (simp add: in_int64_def)
    have "unjittered p n = min ?d (max_delay p)"
      unfolding u w min_def using pos by simp
    with le capped s(3) show ?thesis by (auto simp: min_def)
  next
    case False
    then have big: "2 ^ 63 \<le> ?d" by simp
    have "unjittered p n = max_delay p"
      using shift_overflow_clamped [OF b c m(1) s(1) big] u by simp
    moreover have "max_delay p \<le> base p * 2 ^ nat (n - 1)" using big m(2) le by simp
    ultimately show ?thesis by simp
  qed
qed

lemma delay_default:
  assumes "1 \<le> n" and "0 \<le> r" and "r < 4"
  shows "delay new_backoff n r =
    min (seconds 1 * 2 ^ nat (n - 1)) (seconds 60) * (8 + r) div 10"
proof -
  have u: "unjittered new_backoff n = min (seconds 1 * 2 ^ nat (n - 1)) (seconds 60)"
    using unjittered_exact [of 9 new_backoff 30 n] assms(1) by (simp add: new_backoff_def)
  show ?thesis
    unfolding delay_def u using assms by (intro jitter_bounds(1)) (auto simp: min_def)
qed

text \<open>
  With the protocol's defaults the delay before restart n is the exact
  min(base * 2^(n-1), max) times a jitter factor of 0.8, 0.9, 1.0 or 1.1, for every n of at
  least 1, however large: the 64-bit shift never shows through.
\<close>
theorem delay_default_exact:
  assumes "1 \<le> n" and "0 \<le> r" and "r < 4"
  shows "delay new_backoff n r =
    min (seconds 1 * 2 ^ nat (n - 1)) (seconds 60) * (8 + r) div 10"
  by (rule delay_default [OF assms])

lemma delay_default_exact_witness:
  "(1 :: int) \<le> 3 \<and> delay new_backoff 3 3 = 4400000000"
  using delay_default_exact [of 3 3] by simp

subsection \<open>The sliding window against the whole trace\<close>

text \<open>
  The specification never trims: it keeps every crash since the last clean slate (a
  successful rollback, or a crash after a long steady run). The code's list is that list
  restricted to the window before the latest crash.
\<close>

datatype tracker_event = Ready instant | Crash instant | Cleared

fun tracker_step :: "tracker \<Rightarrow> tracker_event \<Rightarrow> tracker" where
  "tracker_step t (Ready now) = mark_running now t"
| "tracker_step t (Crash now) = record_crash now t"
| "tracker_step t Cleared = reset t"

fun trace_step :: "policy \<Rightarrow> instant \<times> instant list \<Rightarrow> tracker_event \<Rightarrow> instant \<times> instant list" where
  "trace_step p (up, cs) (Ready now) = (now, cs)"
| "trace_step p (up, cs) (Crash now) =
     (0, (if up \<noteq> 0 \<and> now - up \<ge> steady_reset p then [] else cs) @ [now])"
| "trace_step p (up, cs) Cleared = (0, [])"

fun crash_times :: "tracker_event list \<Rightarrow> instant list" where
  "crash_times [] = []"
| "crash_times (Crash t # es) = t # crash_times es"
| "crash_times (_ # es) = crash_times es"

definition in_window :: "policy \<Rightarrow> instant list \<Rightarrow> instant list" where
  "in_window p cs = filter (\<lambda>ts. cs \<noteq> [] \<and> last cs - crash_window p \<le> ts) cs"

definition policy_ok :: "policy \<Rightarrow> bool" where
  "policy_ok p \<longleftrightarrow> 0 < steady_reset p \<and> in_int64 (steady_reset p)
     \<and> 0 \<le> crash_window p \<and> in_int64 (crash_window p)"

lemma in_window_snoc:
  assumes "\<forall>x \<in> set cs. x \<le> t"
  shows "filter (\<lambda>ts. t - crash_window p \<le> ts) (in_window p cs @ [t]) =
    in_window p (cs @ [t])"
proof -
  have "filter (\<lambda>ts. t - crash_window p \<le> ts) (in_window p cs) =
    filter (\<lambda>ts. t - crash_window p \<le> ts) cs"
    unfolding in_window_def using assms
    by (cases "cs = []") (auto intro!: filter_cong simp: order_trans [rotated])
  then show ?thesis by (simp add: in_window_def)
qed

lemma record_crash_crashes:
  assumes "policy_ok (policy t)"
  shows "crashes (record_crash now t) =
    filter (\<lambda>ts. now - crash_window (policy t) \<le> ts)
      ((if running t \<noteq> 0 \<and> now - running t \<ge> steady_reset (policy t) then [] else crashes t)
        @ [now])"
proof -
  have "in_int64 (- crash_window (policy t))"
    using assms by (auto simp: policy_ok_def in_int64_def)
  with assms show ?thesis
    by (simp add: record_crash_def Let_def policy_ok_def go_time not_less)
qed

lemma tracker_frame [frame, simp]:
  "policy (mark_running now t) = policy t" "policy (record_crash now t) = policy t"
  "policy (reset t) = policy t" "running (record_crash now t) = 0"
  "running (mark_running now t) = now" "crashes (mark_running now t) = crashes t"
  "running (reset t) = 0" "crashes (reset t) = []"
  by (simp_all add: mark_running_def record_crash_def reset_def Let_def)

definition tracks :: "policy \<Rightarrow> tracker \<Rightarrow> instant \<times> instant list \<Rightarrow> bool" where
  "tracks p t s \<longleftrightarrow> policy t = p \<and> running t = fst s \<and> crashes t = in_window p (snd s)"

lemma tracker_step_tracks:
  assumes "policy_ok p" "tracks p t s" "\<forall>x \<in> set (snd s). x \<le> now"
  shows "tracks p (record_crash now t) (trace_step p s (Crash now))"
  using assms in_window_snoc [of "snd s" now p] in_window_snoc [of "[]" now p]
  by (cases s) (auto simp: tracks_def record_crash_crashes in_window_def)

lemma trace_step_set:
  "set (snd (trace_step p s e)) \<subseteq> set (snd s) \<union> set (crash_times [e])"
  by (cases s; cases e) auto

lemma tracker_run_tracks:
  assumes "policy_ok p" "tracks p t s" "sorted (crash_times es)"
    "\<forall>x \<in> set (snd s). \<forall>y \<in> set (crash_times es). x \<le> y"
  shows "tracks p (foldl tracker_step t es) (foldl (trace_step p) s es)"
  using assms(2-)
proof (induction es arbitrary: t s)
  case (Cons e es)
  have "tracks p (tracker_step t e) (trace_step p s e)"
    using Cons.prems tracker_step_tracks [OF assms(1), of t s]
    by (cases e; cases s) (auto simp: tracks_def in_window_def)
  moreover have "sorted (crash_times es)"
    using Cons.prems(2) by (cases e) auto
  moreover have "\<forall>x \<in> set (snd (trace_step p s e)). \<forall>y \<in> set (crash_times es). x \<le> y"
    using Cons.prems(2,3) trace_step_set [of p s e] by (cases e) fastforce+
  ultimately show ?case by (simp add: Cons.IH)
qed simp

text \<open>
  C35: over any sequence of READY, crash and rollback events with crash times in order, the
  rollback decision of the tracker is the abstract one: at least CrashCap of the crashes
  since the last clean slate fall within CrashWindow of the latest.
\<close>
theorem tracker_refines_trace:
  assumes "policy_ok p" and "sorted (crash_times es)"
  shows "should_rollback (foldl tracker_step (new_tracker p) es) \<longleftrightarrow>
    crash_cap p \<le> int (length (in_window p (snd (foldl (trace_step p) (0, []) es))))"
proof -
  have "tracks p (new_tracker p) (0, [])"
    by (simp add: tracks_def new_tracker_def in_window_def)
  then have "tracks p (foldl tracker_step (new_tracker p) es) (foldl (trace_step p) (0, []) es)"
    using assms by (intro tracker_run_tracks) auto
  then show ?thesis by (simp add: tracks_def should_rollback_def consecutive_def)
qed

lemma tracker_refines_trace_witness:
  "policy_ok new_backoff \<and>
   should_rollback (foldl tracker_step (new_tracker new_backoff)
     [Crash (seconds 100), Ready (seconds 101), Crash (seconds 110), Crash (seconds 159)])"
proof -
  have ok: "policy_ok new_backoff"
    by (simp add: policy_ok_def new_backoff_def in_int64_def)
  show ?thesis
    using ok tracker_refines_trace [OF ok, of "[Crash (seconds 100), Ready (seconds 101),
      Crash (seconds 110), Crash (seconds 159)]"]
    by (simp add: in_window_def new_backoff_def)
qed

subsection \<open>The contract the supervisor loop relies on\<close>

text \<open>
  The loop only marks, records, counts, asks and clears. \<open>crash_budget\<close> states what it needs
  of those operations; the interpretation shows that the tracker provides it.
\<close>

locale crash_budget =
  fixes clear :: "'t \<Rightarrow> 't" and ready :: "instant \<Rightarrow> 't \<Rightarrow> 't"
    and crash :: "instant \<Rightarrow> 't \<Rightarrow> 't" and count :: "'t \<Rightarrow> int"
    and exhausted :: "'t \<Rightarrow> bool" and cap :: "'t \<Rightarrow> int"
  assumes count_clear: "count (clear t) = 0"
    and count_ready: "count (ready now t) = count t"
    and count_crash: "count (crash now t) \<le> count t + 1"
    and exhausted_iff: "exhausted t \<longleftrightarrow> cap t \<le> count t"
    and cap_keep: "cap (clear t) = cap t" "cap (ready now t) = cap t" "cap (crash now t) = cap t"
begin

lemma cap_run: "cap (foldl (\<lambda>t now. crash now t) t ts) = cap t"
  by (induction ts arbitrary: t) (auto simp: cap_keep)

lemma count_run: "count (foldl (\<lambda>t now. crash now t) t ts) \<le> count t + int (length ts)"
proof (induction ts arbitrary: t)
  case (Cons x xs)
  show ?case using Cons.IH [of "crash x t"] count_crash [of x t] by simp
qed simp

lemma fresh_budget:
  "int (length ts) < cap t \<Longrightarrow> \<not> exhausted (foldl (\<lambda>t now. crash now t) (clear t) ts)"
  using count_run [of "clear t" ts] by (simp add: exhausted_iff cap_run cap_keep count_clear)

end

lemma consecutive_record: "consecutive (record_crash now t) \<le> consecutive t + 1"
proof -
  have "int (length (filter P (crashes t))) \<le> int (length (crashes t)) + 1" for P
    using length_filter_le [of P "crashes t"] by linarith
  then show ?thesis by (simp add: consecutive_def record_crash_def Let_def)
qed

interpretation budget: crash_budget reset mark_running record_crash consecutive should_rollback
  "\<lambda>t. crash_cap (policy t)"
  by unfold_locales
    (auto simp: consecutive_def should_rollback_def consecutive_record [unfolded consecutive_def])

lemma consecutive_record_pos:
  assumes "policy_ok (policy t)"
  shows "1 \<le> consecutive (record_crash now t)"
  using assms by (simp add: consecutive_def record_crash_crashes policy_ok_def)

end
