(* ===== verification/HealthGate.thy ===== *)
theory HealthGate
  imports Prelude
begin

section \<open>The install health gate (internal/supervisor/healthgate.go)\<close>

text \<open>
  \<open>gate\<close> is \<^verbatim>\<open>HealthGate\<close>, \<open>gate_state\<close> its \<^verbatim>\<open>gateState\<close>. Every method that
  changes the gate returns the new gate, with the Go result where it has one.
\<close>

datatype gate_state = GateInactive | GateArmed | GateStabilizing | GatePassed | GateFailed

datatype gate_outcome = GatePending | GatePass | GateCrashed | GateTimedOut

datatype fail_reason = NoFail | FailCrash | FailTimeout | FailSpawn

fun fail_reason_str :: "fail_reason \<Rightarrow> string" where
  "fail_reason_str NoFail = ''''"
| "fail_reason_str FailCrash = ''install-health-crash''"
| "fail_reason_str FailTimeout = ''install-health-timeout''"
| "fail_reason_str FailSpawn = ''install-health-spawn-failed''"

record gate =
  window :: duration
  stable_for :: duration
  gstate :: gate_state
  gversion :: string
  deadline :: instant
  ready_at :: instant
  gfail :: fail_reason

definition default_gate_window :: duration where "default_gate_window = seconds 90"
definition default_gate_stable_for :: duration where "default_gate_stable_for = seconds 15"

definition new_gate :: "duration \<Rightarrow> duration \<Rightarrow> gate" where
  "new_gate w sf =
     \<lparr>window = (if w \<le> 0 then default_gate_window else w),
      stable_for = (if sf \<le> 0 then default_gate_stable_for else sf),
      gstate = GateInactive, gversion = [], deadline = 0, ready_at = 0, gfail = NoFail\<rparr>"

definition arm :: "string \<Rightarrow> instant \<Rightarrow> instant \<Rightarrow> gate \<Rightarrow> bool \<times> gate" where
  "arm version installed_at now g =
     (let dl = time_add installed_at (window g)
      in if \<not> time_before now dl then (False, g\<lparr>gstate := GateInactive\<rparr>)
         else (True, g\<lparr>gstate := GateArmed, gversion := version, deadline := dl,
                       ready_at := 0, gfail := NoFail\<rparr>))"

definition on_ready :: "instant \<Rightarrow> gate \<Rightarrow> gate" where
  "on_ready now g =
     (if gstate g \<noteq> GateArmed then g else g\<lparr>gstate := GateStabilizing, ready_at := now\<rparr>)"

definition on_crash :: "gate \<Rightarrow> gate_outcome \<times> gate" where
  "on_crash g =
     (if gstate g \<noteq> GateArmed \<and> gstate g \<noteq> GateStabilizing then (GatePending, g)
      else (GateCrashed, g\<lparr>gstate := GateFailed, gfail := FailCrash\<rparr>))"

definition tick :: "instant \<Rightarrow> gate \<Rightarrow> gate_outcome \<times> gate" where
  "tick now g =
     (case gstate g of
        GateStabilizing \<Rightarrow>
          (if time_sub now (ready_at g) \<ge> stable_for g
           then (GatePass, g\<lparr>gstate := GatePassed\<rparr>)
           else if \<not> time_before now (deadline g)
           then (GateTimedOut, g\<lparr>gstate := GateFailed, gfail := FailTimeout\<rparr>)
           else (GatePending, g))
      | GateArmed \<Rightarrow>
          (if \<not> time_before now (deadline g)
           then (GateTimedOut, g\<lparr>gstate := GateFailed, gfail := FailTimeout\<rparr>)
           else (GatePending, g))
      | _ \<Rightarrow> (GatePending, g))"

definition until_non_negative :: "instant \<Rightarrow> instant \<Rightarrow> duration" where
  "until_non_negative dl now = (let d = time_sub dl now in if d < 0 then 0 else d)"

definition next_wake :: "instant \<Rightarrow> gate \<Rightarrow> duration" where
  "next_wake now g =
     (case gstate g of
        GateArmed \<Rightarrow> until_non_negative (deadline g) now
      | GateStabilizing \<Rightarrow>
          (let stable_by = time_add (ready_at g) (stable_for g)
           in if time_before stable_by (deadline g) then until_non_negative stable_by now
              else until_non_negative (deadline g) now)
      | _ \<Rightarrow> 0)"

definition is_active :: "gate \<Rightarrow> bool" where
  "is_active g \<longleftrightarrow> gstate g = GateArmed \<or> gstate g = GateStabilizing"

definition passed :: "gate \<Rightarrow> bool" where
  "passed g \<longleftrightarrow> gstate g = GatePassed"

definition gate_reset :: "gate \<Rightarrow> gate" where
  "gate_reset g = g\<lparr>gstate := GateInactive\<rparr>"

subsection \<open>Frame and case facts\<close>

lemma gate_frame [frame, simp]:
  "window (snd (arm v i n g)) = window g" "stable_for (snd (arm v i n g)) = stable_for g"
  "window (on_ready n g) = window g" "stable_for (on_ready n g) = stable_for g"
  "window (gate_reset g) = window g" "stable_for (gate_reset g) = stable_for g"
  "window (snd (tick n g)) = window g" "stable_for (snd (tick n g)) = stable_for g"
  "window (snd (on_crash g)) = window g" "stable_for (snd (on_crash g)) = stable_for g"
  "deadline (on_ready n g) = deadline g"
  by (auto simp: arm_def on_ready_def gate_reset_def tick_def on_crash_def Let_def
      split: gate_state.splits)

lemma is_active_reset [simp]: "\<not> is_active (gate_reset g)"
  by (simp add: is_active_def gate_reset_def)

lemma arm_fst_iff: "fst (arm v i n g) \<longleftrightarrow> is_active (snd (arm v i n g))"
  by (simp add: arm_def is_active_def Let_def)

lemma on_crash_active: "fst (on_crash g) = GateCrashed \<longleftrightarrow> is_active g"
  by (auto simp: on_crash_def is_active_def)

definition gate_ok :: "gate \<Rightarrow> bool" where
  "gate_ok g \<longleftrightarrow> 0 < window g \<and> 0 < stable_for g
     \<and> in_int64 (window g) \<and> in_int64 (stable_for g)"

lemma gate_ok_new: "in_int64 w \<Longrightarrow> in_int64 sf \<Longrightarrow> gate_ok (new_gate w sf)"
  by (auto simp: gate_ok_def new_gate_def default_gate_window_def default_gate_stable_for_def
      in_int64_def)

lemmas tick_simps = tick_def is_active_def go_time gate_ok_def

subsection \<open>What a decision means\<close>

text \<open>
  \<open>gate_run\<close> feeds the gate a sequence of calls, as the loop does between two spawns.
\<close>

datatype gate_call = CReady instant | CTick instant

fun gate_call_step :: "gate \<Rightarrow> gate_call \<Rightarrow> gate" where
  "gate_call_step g (CReady now) = on_ready now g"
| "gate_call_step g (CTick now) = snd (tick now g)"

definition gate_run :: "gate \<Rightarrow> gate_call list \<Rightarrow> gate" where
  "gate_run g cs = foldl gate_call_step g cs"

text \<open>
  Decisions are absorbing: once the gate has passed, failed or been reset, no READY, tick
  or crash changes it. Only \<^verbatim>\<open>Arm\<close> and \<^verbatim>\<open>Reset\<close> leave such a state.
\<close>

lemma gate_inactive_absorbing:
  assumes "\<not> is_active g"
  shows "on_ready now g = g" "tick now g = (GatePending, g)" "on_crash g = (GatePending, g)"
  using assms
  by (cases "gstate g"; simp add: is_active_def on_ready_def tick_def on_crash_def)+

lemma gate_run_inactive: "\<not> is_active g \<Longrightarrow> gate_run g cs = g"
  unfolding gate_run_def
proof (induction cs)
  case (Cons c cs)
  then show ?case by (cases c) (simp_all add: gate_inactive_absorbing)
qed simp

text \<open>
  The gate passes an install only on evidence. If a run of calls after a successful Arm
  ends in Passed, then some READY was received at a time r and a later-or-equal tick saw the
  worker stable for StableFor since r: the sum of the observed stable time is never below
  StableFor.
\<close>
lemma gate_run_passed_evidence:
  assumes ok: "gate_ok g" and p: "gstate (gate_run g cs) = GatePassed" "gstate g \<noteq> GatePassed"
  shows "\<exists>r now. (CReady r \<in> set cs \<or> gstate g = GateStabilizing \<and> r = ready_at g)
    \<and> CTick now \<in> set cs \<and> now - r \<ge> stable_for g"
  using assms
proof (induction cs arbitrary: g)
  case (Cons c cs)
  show ?case
  proof (cases c)
    case (CReady t)
    have "gate_ok (on_ready t g)" using Cons.prems(1) by (simp add: gate_ok_def)
    moreover have "gstate (on_ready t g) \<noteq> GatePassed"
      using Cons.prems(3) by (simp add: on_ready_def)
    ultimately obtain r now where "CReady r \<in> set cs \<or>
        gstate (on_ready t g) = GateStabilizing \<and> r = ready_at (on_ready t g)"
      "CTick now \<in> set cs" "now - r \<ge> stable_for g"
      using Cons.IH [of "on_ready t g"] Cons.prems(2) CReady by (auto simp: gate_run_def)
    with CReady show ?thesis by (auto simp: on_ready_def split: if_splits)
  next
    case (CTick t)
    show ?thesis
    proof (cases "gstate (snd (tick t g)) = GatePassed")
      case True
      with Cons.prems(1,3) CTick show ?thesis
        by (auto simp: tick_simps in_int64_def split: gate_state.splits if_splits)
    next
      case False
      have "gate_ok (snd (tick t g))" using Cons.prems(1) by (simp add: gate_ok_def)
      then obtain r now where "CReady r \<in> set cs \<or>
          gstate (snd (tick t g)) = GateStabilizing \<and> r = ready_at (snd (tick t g))"
        "CTick now \<in> set cs" "now - r \<ge> stable_for g"
        using Cons.IH [of "snd (tick t g)"] Cons.prems(2) CTick False
        by (auto simp: gate_run_def)
      with CTick show ?thesis
        by (auto simp: tick_def split: gate_state.splits if_splits)
    qed
  qed
qed (simp add: gate_run_def)

lemma gate_run_passed_evidence_armed:
  assumes "gate_ok g" "gstate g = GateArmed" "gstate (gate_run g cs) = GatePassed"
  shows "\<exists>r now. CReady r \<in> set cs \<and> CTick now \<in> set cs \<and> now - r \<ge> stable_for g"
  using gate_run_passed_evidence [OF assms(1,3)] assms(2) by auto

subsection \<open>The timer the loop sets\<close>

text \<open>
  NextWake is exact. For an active gate, a tick at any time from now on is undecided
  precisely while it is earlier than now plus NextWake: the loop neither wakes too early for
  a decision nor sleeps past one (as long as the distances fit a Duration).
\<close>
theorem next_wake_exact:
  assumes "gate_ok g" and "is_active g" and "in_int64 (deadline g - now)"
    and "in_int64 (ready_at g + stable_for g - now)" and "now \<le> t"
  shows "fst (tick t g) = GatePending \<longleftrightarrow> t < now + next_wake now g"
proof -
  have u: "until_non_negative x now = max 0 (x - now)" if "in_int64 (x - now)" for x
    using that by (auto simp: until_non_negative_def Let_def time_sub_def in_int64_def)
  have ts: "time_sub t (ready_at g) \<ge> stable_for g \<longleftrightarrow> t - ready_at g \<ge> stable_for g"
    using assms(1) by (intro time_sub_ge_iff) (auto simp: gate_ok_def)
  show ?thesis
    using assms(2,5) u [OF assms(3)] u [OF assms(4)]
    by (auto simp: tick_def next_wake_def is_active_def Let_def ts time_add_def time_before_def
        split: if_splits)
qed

definition armed_demo :: gate where
  "armed_demo = snd (arm ''v2'' (seconds 1000) (seconds 1001) (new_gate 0 0))"

lemma next_wake_exact_witness:
  "next_wake (seconds 1001) armed_demo = seconds 89 \<and>
   fst (tick (seconds 1089) armed_demo) = GatePending \<and>
   fst (tick (seconds 1090) armed_demo) \<noteq> GatePending"
proof -
  have "gate_ok armed_demo" "is_active armed_demo"
    "in_int64 (deadline armed_demo - seconds 1001)"
    "in_int64 (ready_at armed_demo + stable_for armed_demo - seconds 1001)"
    "next_wake (seconds 1001) armed_demo = seconds 89"
    by (simp_all add: armed_demo_def arm_def new_gate_def default_gate_window_def
        default_gate_stable_for_def time_add_def time_before_def gate_ok_def in_int64_def
        is_active_def next_wake_def until_non_negative_def time_sub_def)
  then show ?thesis
    using next_wake_exact [of armed_demo "seconds 1001" "seconds 1089"]
      next_wake_exact [of armed_demo "seconds 1001" "seconds 1090"] by simp
qed

text \<open>
  Stability is tested before the deadline. A worker that became READY too late to
  accumulate StableFor within the window still passes when the first tick comes after both
  instants, although the outcome's comment calls that case a timeout.
\<close>
theorem tick_late_pass:
  assumes "gate_ok g" and "gstate g = GateStabilizing" and "ready_at g + stable_for g \<le> now"
  shows "tick now g = (GatePass, g\<lparr>gstate := GatePassed\<rparr>)"
  using assms by (simp add: tick_def gate_ok_def time_sub_ge_iff in_int64_def)

definition late_demo :: gate where
  "late_demo = on_ready (seconds 1080) armed_demo"

lemma tick_late_pass_witness:
  "deadline late_demo = seconds 1090 \<and> fst (tick (seconds 1095) late_demo) = GatePass
   \<and> fst (tick (seconds 1094) late_demo) = GateTimedOut"
proof -
  have e: "gate_ok late_demo" "gstate late_demo = GateStabilizing"
    "ready_at late_demo + stable_for late_demo \<le> seconds 1095"
    "deadline late_demo = seconds 1090 \<and> fst (tick (seconds 1094) late_demo) = GateTimedOut"
    by (simp_all add: late_demo_def armed_demo_def on_ready_def arm_def new_gate_def
        default_gate_window_def default_gate_stable_for_def time_add_def time_before_def
        gate_ok_def in_int64_def tick_def time_sub_def)
  then show ?thesis using tick_late_pass [OF e(1-3)] by simp
qed

subsection \<open>The contract the supervisor loop relies on\<close>

locale install_gate =
  fixes active :: "'g \<Rightarrow> bool" and disarm :: "'g \<Rightarrow> 'g"
    and attempt :: "string \<Rightarrow> instant \<Rightarrow> instant \<Rightarrow> 'g \<Rightarrow> bool \<times> 'g"
    and fail :: "'g \<Rightarrow> gate_outcome \<times> 'g" and label :: "'g \<Rightarrow> string"
  assumes disarm_inactive: "\<not> active (disarm g)"
    and attempt_active: "fst (attempt v i n g) \<longleftrightarrow> active (snd (attempt v i n g))"
    and attempt_label: "fst (attempt v i n g) \<Longrightarrow> label (snd (attempt v i n g)) = v"
    and fail_inactive: "\<not> active (snd (fail g))"
begin

lemma attempt_cases:
  obtains "fst (attempt v i n g)" "active (snd (attempt v i n g))"
      "label (snd (attempt v i n g)) = v"
  | "\<not> fst (attempt v i n g)" "\<not> active (snd (attempt v i n g))"
  using attempt_active attempt_label by blast

end

interpretation hg: install_gate is_active gate_reset arm on_crash gversion
  by unfold_locales
    (auto simp: arm_fst_iff [symmetric] arm_def on_crash_def is_active_def gate_reset_def Let_def)

end
