(* ===== verification/ExitCode.thy ===== *)
theory ExitCode
  imports Prelude
begin

section \<open>Classification of worker exits (internal/supervisor/exitcode.go)\<close>

text \<open>
  \<open>exit_info\<close> is \<^verbatim>\<open>ExitInfo\<close>; \<open>wait_status\<close> is the part of \<^verbatim>\<open>syscall.WaitStatus\<close>
  the extraction reads. \<open>classify_exit_code\<close> keeps the order of the source's cases.
\<close>

datatype classification = ClassGraceful | ClassUnexpected | ClassNoRestart | ClassRollback

fun class_str :: "classification \<Rightarrow> string" where
  "class_str ClassGraceful = ''graceful''"
| "class_str ClassNoRestart = ''no-restart''"
| "class_str ClassRollback = ''rollback''"
| "class_str ClassUnexpected = ''unexpected''"

record exit_info =
  code :: int
  signaled :: bool

datatype wait_status = Exited int | Killed int

fun from_process_state :: "wait_status option \<Rightarrow> exit_info" where
  \<comment> \<open>\<^verbatim>\<open>None\<close> is the nil \<^verbatim>\<open>*os.ProcessState\<close>\<close>
  "from_process_state None = \<lparr>code = -1, signaled = False\<rparr>"
| "from_process_state (Some (Killed sig)) = \<lparr>code = sig, signaled = True\<rparr>"
| "from_process_state (Some (Exited c)) = \<lparr>code = c, signaled = False\<rparr>"

definition classify_exit_code :: "exit_info \<Rightarrow> classification" where
  "classify_exit_code info =
     (if signaled info then ClassUnexpected
      else if code info = 0 then ClassGraceful
      else if code info = 64 then ClassNoRestart
      else if code info = 65 then ClassRollback
      else if 1 \<le> code info \<and> code info \<le> 63 then ClassUnexpected
      else ClassUnexpected)"

text \<open>
  Only a genuine exit status drives policy. The reserved codes are recognised exactly
  when the worker called exit with them; a worker killed by signal 0, 64 or 65 is classified
  as unexpected like any other death.
\<close>
theorem classify_reserved:
  "(classify_exit_code (from_process_state ws) = ClassNoRestart \<longleftrightarrow> ws = Some (Exited 64)) \<and>
   (classify_exit_code (from_process_state ws) = ClassRollback \<longleftrightarrow> ws = Some (Exited 65)) \<and>
   (classify_exit_code (from_process_state ws) = ClassGraceful \<longleftrightarrow> ws = Some (Exited 0))"
  by (cases ws rule: from_process_state.cases) (simp_all add: classify_exit_code_def)

end
