(* ===== verification/GoStrings.thy ===== *)
theory GoStrings
  imports Prelude "HOL-Library.Sublist"
begin

section \<open>Packages strings and path/filepath\<close>

text \<open>
  The operations of the Go packages \<^verbatim>\<open>strings\<close> and \<^verbatim>\<open>path/filepath\<close> (unix) the
  sources call. A Go string is a byte sequence, here a \<open>string\<close>: one \<open>char\<close> per byte.
  \<open>trim_space\<close> removes every white-space code point of Unicode by its UTF-8 bytes, as
  \<^verbatim>\<open>strings.TrimSpace\<close> does. \<open>to_lower\<close> lowers ASCII letters only: the sources only
  compare its result with lower-case ASCII words.
\<close>

subsection \<open>Splitting and joining\<close>

fun split_on :: "char \<Rightarrow> string \<Rightarrow> string list" where
  "split_on c [] = [[]]"
| "split_on c (x # xs) =
     (if x = c then [] # split_on c xs
      else (case split_on c xs of [] \<Rightarrow> [[x]] | y # ys \<Rightarrow> (x # y) # ys))"

fun join_with :: "string \<Rightarrow> string list \<Rightarrow> string" where
  "join_with sep [] = []"
| "join_with sep [x] = x"
| "join_with sep (x # y # ys) = x @ sep @ join_with sep (y # ys)"

lemma split_on_ne [simp]: "split_on c s \<noteq> []"
  by (induction s) (auto split: list.splits)

lemma split_on_free: "c \<notin> set s \<Longrightarrow> split_on c s = [s]"
  by (induction s) auto

lemma split_on_append: "c \<notin> set s \<Longrightarrow> split_on c (s @ c # t) = s # split_on c t"
  by (induction s) auto

lemma split_on_parts_free: "p \<in> set (split_on c s) \<Longrightarrow> c \<notin> set p"
  by (induction s arbitrary: p) (auto split: if_splits list.splits)

lemma split_on_join:
  "ps \<noteq> [] \<Longrightarrow> (\<forall>p \<in> set ps. c \<notin> set p) \<Longrightarrow> split_on c (join_with [c] ps) = ps"
proof (induction ps)
  case (Cons x xs)
  then show ?case by (cases xs) (auto simp: split_on_free split_on_append)
qed simp

definition cut_on :: "char \<Rightarrow> string \<Rightarrow> (string \<times> string) option" where
  \<comment> \<open>\<^verbatim>\<open>strings.Cut\<close> with a one-byte separator; \<open>None\<close> when it is not found\<close>
  "cut_on c s =
     (if c \<in> set s then Some (takeWhile (\<lambda>x. x \<noteq> c) s, tl (dropWhile (\<lambda>x. x \<noteq> c) s)) else None)"

lemma cut_on_append: "c \<notin> set k \<Longrightarrow> cut_on c (k @ c # v) = Some (k, v)"
  by (auto simp: cut_on_def takeWhile_append dropWhile_append)

definition has_prefix :: "string \<Rightarrow> string \<Rightarrow> bool" where
  "has_prefix s p = prefix p s"

definition has_suffix :: "string \<Rightarrow> string \<Rightarrow> bool" where
  "has_suffix s p = suffix p s"

definition cut_prefix :: "string \<Rightarrow> string \<Rightarrow> string option" where
  "cut_prefix s p = (if prefix p s then Some (drop (length p) s) else None)"

fun contains_str :: "string \<Rightarrow> string \<Rightarrow> bool" where
  "contains_str s p = (prefix p s \<or> (case s of [] \<Rightarrow> False | _ # t \<Rightarrow> contains_str t p))"

declare contains_str.simps [simp del]

subsection \<open>Trimming\<close>

definition trim_right_byte :: "char \<Rightarrow> string \<Rightarrow> string" where
  \<comment> \<open>\<^verbatim>\<open>strings.TrimRight\<close> with a one-byte cutset\<close>
  "trim_right_byte c s = rev (dropWhile (\<lambda>x. x = c) (rev s))"

lemma trim_right_byte_free: "c \<notin> set s \<Longrightarrow> trim_right_byte c s = s"
  by (cases "rev s") (auto simp: trim_right_byte_def)

definition space_runes :: "string list" where
  \<comment> \<open>the UTF-8 bytes of every code point for which \<^verbatim>\<open>unicode.IsSpace\<close> holds\<close>
  "space_runes =
     map (\<lambda>n. [char_of (n :: nat)]) [9, 10, 11, 12, 13, 32]
     @ map (map (char_of :: nat \<Rightarrow> char))
        ([[194, 133], [194, 160], [225, 154, 128]]
         @ map (\<lambda>n. [226, 128, n]) [128 ..< 139]
         @ [[226, 128, 168], [226, 128, 169], [226, 128, 175], [226, 129, 159], [227, 128, 128]])"

function strip_left :: "string list \<Rightarrow> string \<Rightarrow> string" where
  "strip_left rs s =
     (case List.find (\<lambda>r. r \<noteq> [] \<and> prefix r s) rs of
        None \<Rightarrow> s
      | Some r \<Rightarrow> strip_left rs (drop (length r) s))"
  by pat_completeness auto
termination
  by (relation "measure (\<lambda>(rs, s). length s)") (auto simp: find_Some_iff prefix_def)

declare strip_left.simps [simp del]

definition trim_space :: "string \<Rightarrow> string" where
  "trim_space s = rev (strip_left (map rev space_runes) (rev (strip_left space_runes s)))"

lemma strip_left_Nil [simp]: "strip_left rs [] = []"
proof -
  have "List.find (\<lambda>r. r \<noteq> [] \<and> prefix r []) rs = None" by (simp add: find_None_iff)
  then show ?thesis by (subst strip_left.simps) simp
qed

lemma trim_space_Nil [simp]: "trim_space [] = []"
  by (simp add: trim_space_def)

text \<open>Text between printable ASCII characters loses only the white space around it.\<close>

definition graphic :: "char \<Rightarrow> bool" where
  "graphic c \<longleftrightarrow> 32 < (of_char c :: nat) \<and> (of_char c :: nat) < 127"

lemma strip_left_stays:
  assumes "\<forall>r \<in> set rs. r \<noteq> [] \<longrightarrow> hd r \<noteq> c"
  shows "strip_left rs (c # s) = c # s"
proof -
  have "List.find (\<lambda>r. r \<noteq> [] \<and> prefix r (c # s)) rs = None"
    using assms by (auto simp: find_None_iff prefix_Cons)
  then show ?thesis by (subst strip_left.simps) simp
qed

lemma space_heads: "\<forall>r \<in> set space_runes. \<not> graphic (hd r)"
  by (auto simp: space_runes_def graphic_def)

lemma space_lasts: "\<forall>r \<in> set (map rev space_runes). \<not> graphic (hd r)"
  by (auto simp: space_runes_def graphic_def)

lemma strip_graphic:
  assumes "s \<noteq> []" "graphic (hd s)"
  shows "strip_left space_runes s = s" "strip_left (map rev space_runes) s = s"
  using assms space_heads space_lasts by (cases s; force intro!: strip_left_stays)+

lemma strip_byte:
  assumes "n \<in> {9, 10, 11, 12, 13, 32}"
  shows "strip_left space_runes (char_of (n :: nat) # s) = strip_left space_runes s"
    "strip_left (map rev space_runes) (char_of n # s) = strip_left (map rev space_runes) s"
proof -
  have f: "List.find (\<lambda>r. r \<noteq> [] \<and> prefix r (char_of n # s)) (map (\<lambda>n. [char_of (n :: nat)]) [9, 10, 11, 12, 13, 32] @ rs) = Some [char_of n]" for rs
    using assms by (auto simp: char_of_eq_iff)
  have r: "space_runes = map (\<lambda>n. [char_of (n :: nat)]) [9, 10, 11, 12, 13, 32] @ drop 6 space_runes"
    "map rev space_runes = map (\<lambda>n. [char_of (n :: nat)]) [9, 10, 11, 12, 13, 32] @ drop 6 (map rev space_runes)"
    by (simp_all add: space_runes_def)
  show "strip_left space_runes (char_of (n :: nat) # s) = strip_left space_runes s"
    by (subst strip_left.simps, subst r(1), subst f) simp
  show "strip_left (map rev space_runes) (char_of n # s) = strip_left (map rev space_runes) s"
    by (subst strip_left.simps, subst r(2), subst f) simp
qed

lemma strip_newline: "strip_left (map rev space_runes) (CHR 0x0A # s) = strip_left (map rev space_runes) s"
proof -
  have "char_of (10 :: nat) = CHR 0x0A" by code_simp
  then show ?thesis using strip_byte(2) [of 10 s] by simp
qed

lemma strip_blank: "strip_left space_runes (CHR '' '' # s) = strip_left space_runes s"
  "strip_left (map rev space_runes) (CHR '' '' # s) = strip_left (map rev space_runes) s"
proof -
  have "char_of (32 :: nat) = CHR '' ''" by code_simp
  then show "strip_left space_runes (CHR '' '' # s) = strip_left space_runes s"
    "strip_left (map rev space_runes) (CHR '' '' # s) = strip_left (map rev space_runes) s"
    using strip_byte [of 32 s] by simp_all
qed

lemma trim_blanks:
  assumes "s \<noteq> []" "graphic (hd s)" "graphic (last s)"
  shows "trim_space s = s" "trim_space (CHR '' '' # s @ '' '') = s"
proof -
  have l: "strip_left space_runes (s @ t) = s @ t" for t using assms strip_graphic(1) [of "s @ t"] by simp
  have "strip_left (map rev space_runes) (rev s) = rev s"
    using assms strip_graphic(2) [of "rev s"] by (simp add: hd_rev)
  then show "trim_space s = s" "trim_space (CHR '' '' # s @ '' '') = s"
    using l [of "[]"] l by (simp_all add: trim_space_def strip_blank)
qed

subsection \<open>Letter case\<close>

definition to_lower_char :: "char \<Rightarrow> char" where
  "to_lower_char c =
     (let n = of_char c :: nat in if 65 \<le> n \<and> n \<le> 90 then char_of (n + 32) else c)"

definition to_lower :: "string \<Rightarrow> string" where
  "to_lower s = map to_lower_char s"

definition equal_fold :: "string \<Rightarrow> string \<Rightarrow> bool" where
  \<comment> \<open>\<^verbatim>\<open>strings.EqualFold\<close> on ASCII operands\<close>
  "equal_fold s t \<longleftrightarrow> to_lower s = to_lower t"

subsection \<open>Paths\<close>

definition clean_step :: "bool \<Rightarrow> string list \<Rightarrow> string \<Rightarrow> string list" where
  \<comment> \<open>one element of a path in \<^verbatim>\<open>filepath.Clean\<close>; the stack holds the result reversed\<close>
  "clean_step rooted st c =
     (if c = [] \<or> c = ''.'' then st
      else if c = ''..'' then
        (if st \<noteq> [] \<and> hd st \<noteq> ''..'' then tl st else if rooted then st else c # st)
      else c # st)"

definition is_abs :: "string \<Rightarrow> bool" where
  "is_abs p \<longleftrightarrow> prefix ''/'' p"

definition clean_elems :: "string \<Rightarrow> string list" where
  "clean_elems p = rev (foldl (clean_step (is_abs p)) [] (split_on (CHR ''/'') p))"

definition clean :: "string \<Rightarrow> string" where
  "clean p =
     (let body = join_with ''/'' (clean_elems p)
      in if is_abs p then CHR ''/'' # body else if body = [] then ''.'' else body)"

definition path_join :: "string list \<Rightarrow> string" where
  "path_join es =
     (case filter (\<lambda>e. e \<noteq> []) es of [] \<Rightarrow> [] | es' \<Rightarrow> clean (join_with ''/'' es'))"

definition base_name :: "string \<Rightarrow> string" where
  "base_name p =
     (if p = [] then ''.''
      else let q = trim_right_byte (CHR ''/'') p
           in if q = [] then ''/'' else last (split_on (CHR ''/'') q))"

text \<open>
  In a cleaned relative path \<open>..\<close> stands only at the front: the invariant of the stack is
  that below an element other than \<open>..\<close> nothing can be \<open>..\<close> once popped.
\<close>

definition dots_at_bottom :: "string list \<Rightarrow> bool" where
  "dots_at_bottom st \<longleftrightarrow> (\<exists>xs n. st = xs @ replicate n ''..'' \<and> ''..'' \<notin> set xs)"

lemma dots_at_bottom_Nil: "dots_at_bottom []"
  by (auto simp: dots_at_bottom_def intro: exI [of _ "[]"] exI [of _ 0])

lemma dots_at_bottom_tl:
  assumes "dots_at_bottom (x # st)"
  shows "dots_at_bottom st"
proof -
  from assms obtain xs n where e: "x # st = xs @ replicate n ''..''" and f: "''..'' \<notin> set xs"
    unfolding dots_at_bottom_def by blast
  show ?thesis
  proof (cases xs)
    case Nil
    with e obtain m where "n = Suc m" by (cases n) auto
    with e Nil have "st = [] @ replicate m ''..''" by simp
    then show ?thesis unfolding dots_at_bottom_def by (metis empty_iff empty_set)
  next
    case (Cons y ys)
    with e f show ?thesis unfolding dots_at_bottom_def by auto
  qed
qed

lemma dots_at_bottom_push: "dots_at_bottom st \<Longrightarrow> c \<noteq> ''..'' \<Longrightarrow> dots_at_bottom (c # st)"
  unfolding dots_at_bottom_def by (metis append_Cons set_ConsD)

lemma dots_at_bottom_dots:
  assumes "dots_at_bottom st" "st = [] \<or> hd st = ''..''"
  shows "dots_at_bottom (''..'' # st)"
proof -
  from assms obtain xs n where e: "st = xs @ replicate n ''..''" and f: "''..'' \<notin> set xs"
    unfolding dots_at_bottom_def by blast
  with assms(2) have "xs = []" by (cases xs) auto
  with e have "''..'' # st = [] @ replicate (Suc n) ''..''" by simp
  then show ?thesis unfolding dots_at_bottom_def by (metis empty_iff empty_set)
qed

lemma clean_step_dots: "dots_at_bottom st \<Longrightarrow> dots_at_bottom (clean_step r st c)"
  unfolding clean_step_def
  by (cases st) (auto intro: dots_at_bottom_push dots_at_bottom_dots dots_at_bottom_tl)

lemma foldl_clean_step_dots: "dots_at_bottom st \<Longrightarrow> dots_at_bottom (foldl (clean_step r) st cs)"
  by (induction cs arbitrary: st) (auto intro: clean_step_dots)

lemma clean_elems_dots:
  "\<exists>n xs. clean_elems p = replicate n ''..'' @ xs \<and> ''..'' \<notin> set xs"
proof -
  obtain xs n where "foldl (clean_step (is_abs p)) [] (split_on (CHR ''/'') p)
      = xs @ replicate n ''..''" and "''..'' \<notin> set xs"
    using foldl_clean_step_dots [OF dots_at_bottom_Nil] unfolding dots_at_bottom_def by blast
  then show ?thesis unfolding clean_elems_def by (intro exI [of _ n] exI [of _ "rev xs"]) simp
qed

text \<open>Joining a directory with a plain file name: different names give different paths.\<close>

definition plain_name :: "string \<Rightarrow> bool" where
  "plain_name n \<longleftrightarrow> n \<noteq> [] \<and> n \<noteq> ''.'' \<and> n \<noteq> ''..'' \<and> CHR ''/'' \<notin> set n"

lemma split_on_snoc_name:
  "CHR ''/'' \<notin> set n \<Longrightarrow> split_on (CHR ''/'') (r @ CHR ''/'' # n) = split_on (CHR ''/'') r @ [n]"
proof (induction r)
  case Nil
  then show ?case by (simp add: split_on_free)
next
  case (Cons x r)
  then show ?case by (cases "split_on (CHR ''/'') r") auto
qed

lemma clean_elems_snoc:
  assumes "plain_name n" "r \<noteq> []"
  shows "clean_elems (r @ CHR ''/'' # n) = clean_elems r @ [n]"
proof -
  have "is_abs (r @ CHR ''/'' # n) = is_abs r" using assms(2) by (cases r) (auto simp: is_abs_def)
  with assms show ?thesis
    by (simp add: clean_elems_def split_on_snoc_name plain_name_def clean_step_def)
qed

lemma foldl_clean_step_free:
  "\<forall>e \<in> set st. c \<notin> set e \<Longrightarrow> \<forall>e \<in> set cs. c \<notin> set e \<Longrightarrow>
   \<forall>e \<in> set (foldl (clean_step r) st cs). c \<notin> set e"
proof (induction cs arbitrary: st)
  case (Cons d cs)
  have "\<forall>e \<in> set (clean_step r st d). c \<notin> set e"
    using Cons.prems by (cases st) (auto simp: clean_step_def)
  with Cons show ?case by simp
qed simp

lemma clean_elems_free:
  assumes "e \<in> set (clean_elems p)"
  shows "CHR ''/'' \<notin> set e"
proof -
  have "\<forall>e \<in> set (foldl (clean_step (is_abs p)) [] (split_on (CHR ''/'') p)). CHR ''/'' \<notin> set e"
    by (rule foldl_clean_step_free) (auto dest: split_on_parts_free)
  with assms show ?thesis unfolding clean_elems_def by simp
qed

lemma path_join_two: "r \<noteq> [] \<Longrightarrow> n \<noteq> [] \<Longrightarrow> path_join [r, n] = clean (r @ CHR ''/'' # n)"
  by (simp add: path_join_def)

lemma split_clean:
  assumes "plain_name n" "r \<noteq> []"
  shows "split_on (CHR ''/'') (path_join [r, n]) =
    (if is_abs r then [[]] else []) @ clean_elems r @ [n]"
proof -
  have a: "is_abs (r @ CHR ''/'' # n) = is_abs r" using assms(2) by (cases r) (auto simp: is_abs_def)
  have n: "n \<noteq> []" using assms(1) by (simp add: plain_name_def)
  have f: "\<forall>e \<in> set (clean_elems r @ [n]). CHR ''/'' \<notin> set e"
    using clean_elems_free assms(1) by (auto simp: plain_name_def)
  have j: "split_on (CHR ''/'') (join_with ''/'' (clean_elems r @ [n])) = clean_elems r @ [n]"
    using f by (intro split_on_join) auto
  have ne: "join_with ''/'' (clean_elems r @ [n]) \<noteq> []"
  proof
    assume "join_with ''/'' (clean_elems r @ [n]) = []"
    with j have "clean_elems r @ [n] = [[]]" by simp
    with n show False by (cases "clean_elems r") auto
  qed
  have e: "path_join [r, n] = (if is_abs r then CHR ''/'' # join_with ''/'' (clean_elems r @ [n])
      else join_with ''/'' (clean_elems r @ [n]))"
    unfolding path_join_two [OF assms(2) n] clean_def clean_elems_snoc [OF assms] a Let_def
    using ne by simp
  show ?thesis
    unfolding e using j by (cases "is_abs r") simp_all
qed

lemma path_join_inj:
  assumes "path_join [r, m] = path_join [r, n]" "plain_name m" "plain_name n" "r \<noteq> []"
  shows "m = n"
proof -
  have "(if is_abs r then [[]] else []) @ clean_elems r @ [m] =
      (if is_abs r then [[]] else []) @ clean_elems r @ [n]"
    unfolding split_clean [OF assms(2,4), symmetric] split_clean [OF assms(3,4), symmetric]
    by (rule arg_cong [OF assms(1)])
  then show ?thesis by (simp only: same_append_eq list.inject)
qed

end
