(* ===== verification/Json.thy ===== *)
theory Json
  imports GoStrings
begin

section \<open>JSON documents as package encoding/json reads them\<close>

text \<open>
  Documents are values of \<open>json\<close>, not text: printing and parsing the concrete syntax is the
  library's. A JSON string that is an RFC 3339 instant is \<open>JTime\<close>, every other string is
  \<open>JStr\<close>. Strings are assumed to be valid UTF-8 (the encoder replaces other bytes).
  Decoding into a struct follows \<^verbatim>\<open>json.Unmarshal\<close>: keys match field names without
  regard to case, unknown keys are ignored, a later duplicate wins, null leaves the field as
  it is and a value of another shape is an error (\<open>None\<close>).
\<close>

datatype json = JNull | JBool bool | JNum int | JStr string | JTime instant
  | JArr "json list" | JObj "(string \<times> json) list"

subsection \<open>RFC 3339 text\<close>

fun digits :: "nat \<Rightarrow> int \<Rightarrow> string" where
  \<comment> \<open>the last \<open>k\<close> decimal digits of a number\<close>
  "digits 0 n = []"
| "digits (Suc k) n = digits k (n div 10) @ [char_of (48 + nat (n mod 10))]"

definition month_lengths :: "bool \<Rightarrow> int list" where
  "month_lengths leap = [31, if leap then 29 else 28, 31, 30, 31, 30, 31, 31, 30, 31, 30, 31]"

fun month_day :: "int list \<Rightarrow> int \<Rightarrow> int \<Rightarrow> int \<times> int" where
  "month_day [] m d = (m, d)"
| "month_day (l # ls) m d = (if d < l then (m, d) else month_day ls (m + 1) (d - l))"

definition civil :: "int \<Rightarrow> int \<times> int \<times> int" where
  \<comment> \<open>year, month and day of a day number, counted from 1 January of year 1\<close>
  "civil days =
     (let r400 = days mod 146097; n100 = min 3 (r400 div 36524); r100 = r400 - n100 * 36524;
          r4 = r100 mod 1461; n1 = min 3 (r4 div 365);
          y = 400 * (days div 146097) + 100 * n100 + 4 * (r100 div 1461) + n1 + 1;
          leap = (y mod 4 = 0 \<and> (y mod 100 \<noteq> 0 \<or> y mod 400 = 0));
          (m, d) = month_day (month_lengths leap) 1 (r4 - n1 * 365)
      in (y, m, d + 1))"

definition frac_text :: "int \<Rightarrow> string" where
  "frac_text ns =
     (if ns = 0 then [] else CHR ''.'' # trim_right_byte (CHR ''0'') (digits 9 ns))"

definition rfc3339_nano :: "instant \<Rightarrow> string" where
  "rfc3339_nano t =
     (let s = t div 1000000000; (y, m, d) = civil (s div 86400); r = s mod 86400
      in digits 4 y @ ''-'' @ digits 2 m @ ''-'' @ digits 2 d @ ''T''
         @ digits 2 (r div 3600) @ '':'' @ digits 2 (r div 60 mod 60) @ '':''
         @ digits 2 (r mod 60) @ frac_text (t mod 1000000000) @ ''Z'')"

definition rfc3339 :: "instant \<Rightarrow> string" where
  \<comment> \<open>\<^verbatim>\<open>rfc3339\<close> of internal/openclaw/snapshot.go\<close>
  "rfc3339 t = (if time_is_zero t then [] else rfc3339_nano t)"

definition time_encodable :: "instant \<Rightarrow> bool" where
  \<comment> \<open>\<^verbatim>\<open>Time.MarshalJSON\<close> fails outside the years 0 to 9999\<close>
  "time_encodable t \<longleftrightarrow> - (366 * 86400000000000) \<le> t \<and> t < 3652059 * 86400000000000"

lemma rfc3339_example:
  "rfc3339 (seconds (86400 * 739722 + 3661) + 500000000) = ''2026-04-17T01:01:01.5Z''"
  by code_simp

subsection \<open>Decoding into structs\<close>

fun decode_string :: "string \<Rightarrow> json \<Rightarrow> string option" where
  "decode_string old (JStr s) = Some s"
| "decode_string old (JTime t) = Some (rfc3339_nano t)"
| "decode_string old JNull = Some old"
| "decode_string old _ = None"

fun decode_time :: "instant \<Rightarrow> json \<Rightarrow> instant option" where
  "decode_time old (JTime t) = Some t"
| "decode_time old JNull = Some old"
| "decode_time old _ = None"

fun decode_int :: "int \<Rightarrow> json \<Rightarrow> int option" where
  "decode_int old (JNum n) = (if in_int64 n then Some n else None)"
| "decode_int old JNull = Some old"
| "decode_int old _ = None"

fun decode_bool :: "bool \<Rightarrow> json \<Rightarrow> bool option" where
  "decode_bool old (JBool b) = Some b"
| "decode_bool old JNull = Some old"
| "decode_bool old _ = None"

fun decode_fields :: "('e \<Rightarrow> string \<times> json \<Rightarrow> 'e option) \<Rightarrow> 'e \<Rightarrow> (string \<times> json) list \<Rightarrow> 'e option"
where
  "decode_fields f e [] = Some e"
| "decode_fields f e (kv # kvs) =
     (case f e kv of None \<Rightarrow> None | Some e' \<Rightarrow> decode_fields f e' kvs)"

fun decode_struct :: "('e \<Rightarrow> string \<times> json \<Rightarrow> 'e option) \<Rightarrow> 'e \<Rightarrow> json \<Rightarrow> 'e option" where
  "decode_struct f e (JObj kvs) = decode_fields f e kvs"
| "decode_struct f e JNull = Some e"
| "decode_struct f e _ = None"

fun decode_list :: "(json \<Rightarrow> 'e option) \<Rightarrow> json \<Rightarrow> 'e list option" where
  "decode_list f JNull = Some []"
| "decode_list f (JArr js) =
     foldr (\<lambda>j acc. case (f j, acc) of (Some e, Some es) \<Rightarrow> Some (e # es) | _ \<Rightarrow> None) js (Some [])"
| "decode_list f _ = None"

lemma decode_list_map:
  "(\<And>e. e \<in> set es \<Longrightarrow> dec (enc e) = Some e) \<Longrightarrow> decode_list dec (JArr (map enc es)) = Some es"
  by (induction es) auto

end
