(* ===== verification/Strconv.thy ===== *)
theory Strconv
  imports Json
begin

section \<open>Package strconv: decimal integers\<close>

text \<open>
  \<open>show_int\<close> is \<^verbatim>\<open>strconv.Itoa\<close> and \<^verbatim>\<open>FormatInt\<close> in base 10 for 64-bit values (at most 19
  digits), \<open>parse_int\<close> is \<^verbatim>\<open>strconv.Atoi\<close> and \<^verbatim>\<open>ParseInt\<close> in base 10 with 64 bits.
\<close>

definition magnitude :: "int \<Rightarrow> string" where
  "magnitude n =
     (let s = dropWhile (\<lambda>c. c = CHR ''0'') (digits 19 (abs n)) in if s = [] then ''0'' else s)"

definition show_int :: "int \<Rightarrow> string" where
  "show_int n = (if n < 0 then ''-'' else []) @ magnitude n"

definition digit_value :: "char \<Rightarrow> int option" where
  "digit_value c =
     (let n = int (of_char c) in if 48 \<le> n \<and> n \<le> 57 then Some (n - 48) else None)"

fun parse_digits :: "int \<Rightarrow> string \<Rightarrow> int option" where
  "parse_digits acc [] = Some acc"
| "parse_digits acc (c # cs) =
     (case digit_value c of None \<Rightarrow> None | Some d \<Rightarrow> parse_digits (acc * 10 + d) cs)"

definition parse_unsigned :: "string \<Rightarrow> int option" where
  "parse_unsigned s = (if s = [] then None else parse_digits 0 s)"

definition parse_int :: "string \<Rightarrow> int option" where
  "parse_int s =
     (let r = (if prefix ''-'' s then map_option uminus (parse_unsigned (tl s))
               else if prefix ''+'' s then parse_unsigned (tl s) else parse_unsigned s)
      in case r of None \<Rightarrow> None | Some n \<Rightarrow> if in_int64 n then Some n else None)"

lemma parse_digits_append:
  "parse_digits acc (s @ t) = (case parse_digits acc s of None \<Rightarrow> None | Some a \<Rightarrow> parse_digits a t)"
  by (induction acc s rule: parse_digits.induct) (auto split: option.splits)

lemma digit_value_digit:
  assumes "0 \<le> d" "d < 10"
  shows "digit_value (char_of (48 + nat d)) = Some d"
  using assms by (simp add: digit_value_def nat_less_iff)

lemma parse_digits_digits:
  "0 \<le> n \<Longrightarrow> n < 10 ^ k \<Longrightarrow> parse_digits 0 (digits k n) = Some n"
proof (induction k arbitrary: n)
  case (Suc k)
  have "n div 10 < 10 ^ k" using Suc.prems by (simp add: div_less_iff_less_mult)
  with Suc.IH [of "n div 10"] Suc.prems(1) show ?case
    by (simp add: parse_digits_append digit_value_digit)
qed simp

lemma parse_digits_zeros:
  "parse_digits 0 (dropWhile (\<lambda>c. c = CHR ''0'') s) = parse_digits 0 s"
  by (induction s) (auto simp: digit_value_def)

lemma digits_head: "c \<in> set (digits k n) \<Longrightarrow> digit_value c \<noteq> None"
  by (induction k arbitrary: n) (auto simp: digit_value_digit)

lemma not_sign:
  assumes "\<forall>c \<in> set s. digit_value c \<noteq> None"
  shows "\<not> prefix ''-'' s" "\<not> prefix ''+'' s"
proof -
  have "digit_value (CHR ''-'') = None" "digit_value (CHR ''+'') = None"
    by (simp_all add: digit_value_def)
  with assms show "\<not> prefix ''-'' s" "\<not> prefix ''+'' s" by (auto simp: prefix_def)
qed

lemma parse_magnitude:
  assumes "in_int64 n"
  shows "parse_unsigned (magnitude n) = Some (abs n)"
proof -
  let ?s = "dropWhile (\<lambda>c. c = CHR ''0'') (digits 19 (abs n))"
  have "abs n < 10 ^ 19" using assms by (simp add: in_int64_def abs_less_iff)
  then have p: "parse_digits 0 ?s = Some (abs n)"
    unfolding parse_digits_zeros by (intro parse_digits_digits) auto
  show ?thesis
  proof (cases "?s = []")
    case True
    with p have "abs n = 0" by (metis option.inject parse_digits.simps(1))
    with True show ?thesis unfolding magnitude_def Let_def
      by (simp add: parse_unsigned_def digit_value_def)
  next
    case False
    with p show ?thesis unfolding magnitude_def Let_def parse_unsigned_def by (simp only: if_False)
  qed
qed

lemma magnitude_digits: "c \<in> set (magnitude n) \<Longrightarrow> digit_value c \<noteq> None"
  by (auto simp: magnitude_def Let_def digit_value_def split: if_splits
      dest!: set_dropWhileD digits_head [unfolded digit_value_def])

lemma parse_show_int:
  assumes "in_int64 n"
  shows "parse_int (show_int n) = Some n"
proof (cases "n < 0")
  case True
  with parse_magnitude [OF assms] assms show ?thesis by (simp add: show_int_def parse_int_def)
next
  case False
  have "\<not> prefix ''-'' (magnitude n)" "\<not> prefix ''+'' (magnitude n)"
    using not_sign magnitude_digits by blast+
  with False parse_magnitude [OF assms] assms show ?thesis
    by (simp add: show_int_def parse_int_def)
qed

end
