(* ===== verification/Notify.thy ===== *)
theory Notify
  imports Strconv
begin

section \<open>The notify protocol (internal/supervisor/notify.go, internal/sdnotify)\<close>

text \<open>
  The supervisor's side: \<open>parse_notify_frame\<close> and the bounded channel of \<^verbatim>\<open>Listener\<close>.
  The worker's side: \<open>send\<close> (the datagram \<^verbatim>\<open>Client.Send\<close> writes), the watchdog cadence
  and the pid check. Sockets themselves are not modelled: a datagram is a string.
\<close>

subsection \<open>Worker: framing\<close>

datatype send_error = NotSupervised | NewlineInPair string

definition send :: "bool \<Rightarrow> string list \<Rightarrow> send_error + string" where
  \<comment> \<open>the payload handed to \<^verbatim>\<open>conn.Write\<close>; the flag says whether the client is connected\<close>
  "send connected pairs =
     (if \<not> connected then Inl NotSupervised
      else case List.find (\<lambda>p. CHR 0x0A \<in> set p \<or> CHR 0x0D \<in> set p) pairs of
        Some p \<Rightarrow> Inl (NewlineInPair p)
      | None \<Rightarrow> Inr (join_with [CHR 0x0A] pairs))"

definition send_ready :: "bool \<Rightarrow> send_error + string" where
  "send_ready c = send c [''READY=1'']"

definition send_watchdog :: "bool \<Rightarrow> send_error + string" where
  "send_watchdog c = send c [''WATCHDOG=1'']"

definition send_stopping :: "bool \<Rightarrow> send_error + string" where
  "send_stopping c = send c [''STOPPING=1'']"

subsection \<open>Supervisor: parsing\<close>

datatype notify_kind = NotifyReady | NotifyWatchdog | NotifyStopping

record notify_message =
  kinds :: "notify_kind list"
  raw :: string

definition line_kind :: "string \<Rightarrow> notify_kind option" where
  \<comment> \<open>the body of the loop of \<^verbatim>\<open>parseNotifyFrame\<close> for one line\<close>
  "line_kind l =
     (let line = trim_right_byte (CHR 0x0D) l
      in if line = [] then None
         else case cut_on (CHR ''='') line of
           None \<Rightarrow> None
         | Some (k, v) \<Rightarrow>
             if k = ''READY'' then (if v = ''1'' then Some NotifyReady else None)
             else if k = ''WATCHDOG'' then (if v = ''1'' then Some NotifyWatchdog else None)
             else if k = ''STOPPING'' then (if v = ''1'' then Some NotifyStopping else None)
             else None)"

definition parse_notify_frame :: "string \<Rightarrow> notify_message" where
  "parse_notify_frame frame =
     \<lparr>kinds = List.map_filter line_kind (split_on (CHR 0x0A) frame), raw = frame\<rparr>"

definition queue_capacity :: nat where "queue_capacity = 16"

definition enqueue :: "notify_message \<Rightarrow> notify_message list \<Rightarrow> notify_message list" where
  \<comment> \<open>the non-blocking send of \<^verbatim>\<open>Serve\<close>: a full channel drops the message\<close>
  "enqueue m q = (if length q < queue_capacity then q @ [m] else q)"

definition serve_datagram :: "string \<Rightarrow> notify_message list \<Rightarrow> notify_message list" where
  \<comment> \<open>one datagram read into the 4096-byte buffer of \<^verbatim>\<open>Serve\<close>\<close>
  "serve_datagram d q = enqueue (parse_notify_frame (take 4096 d)) q"

lemma enqueue_bound: "length q \<le> queue_capacity \<Longrightarrow> length (enqueue m q) \<le> queue_capacity"
  by (simp add: enqueue_def)

subsection \<open>End to end\<close>

fun pair_of :: "notify_kind \<Rightarrow> string" where
  "pair_of NotifyReady = ''READY=1''"
| "pair_of NotifyWatchdog = ''WATCHDOG=1''"
| "pair_of NotifyStopping = ''STOPPING=1''"

lemma line_kind_pair: "line_kind (pair_of k) = Some k"
  by (cases k) (simp_all add: line_kind_def trim_right_byte_def cut_on_def)

lemma pair_of_free: "CHR 0x0A \<notin> set (pair_of k)" "CHR 0x0D \<notin> set (pair_of k)"
  by (cases k; simp)+

lemma map_filter_line_kind:
  "List.map_filter line_kind (map pair_of ks) = ks"
  by (induction ks) (simp_all add: line_kind_pair)

text \<open>
  Whatever list of notifications the worker's client accepts for sending, the
  supervisor's parser reads back exactly those of its pairs it knows, in order; for the
  three v1.0 keys that is the identity.
\<close>
theorem notify_roundtrip:
  assumes "ks \<noteq> []"
  shows "\<exists>frame. send True (map pair_of ks) = Inr frame
    \<and> kinds (parse_notify_frame frame) = ks"
proof -
  have n: "List.find (\<lambda>p. CHR 0x0A \<in> set p \<or> CHR 0x0D \<in> set p) (map pair_of ks) = None"
    using pair_of_free by (auto simp: find_None_iff)
  have "split_on (CHR 0x0A) (join_with [CHR 0x0A] (map pair_of ks)) = map pair_of ks"
    using assms pair_of_free by (intro split_on_join) auto
  with n show ?thesis by (simp add: send_def parse_notify_frame_def map_filter_line_kind)
qed

lemma notify_roundtrip_witness:
  "\<exists>frame. send True (map pair_of [NotifyReady, NotifyWatchdog]) = Inr frame
    \<and> kinds (parse_notify_frame frame) = [NotifyReady, NotifyWatchdog]"
  by (rule notify_roundtrip) simp

text \<open>
  Unknown keys and other values never surface: a kind in the parsed message comes from a
  line that is one of the three pairs, up to trailing carriage returns.
\<close>

lemma line_kind_SomeD:
  assumes "line_kind l = Some k"
  shows "trim_right_byte (CHR 0x0D) l = pair_of k"
proof -
  let ?t = "trim_right_byte (CHR 0x0D) l"
  from assms obtain a b where c: "cut_on (CHR ''='') ?t = Some (a, b)"
    by (auto simp: line_kind_def Let_def split: if_splits option.splits)
  then have m: "CHR ''='' \<in> set ?t" and a: "a = takeWhile (\<lambda>x. x \<noteq> CHR ''='') ?t"
    and b: "b = tl (dropWhile (\<lambda>x. x \<noteq> CHR ''='') ?t)"
    by (auto simp: cut_on_def split: if_splits)
  from m have ne: "dropWhile (\<lambda>x. x \<noteq> CHR ''='') ?t \<noteq> []" by auto
  have "hd (dropWhile (\<lambda>x. x \<noteq> CHR ''='') ?t) = CHR ''=''"
    using hd_dropWhile [OF ne] by blast
  with ne b have "dropWhile (\<lambda>x. x \<noteq> CHR ''='') ?t = CHR ''='' # b"
    by (metis list.collapse)
  with a have t: "?t = a @ CHR ''='' # b" by (metis takeWhile_dropWhile_id)
  have "(a = ''READY'' \<and> b = ''1'' \<and> k = NotifyReady)
      \<or> (a = ''WATCHDOG'' \<and> b = ''1'' \<and> k = NotifyWatchdog)
      \<or> (a = ''STOPPING'' \<and> b = ''1'' \<and> k = NotifyStopping)"
    using assms c by (auto simp: line_kind_def Let_def split: if_splits)
  with t show ?thesis by auto
qed

subsection \<open>Worker: heartbeat cadence\<close>

text \<open>An environment variable is the string \<^verbatim>\<open>os.Getenv\<close> returns: empty when unset.\<close>

definition watchdog_interval :: "string \<Rightarrow> duration option" where
  "watchdog_interval txt =
     (if txt = [] then None
      else case parse_int txt of
        None \<Rightarrow> None
      | Some usec \<Rightarrow>
          if usec \<le> 0 then None
          else (let full = wrap64 (usec * 1000); i = full sdiv 3
                in Some (if i < seconds 1 then seconds 1 else i)))"

definition watchdog_pid_matches :: "string \<Rightarrow> int \<Rightarrow> bool" where
  "watchdog_pid_matches txt self =
     (if txt = [] then True else case parse_int txt of None \<Rightarrow> False | Some pid \<Rightarrow> pid = self)"

lemma cadence:
  assumes "seconds 1 \<le> d" and "in_int64 d"
  shows "\<exists>i. watchdog_interval (show_int (d sdiv 1000)) = Some i \<and> seconds 1 \<le> i \<and> i \<le> d
    \<and> (seconds 3 \<le> d \<longrightarrow> 3 * i \<le> d)"
proof -
  let ?u = "d div 1000"
  have u: "d sdiv 1000 = ?u" using assms(1) by (simp add: sdiv_nonneg)
  have lo: "seconds 1 \<le> ?u * 1000 + 999" "?u * 1000 \<le> d" "0 < ?u" using assms(1) by auto
  have r: "in_int64 (?u * 1000)" "in_int64 ?u" using lo assms(2) by (auto simp: in_int64_def)
  then have w: "wrap64 (?u * 1000) sdiv 3 = ?u * 1000 div 3" using lo by (simp add: sdiv_nonneg)
  have p: "parse_int (show_int ?u) = Some ?u" by (rule parse_show_int [OF r(2)])
  have ne: "show_int ?u \<noteq> []" by (simp add: show_int_def magnitude_def Let_def)
  have three: "seconds 1 \<le> ?u * 1000 div 3" if "seconds 3 \<le> d"
  proof -
    have "seconds 3 div 1000 \<le> ?u" by (rule zdiv_mono1 [OF that]) simp
    then have "seconds 3 \<le> ?u * 1000" by simp
    then have "seconds 3 div 3 \<le> ?u * 1000 div 3" by (rule zdiv_mono1) simp
    then show ?thesis by simp
  qed
  have "3 * (?u * 1000 div 3) \<le> d" using lo(2) by auto
  with lo(3) three assms(1) ne show ?thesis
    unfolding u watchdog_interval_def Let_def by (auto simp: w p)
qed

end
