(* ===== verification/FileSys.thy ===== *)
theory FileSys
  imports Json
begin

section \<open>The file system of the install root\<close>

text \<open>
  The calls of package \<^verbatim>\<open>os\<close> the sources make, on a map from cleaned paths to nodes.
  Directories exist where \<^verbatim>\<open>MkdirAll\<close> made them; a call does not check that the parent
  of its path exists. Every call consumes one entry of \<open>faults\<close>: \<open>True\<close> makes it fail with an
  I/O error and no effect, so a statement for all fault lists covers every pattern of
  failing system calls. An empty list means that nothing fails.
\<close>

datatype content = Text string | Doc json  \<comment> \<open>text that is not a JSON document, or one that is\<close>

datatype node = Dir | File content | Link string

datatype os_error = NotExist | Exist | InvalidOp | IOFault

record fsys =
  nodes :: "string \<rightharpoonup> node"
  faults :: "bool list"

type_synonym 'a os_result = "(os_error + 'a) \<times> fsys"

named_theorems os_ops \<open>unfolding of the operations of package os\<close>

definition faulty :: "fsys \<Rightarrow> bool \<times> fsys" where
  "faulty f = (case faults f of [] \<Rightarrow> (False, f) | b # bs \<Rightarrow> (b, f\<lparr>faults := bs\<rparr>))"

definition guarded :: "(fsys \<Rightarrow> 'a os_result) \<Rightarrow> fsys \<Rightarrow> 'a os_result" where
  "guarded op f = (let (bad, f') = faulty f in if bad then (Inl IOFault, f') else op f')"

definition put_node :: "string \<Rightarrow> node option \<Rightarrow> fsys \<Rightarrow> fsys" where
  "put_node p n f = f\<lparr>nodes := (nodes f)(p := n)\<rparr>"

definition os_readlink :: "string \<Rightarrow> fsys \<Rightarrow> string os_result" where
  "os_readlink p = guarded (\<lambda>f. case nodes f p of
     None \<Rightarrow> (Inl NotExist, f) | Some (Link t) \<Rightarrow> (Inr t, f) | Some _ \<Rightarrow> (Inl InvalidOp, f))"

definition os_remove :: "string \<Rightarrow> fsys \<Rightarrow> unit os_result" where
  "os_remove p = guarded (\<lambda>f. case nodes f p of
     None \<Rightarrow> (Inl NotExist, f) | Some Dir \<Rightarrow> (Inl InvalidOp, f)
   | Some _ \<Rightarrow> (Inr (), put_node p None f))"

definition os_symlink :: "string \<Rightarrow> string \<Rightarrow> fsys \<Rightarrow> unit os_result" where
  "os_symlink target p = guarded (\<lambda>f. case nodes f p of
     None \<Rightarrow> (Inr (), put_node p (Some (Link target)) f) | Some _ \<Rightarrow> (Inl Exist, f))"

definition below :: "string \<Rightarrow> string \<Rightarrow> bool" where
  "below d q \<longleftrightarrow> prefix (d @ ''/'') q"

definition move_tree :: "string \<Rightarrow> string \<Rightarrow> (string \<rightharpoonup> node) \<Rightarrow> string \<rightharpoonup> node" where
  "move_tree old new m q =
     (if q = new then m old
      else if below new q then m (old @ drop (length new) q)
      else if q = old \<or> below old q then None else m q)"

definition os_rename :: "string \<Rightarrow> string \<Rightarrow> fsys \<Rightarrow> unit os_result" where
  "os_rename old new = guarded (\<lambda>f. case nodes f old of
     None \<Rightarrow> (Inl NotExist, f)
   | Some Dir \<Rightarrow> (if nodes f new = None then (Inr (), f\<lparr>nodes := move_tree old new (nodes f)\<rparr>)
                 else (Inl Exist, f))
   | Some n \<Rightarrow> (if nodes f new = Some Dir then (Inl Exist, f)
               else if old = new then (Inr (), f)
               else (Inr (), put_node old None (put_node new (Some n) f))))"

definition os_read_file :: "string \<Rightarrow> fsys \<Rightarrow> content os_result" where
  "os_read_file p = guarded (\<lambda>f. case nodes f p of
     None \<Rightarrow> (Inl NotExist, f) | Some (File c) \<Rightarrow> (Inr c, f) | Some _ \<Rightarrow> (Inl InvalidOp, f))"

definition os_write_file :: "string \<Rightarrow> content \<Rightarrow> fsys \<Rightarrow> unit os_result" where
  "os_write_file p c = guarded (\<lambda>f. case nodes f p of
     Some Dir \<Rightarrow> (Inl InvalidOp, f) | _ \<Rightarrow> (Inr (), put_node p (Some (File c)) f))"

definition os_create_excl :: "string \<Rightarrow> fsys \<Rightarrow> unit os_result" where
  "os_create_excl p = guarded (\<lambda>f. case nodes f p of
     None \<Rightarrow> (Inr (), put_node p (Some (File (Text []))) f) | Some _ \<Rightarrow> (Inl Exist, f))"

definition os_mkdir_all :: "string \<Rightarrow> fsys \<Rightarrow> unit os_result" where
  "os_mkdir_all p = guarded (\<lambda>f. case nodes f p of
     None \<Rightarrow> (Inr (), put_node p (Some Dir) f) | Some Dir \<Rightarrow> (Inr (), f)
   | Some _ \<Rightarrow> (Inl InvalidOp, f))"

definition os_remove_all :: "string \<Rightarrow> fsys \<Rightarrow> unit os_result" where
  "os_remove_all p = guarded (\<lambda>f.
     (Inr (), f\<lparr>nodes := (\<lambda>q. if q = p \<or> below p q then None else nodes f q)\<rparr>))"

definition os_sync :: "fsys \<Rightarrow> unit os_result" where
  "os_sync = guarded (\<lambda>f. (Inr (), f))"

definition os_close :: "fsys \<Rightarrow> unit os_result" where
  "os_close = guarded (\<lambda>f. (Inr (), f))"

lemma nodes_put [simp]: "nodes (put_node p n f) = (nodes f)(p := n)"
  by (simp add: put_node_def)

lemma faults_put [simp]: "faults (put_node p n f) = faults f"
  by (simp add: put_node_def)

lemma guarded_clean [simp]: "faults f = [] \<Longrightarrow> guarded op f = op f"
  by (simp add: guarded_def faulty_def)

lemma guarded_cases:
  obtains f' where "guarded op f = (Inl IOFault, f')" "nodes f' = nodes f"
  | f' where "guarded op f = op f'" "nodes f' = nodes f"
proof (cases "fst (faulty f)")
  case True
  show thesis
    by (rule that(1) [of "snd (faulty f)"])
      (use True in \<open>auto simp: guarded_def faulty_def split_def split: list.splits\<close>)
next
  case False
  show thesis
    by (rule that(2) [of "snd (faulty f)"])
      (use False in \<open>auto simp: guarded_def faulty_def split_def split: list.splits\<close>)
qed

text \<open>
  The effect of each call on the map, whatever fails: the shape in which proofs about all
  fault lists use it.
\<close>

lemma os_readlink_E:
  obtains f' r where "os_readlink p f = (r, f')" "nodes f' = nodes f"
    "\<And>t. r = Inr t \<Longrightarrow> nodes f p = Some (Link t)"
  by (rule guarded_cases [of "\<lambda>f. case nodes f p of None \<Rightarrow> (Inl NotExist, f)
       | Some (Link t) \<Rightarrow> (Inr t, f) | Some _ \<Rightarrow> (Inl InvalidOp, f)" f])
    (auto simp: os_readlink_def split: option.splits node.splits)

lemma os_rename_file_E:
  assumes "nodes f old = Some n" "n \<noteq> Dir" "old \<noteq> new"
  obtains f' e where "os_rename old new f = (Inl e, f')" "nodes f' = nodes f"
  | f' where "os_rename old new f = (Inr (), f')" "nodes f' = (nodes f)(new \<mapsto> n, old := None)"
  by (rule guarded_cases [of "\<lambda>f. case nodes f old of None \<Rightarrow> (Inl NotExist, f)
       | Some Dir \<Rightarrow> (if nodes f new = None then (Inr (), f\<lparr>nodes := move_tree old new (nodes f)\<rparr>)
            else (Inl Exist, f))
       | Some n \<Rightarrow> (if nodes f new = Some Dir then (Inl Exist, f)
            else if old = new then (Inr (), f)
            else (Inr (), put_node old None (put_node new (Some n) f)))" f])
    (use assms in \<open>auto simp: os_rename_def split: node.splits if_splits\<close>)

lemma os_remove_E:
  obtains f' e where "os_remove p f = (Inl e, f')" "nodes f' = nodes f"
    "e = NotExist \<Longrightarrow> nodes f p = None"
  | f' where "os_remove p f = (Inr (), f')" "nodes f' = (nodes f)(p := None)"
  by (rule guarded_cases [of "\<lambda>f. case nodes f p of None \<Rightarrow> (Inl NotExist, f)
       | Some Dir \<Rightarrow> (Inl InvalidOp, f) | Some _ \<Rightarrow> (Inr (), put_node p None f)" f])
    (auto simp: os_remove_def split: option.splits node.splits)

lemma os_symlink_E:
  obtains f' e where "os_symlink t p f = (Inl e, f')" "nodes f' = nodes f"
  | f' where "os_symlink t p f = (Inr (), f')" "nodes f' = (nodes f)(p \<mapsto> Link t)"
    "nodes f p = None"
  by (rule guarded_cases [of "\<lambda>f. case nodes f p of
       None \<Rightarrow> (Inr (), put_node p (Some (Link t)) f) | Some _ \<Rightarrow> (Inl Exist, f)" f])
    (auto simp: os_symlink_def split: option.splits)

lemma os_mkdir_all_E:
  obtains f' e where "os_mkdir_all p f = (Inl e, f')" "nodes f' = nodes f"
  | f' where "os_mkdir_all p f = (Inr (), f')" "nodes f' = (nodes f)(p \<mapsto> Dir)"
  by (rule guarded_cases [of "\<lambda>f. case nodes f p of
       None \<Rightarrow> (Inr (), put_node p (Some Dir) f) | Some Dir \<Rightarrow> (Inr (), f)
       | Some _ \<Rightarrow> (Inl InvalidOp, f)" f])
    (auto simp: os_mkdir_all_def fun_upd_idem split: option.splits node.splits)

lemma os_create_excl_E:
  obtains f' e where "os_create_excl p f = (Inl e, f')" "nodes f' = nodes f"
  | f' where "os_create_excl p f = (Inr (), f')" "nodes f' = (nodes f)(p \<mapsto> File (Text []))"
  by (rule guarded_cases [of "\<lambda>f. case nodes f p of
       None \<Rightarrow> (Inr (), put_node p (Some (File (Text []))) f) | Some _ \<Rightarrow> (Inl Exist, f)" f])
    (auto simp: os_create_excl_def split: option.splits)

lemma os_write_file_E:
  obtains f' e where "os_write_file p c f = (Inl e, f')" "nodes f' = nodes f"
  | f' where "os_write_file p c f = (Inr (), f')" "nodes f' = (nodes f)(p \<mapsto> File c)"
  by (rule guarded_cases [of "\<lambda>f. case nodes f p of
       Some Dir \<Rightarrow> (Inl InvalidOp, f) | _ \<Rightarrow> (Inr (), put_node p (Some (File c)) f)" f])
    (auto simp: os_write_file_def split: option.splits node.splits)

lemma os_noop_E:
  obtains f' r where "os_sync f = (r, f')" "nodes f' = nodes f"
  by (rule guarded_cases [of "\<lambda>f. (Inr (), f)" f]) (auto simp: os_sync_def)

lemma os_close_E:
  obtains f' r where "os_close f = (r, f')" "nodes f' = nodes f"
  by (rule guarded_cases [of "\<lambda>f. (Inr (), f)" f]) (auto simp: os_close_def)

lemma os_read_file_E:
  obtains f' r where "os_read_file p f = (r, f')" "nodes f' = nodes f"
    "\<And>c. r = Inr c \<Longrightarrow> nodes f p = Some (File c)"
    "r = Inl NotExist \<Longrightarrow> nodes f p = None"
  by (rule guarded_cases [of "\<lambda>f. case nodes f p of None \<Rightarrow> (Inl NotExist, f)
       | Some (File c) \<Rightarrow> (Inr c, f) | Some _ \<Rightarrow> (Inl InvalidOp, f)" f])
    (auto simp: os_read_file_def split: option.splits node.splits)

text \<open>
  Paths an operation does not name keep their node, and a file system without faults stays
  without faults.
\<close>

definition tree :: "string \<Rightarrow> string set" where
  "tree d = {q. q = d \<or> below d q}"

lemma guarded_nodes:
  assumes "\<And>f'. nodes f' = nodes f \<Longrightarrow> nodes (snd (op f')) q = nodes f q"
  shows "nodes (snd (guarded op f)) q = nodes f q"
  by (rule guarded_cases [of op f]) (use assms in auto)

lemma guarded_faults:
  assumes "faults f = []" "faults (snd (op f)) = []"
  shows "faults (snd (guarded op f)) = []"
  using assms by simp

lemma os_outside:
  "q \<noteq> p \<Longrightarrow> nodes (snd (os_remove p f)) q = nodes f q"
  "q \<noteq> p \<Longrightarrow> nodes (snd (os_write_file p c f)) q = nodes f q"
  "q \<noteq> p \<Longrightarrow> nodes (snd (os_mkdir_all p f)) q = nodes f q"
  "q \<notin> tree p \<Longrightarrow> nodes (snd (os_remove_all p f)) q = nodes f q"
  "q \<notin> tree p \<Longrightarrow> q \<notin> tree p' \<Longrightarrow> nodes (snd (os_rename p p' f)) q = nodes f q"
  unfolding os_remove_def os_write_file_def os_mkdir_all_def os_remove_all_def os_rename_def
  by (rule guarded_nodes; auto simp: tree_def move_tree_def split: option.splits node.splits)+

lemma os_close_nodes [simp]: "nodes (snd (os_close f)) = nodes f"
  by (rule os_close_E [of f]) simp

lemma os_clean:
  assumes "faults f = []"
  shows "faults (snd (os_remove p f)) = []" "faults (snd (os_write_file p c f)) = []"
    "faults (snd (os_mkdir_all p f)) = []" "faults (snd (os_remove_all p f)) = []"
    "faults (snd (os_rename p p' f)) = []" "faults (snd (os_close f)) = []"
  unfolding os_remove_def os_write_file_def os_mkdir_all_def os_remove_all_def os_rename_def os_close_def
  using assms by (auto split: option.splits node.splits)

lemmas os_defs = os_readlink_def os_remove_def os_symlink_def os_rename_def os_read_file_def
  os_write_file_def os_create_excl_def os_mkdir_all_def os_remove_all_def os_sync_def
  os_close_def

end
