(* ===== verification/Symlinks.thy ===== *)
theory Symlinks
  imports FileSys
begin

section \<open>The version links (internal/supervisor/symlinks.go, internal/selfupdate/rotate_unix.go)\<close>

text \<open>
  \<^verbatim>\<open><root>/current\<close> and \<^verbatim>\<open><root>/previous\<close> are symbolic links into
  \<^verbatim>\<open>versions/\<close>. \<open>swap_current_previous\<close> is the supervisor's three-rename rollback,
  \<open>rotate_symlinks\<close> the roll-forward of an install, \<open>resolve_worker_binary\<close> what the
  supervisor executes.
\<close>

definition current_link :: "string \<Rightarrow> string" where
  "current_link root = path_join [root, ''current'']"

definition previous_link :: "string \<Rightarrow> string" where
  "previous_link root = path_join [root, ''previous'']"

definition swap_tmp :: "string \<Rightarrow> string" where
  "swap_tmp root = path_join [root, ''.swap.tmp'']"

datatype swap_error = NoRollbackTarget | SwapRead os_error | SwapClear os_error
  | SwapStep1 os_error | SwapStep2 os_error | SwapStep3 os_error

definition swap_renames :: "string \<Rightarrow> fsys \<Rightarrow> swap_error option \<times> fsys" where
  \<comment> \<open>the pair of renames through the temporary name\<close>
  "swap_renames root f =
     (let cur = current_link root; prev = previous_link root; tmp = swap_tmp root
      in case os_rename cur tmp f of
           (Inl e, f) \<Rightarrow> (Some (SwapStep1 e), f)
         | (Inr _, f) \<Rightarrow>
        (case os_rename prev cur f of
           (Inl e, f) \<Rightarrow> (Some (SwapStep2 e), snd (os_rename tmp cur f))
         | (Inr _, f) \<Rightarrow>
        (case os_rename tmp prev f of
           (Inl e, f) \<Rightarrow> (Some (SwapStep3 e), f)
         | (Inr _, f) \<Rightarrow> (None, f))))"

definition swap_current_previous :: "string \<Rightarrow> fsys \<Rightarrow> swap_error option \<times> fsys" where
  "swap_current_previous root f =
     (if root = [] then (Some NoRollbackTarget, f)
      else case os_readlink (current_link root) f of
        (Inl e, f) \<Rightarrow> (Some (if e = NotExist then NoRollbackTarget else SwapRead e), f)
      | (Inr a, f) \<Rightarrow>
     (case os_readlink (previous_link root) f of
        (Inl e, f) \<Rightarrow> (Some (if e = NotExist then NoRollbackTarget else SwapRead e), f)
      | (Inr b, f) \<Rightarrow>
          if a = b then (Some NoRollbackTarget, f)
          else case os_remove (swap_tmp root) f of
            (Inl e, f) \<Rightarrow> (if e \<noteq> NotExist then (Some (SwapClear e), f) else swap_renames root f)
          | (Inr _, f) \<Rightarrow> swap_renames root f))"

definition resolve_worker_binary :: "string \<Rightarrow> string \<Rightarrow> fsys \<Rightarrow> string os_result" where
  "resolve_worker_binary root binary f =
     (case os_readlink (current_link root) f of
        (Inl e, f) \<Rightarrow> (Inl e, f)
      | (Inr target, f) \<Rightarrow>
          (let target = (if \<not> is_abs target then path_join [root, target] else target)
           in (Inr (path_join [target, binary]), f)))"

definition rotate_previous :: "string \<Rightarrow> string \<Rightarrow> fsys \<Rightarrow> (os_error + string \<times> string) \<times> fsys" where
  \<comment> \<open>the part of \<^verbatim>\<open>rotateSymlinks\<close> that promotes the old target: \<open>(before, previous)\<close>\<close>
  "rotate_previous root target f =
     (case os_readlink (current_link root) f of
        (Inl _, f) \<Rightarrow> (Inr ([], []), f)
      | (Inr existing, f) \<Rightarrow>
          if existing \<noteq> target then
            (case os_remove (previous_link root) f of
               (Inl e, f) \<Rightarrow>
                 (if e \<noteq> NotExist then (Inl e, f)
                  else case os_symlink existing (previous_link root) f of
                    (Inl e, f) \<Rightarrow> (Inl e, f) | (Inr _, f) \<Rightarrow> (Inr (existing, existing), f))
             | (Inr _, f) \<Rightarrow>
                 (case os_symlink existing (previous_link root) f of
                    (Inl e, f) \<Rightarrow> (Inl e, f) | (Inr _, f) \<Rightarrow> (Inr (existing, existing), f)))
          else
            (case os_readlink (previous_link root) f of
               (Inl _, f) \<Rightarrow> (Inr (existing, []), f) | (Inr p, f) \<Rightarrow> (Inr (existing, p), f)))"

definition rotate_symlinks ::
  "string \<Rightarrow> string \<Rightarrow> fsys \<Rightarrow> (os_error + string \<times> string \<times> string) \<times> fsys" where
  "rotate_symlinks root version f =
     (let target = path_join [''versions'', version]
      in case rotate_previous root target f of
           (Inl e, f) \<Rightarrow> (Inl e, f)
         | (Inr (before, previous), f) \<Rightarrow>
        (case os_remove (current_link root) f of
           (Inl e, f) \<Rightarrow>
             (if e \<noteq> NotExist then (Inl e, f)
              else case os_symlink target (current_link root) f of
                (Inl e, f) \<Rightarrow> (Inl e, f) | (Inr _, f) \<Rightarrow> (Inr (before, target, previous), f))
         | (Inr _, f) \<Rightarrow>
             (case os_symlink target (current_link root) f of
                (Inl e, f) \<Rightarrow> (Inl e, f) | (Inr _, f) \<Rightarrow> (Inr (before, target, previous), f))))"

subsection \<open>The three paths\<close>

lemma plain_link_names:
  "plain_name ''current''" "plain_name ''previous''" "plain_name ''.swap.tmp''"
  by (simp_all add: plain_name_def)

lemma link_paths_distinct:
  assumes "root \<noteq> []"
  shows "current_link root \<noteq> previous_link root" "current_link root \<noteq> swap_tmp root"
    "previous_link root \<noteq> swap_tmp root"
proof -
  have "path_join [root, m] \<noteq> path_join [root, n]" if "plain_name m" "plain_name n" "m \<noteq> n" for m n
    using path_join_inj [OF _ that(1,2) assms] that(3) by blast
  then show "current_link root \<noteq> previous_link root" "current_link root \<noteq> swap_tmp root"
    "previous_link root \<noteq> swap_tmp root"
    unfolding current_link_def previous_link_def swap_tmp_def
    using plain_link_names by auto
qed

definition link_at :: "fsys \<Rightarrow> string \<Rightarrow> string option" where
  "link_at f p = (case nodes f p of Some (Link t) \<Rightarrow> Some t | _ \<Rightarrow> None)"

definition slots :: "string \<Rightarrow> string set" where
  "slots root = {current_link root, previous_link root, swap_tmp root}"

definition same_elsewhere :: "string \<Rightarrow> fsys \<Rightarrow> fsys \<Rightarrow> bool" where
  "same_elsewhere root f g \<longleftrightarrow> (\<forall>q. q \<notin> slots root \<longrightarrow> nodes g q = nodes f q)"

subsection \<open>Rollback\<close>

text \<open>
  What the renames can leave behind, whatever fails: everything in place, a completed swap,
  the old current under the temporary name (step 2 and its undo failed), or the swap without
  its previous link (step 3 failed).
\<close>

lemma swap_renames_cases:
  assumes r: "swap_renames root f = (r, f')" and ne: "root \<noteq> []"
    and a: "nodes f (current_link root) = Some (Link a)"
    and b: "nodes f (previous_link root) = Some (Link b)"
    and t: "nodes f (swap_tmp root) = None"
  shows "(r \<noteq> None \<and> nodes f' = nodes f)
    \<or> (r = None \<and> nodes f' = (nodes f)(current_link root \<mapsto> Link b, previous_link root \<mapsto> Link a))
    \<or> ((\<exists>e. r = Some (SwapStep2 e))
        \<and> nodes f' = (nodes f)(swap_tmp root \<mapsto> Link a, current_link root := None))
    \<or> ((\<exists>e. r = Some (SwapStep3 e)) \<and> nodes f' = (nodes f)(current_link root \<mapsto> Link b,
        swap_tmp root \<mapsto> Link a, previous_link root := None))"
proof -
  note d = link_paths_distinct [OF ne]
  show ?thesis
  proof (rule os_rename_file_E [OF a, of "swap_tmp root"])
    fix f1 assume s1: "os_rename (current_link root) (swap_tmp root) f = (Inr (), f1)"
      "nodes f1 = (nodes f)(swap_tmp root \<mapsto> Link a, current_link root := None)"
    then have b1: "nodes f1 (previous_link root) = Some (Link b)"
      and a1: "nodes f1 (swap_tmp root) = Some (Link a)" using b d by auto
    show ?thesis
    proof (rule os_rename_file_E [OF b1, of "current_link root"])
      fix f2 e assume s2: "os_rename (previous_link root) (current_link root) f1 = (Inl e, f2)"
        "nodes f2 = nodes f1"
      with a1 have a2: "nodes f2 (swap_tmp root) = Some (Link a)" by simp
      show ?thesis
      proof (rule os_rename_file_E [OF a2, of "current_link root"])
        fix f3 assume "os_rename (swap_tmp root) (current_link root) f2 = (Inr (), f3)"
          "nodes f3 = (nodes f2)(current_link root \<mapsto> Link a, swap_tmp root := None)"
        moreover have "(nodes f2)(current_link root \<mapsto> Link a, swap_tmp root := None) = nodes f"
          using s1 s2 d a t by auto
        ultimately show ?thesis using r s1 s2 by (auto simp: swap_renames_def Let_def)
      qed (use d r s1 s2 in \<open>auto simp: swap_renames_def Let_def\<close>)
    next
      fix f2 assume s2: "os_rename (previous_link root) (current_link root) f1 = (Inr (), f2)"
        "nodes f2 = (nodes f1)(current_link root \<mapsto> Link b, previous_link root := None)"
      with a1 d have a2: "nodes f2 (swap_tmp root) = Some (Link a)" by auto
      show ?thesis
      proof (rule os_rename_file_E [OF a2, of "previous_link root"])
        fix f3 e assume "os_rename (swap_tmp root) (previous_link root) f2 = (Inl e, f3)"
          "nodes f3 = nodes f2"
        moreover have "nodes f2 = (nodes f)(current_link root \<mapsto> Link b,
            swap_tmp root \<mapsto> Link a, previous_link root := None)"
          using s1 s2 d by auto
        ultimately show ?thesis using r s1 s2 by (auto simp: swap_renames_def Let_def)
      next
        fix f3 assume "os_rename (swap_tmp root) (previous_link root) f2 = (Inr (), f3)"
          "nodes f3 = (nodes f2)(previous_link root \<mapsto> Link a, swap_tmp root := None)"
        moreover have "(nodes f2)(previous_link root \<mapsto> Link a, swap_tmp root := None)
            = (nodes f)(current_link root \<mapsto> Link b, previous_link root \<mapsto> Link a)"
          using s1 s2 d t by auto
        ultimately show ?thesis using r s1 s2 by (auto simp: swap_renames_def Let_def)
      qed (use d in auto)
    qed (use d in auto)
  qed (use d r in \<open>auto simp: swap_renames_def Let_def\<close>)
qed

lemma swap_cases:
  assumes r: "swap_current_previous root f = (r, f')" and nd: "nodes f (swap_tmp root) \<noteq> Some Dir"
  obtains "r \<noteq> None" "nodes f' = nodes f"
  | a b g where "root \<noteq> []" "nodes f (current_link root) = Some (Link a)"
    "nodes f (previous_link root) = Some (Link b)" "a \<noteq> b"
    "nodes g = (nodes f)(swap_tmp root := None)" "swap_renames root g = (r, f')"
proof (cases "root = []")
  case False
  obtain f1 r1 where c: "os_readlink (current_link root) f = (r1, f1)" "nodes f1 = nodes f"
    "\<And>t. r1 = Inr t \<Longrightarrow> nodes f (current_link root) = Some (Link t)" by (rule os_readlink_E) blast
  obtain f2 r2 where p: "os_readlink (previous_link root) f1 = (r2, f2)" "nodes f2 = nodes f1"
    "\<And>t. r2 = Inr t \<Longrightarrow> nodes f1 (previous_link root) = Some (Link t)" by (rule os_readlink_E) blast
  show thesis
  proof (cases "\<exists>a b. r1 = Inr a \<and> r2 = Inr b \<and> a \<noteq> b")
    case True
    then obtain a b where ab: "r1 = Inr a" "r2 = Inr b" "a \<noteq> b" by blast
    show thesis
    proof (rule os_remove_E [of "swap_tmp root" f2])
      fix f3 e assume m: "os_remove (swap_tmp root) f2 = (Inl e, f3)" "nodes f3 = nodes f2"
        "e = NotExist \<Longrightarrow> nodes f2 (swap_tmp root) = None"
      show thesis
      proof (cases "e = NotExist")
        case True
        have "nodes f3 = (nodes f)(swap_tmp root := None)"
          using m(2) m(3) [OF True] p(2) c(2) by (simp add: fun_upd_idem)
        moreover have "swap_renames root f3 = (r, f')"
          using r False c p ab m True by (simp add: swap_current_previous_def)
        ultimately show thesis using that(2) False c p ab by auto
      next
        case f: False
        with r False c p ab m show thesis
          by (intro that(1)) (auto simp: swap_current_previous_def)
      qed
    next
      fix f3 assume m: "os_remove (swap_tmp root) f2 = (Inr (), f3)"
        "nodes f3 = (nodes f2)(swap_tmp root := None)"
      moreover have "swap_renames root f3 = (r, f')"
        using r False c p ab m by (simp add: swap_current_previous_def)
      ultimately show thesis using that(2) False c p ab by auto
    qed
  next
    case f: False
    with r False c p show thesis
      by (intro that(1)) (auto simp: swap_current_previous_def split: sum.splits if_splits)
  qed
qed (use r that(1) in \<open>auto simp: swap_current_previous_def\<close>)

text \<open>
  C26: the rollback swap never loses a version. Under every pattern of failing system calls
  the targets of the two links are afterwards both still named by one of current, previous
  and the temporary name, success means that the two links have exchanged their targets, and
  no path outside these three changes.
\<close>
theorem swap_never_loses:
  assumes "swap_current_previous root f = (r, f')" and "root \<noteq> []"
    and "nodes f (current_link root) = Some (Link a)"
    and "nodes f (previous_link root) = Some (Link b)"
    and "nodes f (swap_tmp root) \<noteq> Some Dir"
  shows "same_elsewhere root f f' \<and>
    (\<exists>p \<in> slots root. link_at f' p = Some a) \<and> (\<exists>p \<in> slots root. link_at f' p = Some b) \<and>
    (r = None \<longrightarrow> link_at f' (current_link root) = Some b \<and> link_at f' (previous_link root) = Some a)"
  using assms(1,5)
proof (rule swap_cases)
  note d = link_paths_distinct [OF assms(2)]
  fix x y g
  assume g: "nodes g = (nodes f)(swap_tmp root := None)" "swap_renames root g = (r, f')"
  have "nodes g (current_link root) = Some (Link a)" "nodes g (previous_link root) = Some (Link b)"
    "nodes g (swap_tmp root) = None" using g(1) assms(3,4) d by auto
  from swap_renames_cases [OF g(2) assms(2) this] show ?thesis
    using d g(1) assms(3,4)
    by (elim disjE conjE exE) (auto simp: same_elsewhere_def slots_def link_at_def)
qed (use assms(3,4) in \<open>auto simp: same_elsewhere_def slots_def link_at_def\<close>)

definition links_fs :: "bool list \<Rightarrow> fsys" where
  "links_fs bs = \<lparr>nodes = [''/r/current'' \<mapsto> Link ''versions/v2'', ''/r/previous'' \<mapsto> Link ''versions/v1''],
     faults = bs\<rparr>"

lemma demo_links: "current_link ''/r'' = ''/r/current''" "previous_link ''/r'' = ''/r/previous''"
  "swap_tmp ''/r'' = ''/r/.swap.tmp''"
  by (code_simp)+

lemma swap_never_loses_witness:
  "\<exists>f'. swap_current_previous ''/r'' (links_fs [False, False, False, False, False, True])
      = (Some (SwapStep3 IOFault), f')
    \<and> (\<exists>p \<in> slots ''/r''. link_at f' p = Some ''versions/v2'')"
proof -
  obtain f' where s: "swap_current_previous ''/r'' (links_fs [False, False, False, False, False, True])
      = (Some (SwapStep3 IOFault), f')"
    by (simp add: swap_current_previous_def swap_renames_def demo_links os_defs guarded_def
        faulty_def links_fs_def Let_def)
  from swap_never_loses [OF s, of "''versions/v2''" "''versions/v1''"] s show ?thesis
    by (auto simp: links_fs_def demo_links)
qed

lemma swap_clean:
  assumes "faults f = []" "root \<noteq> []" "nodes f (current_link root) = Some (Link a)"
    "nodes f (previous_link root) = Some (Link b)" "a \<noteq> b" "nodes f (swap_tmp root) \<noteq> Some Dir"
  shows "\<exists>f'. swap_current_previous root f = (None, f') \<and> faults f' = []
    \<and> nodes f' = (nodes f)(swap_tmp root := None, current_link root \<mapsto> Link b, previous_link root \<mapsto> Link a)"
  using assms link_paths_distinct [OF assms(2)]
  by (auto simp: swap_current_previous_def swap_renames_def os_defs Let_def fun_upd_idem fun_eq_iff
      split: option.splits node.splits)

subsection \<open>Roll-forward, and back\<close>

lemma rotate_clean:
  assumes "faults f = []" "root \<noteq> []" "nodes f (current_link root) = Some (Link a)"
    "a \<noteq> path_join [''versions'', v]" "nodes f (previous_link root) \<noteq> Some Dir"
  shows "\<exists>f'. rotate_symlinks root v f = (Inr (a, path_join [''versions'', v], a), f')
    \<and> faults f' = [] \<and> nodes f' = (nodes f)(previous_link root \<mapsto> Link a,
        current_link root \<mapsto> Link (path_join [''versions'', v]))"
  using assms link_paths_distinct [OF assms(2)]
  by (auto simp: rotate_symlinks_def rotate_previous_def os_defs Let_def fun_eq_iff
      split: option.splits node.splits)

text \<open>
  An install can be taken back. Rotating the links to a new version and then rolling
  back makes the version that ran before current again and leaves the new one as previous,
  with nothing changed outside the three link paths.
\<close>
theorem rotate_then_rollback:
  assumes "faults f = []" and "root \<noteq> []" and "nodes f (current_link root) = Some (Link a)"
    and "a \<noteq> path_join [''versions'', v]" and "nodes f (previous_link root) \<noteq> Some Dir"
    and "nodes f (swap_tmp root) \<noteq> Some Dir"
  shows "\<exists>f1 f2. rotate_symlinks root v f = (Inr (a, path_join [''versions'', v], a), f1)
    \<and> swap_current_previous root f1 = (None, f2)
    \<and> link_at f2 (current_link root) = Some a
    \<and> link_at f2 (previous_link root) = Some (path_join [''versions'', v])
    \<and> same_elsewhere root f f2"
proof -
  note d = link_paths_distinct [OF assms(2)]
  obtain f1 where r: "rotate_symlinks root v f = (Inr (a, path_join [''versions'', v], a), f1)"
    "faults f1 = []" "nodes f1 = (nodes f)(previous_link root \<mapsto> Link a,
        current_link root \<mapsto> Link (path_join [''versions'', v]))"
    using rotate_clean [OF assms(1-5)] by blast
  from swap_clean [OF r(2) assms(2), of "path_join [''versions'', v]" a] r(3) d assms(4,6)
  obtain f2 where "swap_current_previous root f1 = (None, f2)"
    "nodes f2 = (nodes f1)(swap_tmp root := None, current_link root \<mapsto> Link a,
       previous_link root \<mapsto> Link (path_join [''versions'', v]))" by auto
  with r d show ?thesis
    by (intro exI [of _ f1] exI [of _ f2]) (auto simp: link_at_def same_elsewhere_def slots_def)
qed

lemma demo_target: "path_join [''versions'', ''v3''] = ''versions/v3''"
  by code_simp

lemma rotate_then_rollback_witness:
  "\<exists>f1 f2. rotate_symlinks ''/r'' ''v3'' (links_fs []) =
      (Inr (''versions/v2'', ''versions/v3'', ''versions/v2''), f1)
    \<and> swap_current_previous ''/r'' f1 = (None, f2)
    \<and> link_at f2 ''/r/current'' = Some ''versions/v2''"
  using rotate_then_rollback [of "links_fs []" "''/r''" "''versions/v2''" "''v3''"]
  by (auto simp: links_fs_def demo_links demo_target)

end
