(* ===== verification/SupConfig.thy ===== *)
theory SupConfig
  imports Backoff HealthGate Symlinks Notify
begin

section \<open>The supervisor's configuration (internal/supervisor/config.go)\<close>

text \<open>
  \<open>config\<close> is \<^verbatim>\<open>Config\<close> without its logger and output writers. \<^verbatim>\<open>ResolveWorker\<close> is a function
  on the file system; the one \<open>with_defaults\<close> installs reads the current link.
\<close>

type_synonym resolver = "fsys \<Rightarrow> (os_error + string \<times> string) \<times> fsys"

record config =
  c_root :: string
  c_binary :: string
  c_args :: "string list"
  c_env :: "string list"
  c_start_timeout :: duration
  c_watchdog :: duration
  c_stop_grace :: duration
  c_backoff :: policy
  c_gate_window :: duration
  c_gate_stable :: duration
  c_socket :: string
  c_history :: string
  c_blacklist :: string
  c_run_dir :: string
  c_resolve :: "resolver option"

datatype config_error = NeedsRootOrResolver | NeedsPaths

definition default_start_timeout :: duration where "default_start_timeout = seconds 30"
definition default_watchdog_interval :: duration where "default_watchdog_interval = seconds 30"
definition default_stop_grace :: duration where "default_stop_grace = seconds 10"

definition resolve_current :: "string \<Rightarrow> string \<Rightarrow> resolver" where
  \<comment> \<open>the closure of \<^verbatim>\<open>withDefaults\<close>: the error of the second read is dropped, which leaves
    the empty target, and \<^verbatim>\<open>filepath.Base("")\<close> is \<^verbatim>\<open>"."\<close>\<close>
  "resolve_current root name f =
     (case resolve_worker_binary root name f of
        (Inl e, f) \<Rightarrow> (Inl e, f)
      | (Inr path, f) \<Rightarrow>
          (case os_readlink (current_link root) f of
             (Inl _, f) \<Rightarrow> (Inr (path, base_name []), f)
           | (Inr target, f) \<Rightarrow> (Inr (path, base_name target), f)))"

definition default_scalars :: "config \<Rightarrow> config" where
  "default_scalars c = c
     \<lparr>c_binary := (if c_binary c = [] then ''clawmast'' else c_binary c),
      c_start_timeout := (if c_start_timeout c = 0 then default_start_timeout else c_start_timeout c),
      c_watchdog := (if c_watchdog c = 0 then default_watchdog_interval else c_watchdog c),
      c_stop_grace := (if c_stop_grace c = 0 then default_stop_grace else c_stop_grace c),
      c_backoff := (if base (c_backoff c) = 0 then new_backoff else c_backoff c),
      c_gate_window := (if c_gate_window c = 0 then default_gate_window else c_gate_window c),
      c_gate_stable := (if c_gate_stable c = 0 then default_gate_stable_for else c_gate_stable c)\<rparr>"

definition default_paths :: "config \<Rightarrow> config" where
  "default_paths c =
     (if c_root c = [] then c
      else c\<lparr>c_socket := (if c_socket c = [] then path_join [c_root c, ''run'', ''notify.sock''] else c_socket c),
             c_history := (if c_history c = [] then path_join [c_root c, ''state'', ''history.json''] else c_history c),
             c_blacklist := (if c_blacklist c = [] then path_join [c_root c, ''state'', ''blacklist.json''] else c_blacklist c),
             c_run_dir := (if c_run_dir c = [] then path_join [c_root c, ''run''] else c_run_dir c)\<rparr>)"

definition with_defaults :: "config \<Rightarrow> config_error + config" where
  "with_defaults c =
     (let out = default_scalars c
      in if c_resolve out = None \<and> c_root out = [] then Inl NeedsRootOrResolver
         else let out = default_paths out
              in if c_socket out = [] \<or> c_history out = [] \<or> c_run_dir out = [] then Inl NeedsPaths
                 else Inr (if c_resolve out = None
                           then out\<lparr>c_resolve := Some (resolve_current (c_root out) (c_binary out))\<rparr>
                           else out))"

definition resolve :: "config \<Rightarrow> resolver" where
  \<comment> \<open>the call of \<^verbatim>\<open>ResolveWorker\<close> after \<open>with_defaults\<close>, which never leaves it nil\<close>
  "resolve c = (case c_resolve c of Some r \<Rightarrow> r | None \<Rightarrow> resolve_current (c_root c) (c_binary c))"

subsection \<open>What a resolved configuration guarantees\<close>

definition resolved :: "config \<Rightarrow> bool" where
  "resolved c \<longleftrightarrow> c_binary c \<noteq> [] \<and> c_start_timeout c \<noteq> 0 \<and> c_watchdog c \<noteq> 0 \<and> c_stop_grace c \<noteq> 0
     \<and> base (c_backoff c) \<noteq> 0 \<and> c_gate_window c \<noteq> 0 \<and> c_gate_stable c \<noteq> 0
     \<and> c_socket c \<noteq> [] \<and> c_history c \<noteq> [] \<and> c_run_dir c \<noteq> [] \<and> c_resolve c \<noteq> None
     \<and> (c_root c \<noteq> [] \<longrightarrow> c_blacklist c \<noteq> [])"

lemma path_join_root_ne: "root \<noteq> [] \<Longrightarrow> path_join (root # es) \<noteq> []"
proof -
  assume "root \<noteq> []"
  moreover have "clean p \<noteq> []" for p by (auto simp: clean_def Let_def)
  ultimately show ?thesis by (auto simp: path_join_def)
qed

lemma base_new_backoff: "base new_backoff \<noteq> 0"
  by (simp add: new_backoff_def)

lemmas default_durations = default_start_timeout_def default_watchdog_interval_def
  default_stop_grace_def default_gate_window_def default_gate_stable_for_def

lemma default_scalars_set:
  "c_binary (default_scalars c) \<noteq> []" "c_start_timeout (default_scalars c) \<noteq> 0"
  "c_watchdog (default_scalars c) \<noteq> 0" "c_stop_grace (default_scalars c) \<noteq> 0"
  "base (c_backoff (default_scalars c)) \<noteq> 0" "c_gate_window (default_scalars c) \<noteq> 0"
  "c_gate_stable (default_scalars c) \<noteq> 0"
  by (simp_all add: default_scalars_def default_durations base_new_backoff)

lemma default_paths_frame [frame]:
  "c_binary (default_paths c) = c_binary c" "c_start_timeout (default_paths c) = c_start_timeout c"
  "c_watchdog (default_paths c) = c_watchdog c" "c_stop_grace (default_paths c) = c_stop_grace c"
  "c_backoff (default_paths c) = c_backoff c" "c_gate_window (default_paths c) = c_gate_window c"
  "c_gate_stable (default_paths c) = c_gate_stable c" "c_root (default_paths c) = c_root c"
  "c_resolve (default_paths c) = c_resolve c"
  by (simp_all add: default_paths_def)

lemma default_paths_set: "c_root c \<noteq> [] \<Longrightarrow> c_blacklist (default_paths c) \<noteq> []"
  by (simp add: default_paths_def path_join_root_ne)


subsection \<open>The environment of a worker\<close>

definition worker_env :: "config \<Rightarrow> string \<Rightarrow> string list \<Rightarrow> string list" where
  \<comment> \<open>the environment \<^verbatim>\<open>spawn\<close> builds; the last argument is \<^verbatim>\<open>os.Environ()\<close>\<close>
  "worker_env c version environ =
     environ @ c_env c @
     [''NOTIFY_SOCKET='' @ c_socket c,
      ''WATCHDOG_USEC='' @ show_int (c_watchdog c sdiv 1000),
      ''CLAWMAST_VERSION_LABEL='' @ version]"

fun env_lookup :: "string list \<Rightarrow> string \<Rightarrow> string option" where
  \<comment> \<open>what \<^verbatim>\<open>os.Getenv\<close> of the child finds: package \<^verbatim>\<open>os/exec\<close> keeps the last value of a
    duplicated key\<close>
  "env_lookup [] k = None"
| "env_lookup (e # es) k =
     (case env_lookup es k of
        Some v \<Rightarrow> Some v
      | None \<Rightarrow> (case cut_on (CHR ''='') e of
                  Some (k', v) \<Rightarrow> if k' = k then Some v else None
                | None \<Rightarrow> None))"

lemma env_lookup_append:
  "env_lookup (xs @ ys) k = (case env_lookup ys k of Some v \<Rightarrow> Some v | None \<Rightarrow> env_lookup xs k)"
  by (induction xs) (auto split: option.splits)

lemma worker_env_lookup:
  "env_lookup (worker_env c v environ) ''NOTIFY_SOCKET'' = Some (c_socket c)"
  "env_lookup (worker_env c v environ) ''WATCHDOG_USEC'' = Some (show_int (c_watchdog c sdiv 1000))"
  "env_lookup (worker_env c v environ) ''CLAWMAST_VERSION_LABEL'' = Some v"
proof -
  have s: "cut_on (CHR ''='') (''NOTIFY_SOCKET='' @ x) = Some (''NOTIFY_SOCKET'', x)"
    "cut_on (CHR ''='') (''WATCHDOG_USEC='' @ x) = Some (''WATCHDOG_USEC'', x)"
    "cut_on (CHR ''='') (''CLAWMAST_VERSION_LABEL='' @ x) = Some (''CLAWMAST_VERSION_LABEL'', x)" for x
    using cut_on_append [of "CHR ''=''" "''NOTIFY_SOCKET''" x]
      cut_on_append [of "CHR ''=''" "''WATCHDOG_USEC''" x]
      cut_on_append [of "CHR ''=''" "''CLAWMAST_VERSION_LABEL''" x] by simp_all
  show "env_lookup (worker_env c v environ) ''NOTIFY_SOCKET'' = Some (c_socket c)"
    "env_lookup (worker_env c v environ) ''WATCHDOG_USEC'' = Some (show_int (c_watchdog c sdiv 1000))"
    "env_lookup (worker_env c v environ) ''CLAWMAST_VERSION_LABEL'' = Some v"
    unfolding worker_env_def by (simp_all add: env_lookup_append s [simplified])
qed

text \<open>
  The worker beats in time. Whatever else the environment holds, the worker finds in
  WATCHDOG_USEC the deadline the supervisor enforces, and for a deadline of at least one
  second derives from it a cadence within the deadline, from three seconds on at most a third
  of it, so that two heartbeats may be lost.
\<close>
theorem heartbeat_within_deadline:
  assumes "seconds 1 \<le> c_watchdog c" and "in_int64 (c_watchdog c)"
  shows "\<exists>txt i. env_lookup (worker_env c v environ) ''WATCHDOG_USEC'' = Some txt
    \<and> watchdog_interval txt = Some i \<and> seconds 1 \<le> i \<and> i \<le> c_watchdog c
    \<and> (seconds 3 \<le> c_watchdog c \<longrightarrow> 3 * i \<le> c_watchdog c)"
  using cadence [OF assms] worker_env_lookup(2) by blast

definition plain_config :: config where
  "plain_config = \<lparr>c_root = ''/r'', c_binary = [], c_args = [], c_env = [''WATCHDOG_USEC=7''],
     c_start_timeout = 0, c_watchdog = seconds 30, c_stop_grace = 0, c_backoff = new_backoff,
     c_gate_window = 0, c_gate_stable = 0, c_socket = [], c_history = [], c_blacklist = [],
     c_run_dir = [], c_resolve = None\<rparr>"

lemma heartbeat_within_deadline_witness:
  "\<exists>txt i. env_lookup (worker_env plain_config ''v1'' [''HOME=/h'']) ''WATCHDOG_USEC'' = Some txt
    \<and> watchdog_interval txt = Some i \<and> i \<le> seconds 30"
  using heartbeat_within_deadline [of plain_config "''v1''" "[''HOME=/h'']"]
  by (auto simp: plain_config_def in_int64_def)

end
