(* ===== verification/Blacklist.thy ===== *)
theory Blacklist
  imports FileSys
begin

section \<open>The version blacklist (internal/blacklist/blacklist.go)\<close>

text \<open>
  \<open>bl_entry\<close> is \<^verbatim>\<open>Entry\<close>. \<open>load\<close>, \<open>save\<close> and \<open>add\<close> work on the file system; \<open>upsert\<close>
  is the loop of \<^verbatim>\<open>Add\<close> on the decoded list; \<open>contains\<close> is \<^verbatim>\<open>Contains\<close>.
\<close>

record bl_entry =
  bl_version :: string
  bl_time :: instant
  bl_reason :: string

datatype bl_error = BlRead os_error | BlDecode | BlEncode | BlNoVersion | BlMkdir os_error
  | BlCreate os_error | BlWrite os_error | BlSync os_error | BlClose os_error
  | BlRename os_error

definition encode_entry :: "bl_entry \<Rightarrow> json" where
  "encode_entry e = JObj ([(''version'', JStr (bl_version e)), (''ts'', JTime (bl_time e))]
     @ (if bl_reason e = [] then [] else [(''reason'', JStr (bl_reason e))]))"

definition entry_field :: "bl_entry \<Rightarrow> string \<times> json \<Rightarrow> bl_entry option" where
  "entry_field e kv = (case kv of (k, v) \<Rightarrow>
     if equal_fold k ''version'' then map_option (\<lambda>s. e\<lparr>bl_version := s\<rparr>) (decode_string (bl_version e) v)
     else if equal_fold k ''ts'' then map_option (\<lambda>t. e\<lparr>bl_time := t\<rparr>) (decode_time (bl_time e) v)
     else if equal_fold k ''reason'' then map_option (\<lambda>s. e\<lparr>bl_reason := s\<rparr>) (decode_string (bl_reason e) v)
     else Some e)"

definition zero_entry :: bl_entry where
  "zero_entry = \<lparr>bl_version = [], bl_time = 0, bl_reason = []\<rparr>"

definition decode_entry :: "json \<Rightarrow> bl_entry option" where
  "decode_entry = decode_struct entry_field zero_entry"

definition load :: "string \<Rightarrow> fsys \<Rightarrow> (bl_error + bl_entry list) \<times> fsys" where
  "load path f =
     (case os_read_file path f of
        (Inl e, f) \<Rightarrow> (if e = NotExist then Inr [] else Inl (BlRead e), f)
      | (Inr (Text t), f) \<Rightarrow> (if t = [] then Inr [] else Inl BlDecode, f)
      | (Inr (Doc j), f) \<Rightarrow>
          (case decode_list decode_entry j of None \<Rightarrow> Inl BlDecode | Some es \<Rightarrow> Inr es, f))"

definition dir_of :: "string \<Rightarrow> string" where
  \<comment> \<open>\<^verbatim>\<open>filepath.Dir\<close>: everything up to the last slash, cleaned\<close>
  "dir_of p = clean (rev (dropWhile (\<lambda>c. c \<noteq> CHR ''/'') (rev p)))"

definition tmp_of :: "string \<Rightarrow> string" where
  "tmp_of p = p @ ''.tmp''"

definition save_tail :: "string \<Rightarrow> json \<Rightarrow> fsys \<Rightarrow> bl_error option \<times> fsys" where
  \<comment> \<open>from the write into the open staging file to the rename\<close>
  "save_tail path doc f =
     (case os_write_file (tmp_of path) (Doc doc) f of
        (Inl e, f) \<Rightarrow> (let f = snd (os_close f) in (Some (BlWrite e), snd (os_remove (tmp_of path) f)))
      | (Inr _, f) \<Rightarrow>
     (case os_sync f of
        (Inl e, f) \<Rightarrow> (let f = snd (os_close f) in (Some (BlSync e), snd (os_remove (tmp_of path) f)))
      | (Inr _, f) \<Rightarrow>
     (case os_close f of
        (Inl e, f) \<Rightarrow> (Some (BlClose e), snd (os_remove (tmp_of path) f))
      | (Inr _, f) \<Rightarrow>
     (case os_rename (tmp_of path) path f of
        (Inl e, f) \<Rightarrow> (Some (BlRename e), snd (os_remove (tmp_of path) f))
      | (Inr _, f) \<Rightarrow> (None, f)))))"

definition save :: "string \<Rightarrow> bl_entry list \<Rightarrow> fsys \<Rightarrow> bl_error option \<times> fsys" where
  "save path es f =
     (if \<not> (\<forall>e \<in> set es. time_encodable (bl_time e)) then (Some BlEncode, f)
      else case os_mkdir_all (dir_of path) f of
        (Inl e, f) \<Rightarrow> (Some (BlMkdir e), f)
      | (Inr _, f) \<Rightarrow>
          (let f = snd (os_remove (tmp_of path) f)
           in case os_create_excl (tmp_of path) f of
                (Inl e, f) \<Rightarrow> (Some (BlCreate e), f)
              | (Inr _, f) \<Rightarrow> save_tail path (JArr (map encode_entry es)) f))"

fun replace_first :: "bl_entry \<Rightarrow> bl_entry list \<Rightarrow> bl_entry list option" where
  \<comment> \<open>the loop of \<^verbatim>\<open>Add\<close>: the first entry of the same version is replaced in place\<close>
  "replace_first e [] = None"
| "replace_first e (x # xs) =
     (if bl_version x = bl_version e then Some (e # xs)
      else map_option ((#) x) (replace_first e xs))"

definition upsert :: "bl_entry \<Rightarrow> bl_entry list \<Rightarrow> bl_entry list" where
  "upsert e es = (case replace_first e es of Some es' \<Rightarrow> es' | None \<Rightarrow> es @ [e])"

definition add :: "string \<Rightarrow> bl_entry \<Rightarrow> instant \<Rightarrow> fsys \<Rightarrow> (bl_error + bl_entry list) \<times> fsys" where
  "add path e now f =
     (if bl_version e = [] then (Inl BlNoVersion, f)
      else let e = (if time_is_zero (bl_time e) then e\<lparr>bl_time := now\<rparr> else e)
           in case load path f of
                (Inl err, f) \<Rightarrow> (Inl err, f)
              | (Inr es, f) \<Rightarrow>
                  (case save path (upsert e es) f of
                     (Some err, f) \<Rightarrow> (Inl err, f)
                   | (None, f) \<Rightarrow> (Inr (upsert e es), f)))"

definition contains :: "bl_entry list \<Rightarrow> string \<Rightarrow> bool" where
  "contains es v \<longleftrightarrow> v \<noteq> [] \<and> (\<exists>e \<in> set es. bl_version e = v)"

subsection \<open>The list operations\<close>

lemma replace_first_None: "replace_first e es = None \<longleftrightarrow> bl_version e \<notin> bl_version ` set es"
  by (induction es) auto

lemma replace_first_versions:
  "replace_first e es = Some es' \<Longrightarrow> map bl_version es' = map bl_version es"
  by (induction es arbitrary: es') (auto split: if_splits)

lemma replace_first_mem: "replace_first e es = Some es' \<Longrightarrow> e \<in> set es'"
  by (induction es arbitrary: es') (auto split: if_splits)

lemma upsert_mem: "e \<in> set (upsert e es)"
  by (auto simp: upsert_def replace_first_mem split: option.split)

lemma upsert_versions:
  "bl_version ` set (upsert e es) = insert (bl_version e) (bl_version ` set es)"
proof (cases "replace_first e es")
  case (Some es')
  then have "set (map bl_version es') = set (map bl_version es)"
    by (simp add: replace_first_versions)
  moreover have "bl_version e \<in> bl_version ` set es"
    using Some replace_first_None [of e es] by auto
  ultimately show ?thesis using Some by (auto simp: upsert_def)
qed (simp add: upsert_def)

lemma upsert_distinct:
  "distinct (map bl_version es) \<Longrightarrow> distinct (map bl_version (upsert e es))"
  using replace_first_None [of e es]
  by (cases "replace_first e es") (auto simp: upsert_def replace_first_versions)

lemma contains_iff: "contains es v \<longleftrightarrow> v \<noteq> [] \<and> v \<in> bl_version ` set es"
  by (auto simp: contains_def)

text \<open>The contract of the ledger of bad versions: what the supervisor relies on.\<close>

locale version_ledger =
  fixes mark :: "'e \<Rightarrow> 'l \<Rightarrow> 'l" and listed :: "'l \<Rightarrow> string \<Rightarrow> bool" and vers :: "'e \<Rightarrow> string"
  assumes listed_mark: "listed (mark e l) v \<longleftrightarrow> (v \<noteq> [] \<and> v = vers e) \<or> listed l v"
    and never_empty: "\<not> listed l []"
begin

lemma listed_marks:
  "listed (foldl (\<lambda>l e. mark e l) l es) v \<longleftrightarrow>
    (v \<noteq> [] \<and> v \<in> vers ` set es) \<or> listed l v"
  by (induction es arbitrary: l) (auto simp: listed_mark)

lemma stays_listed: "listed l v \<Longrightarrow> listed (foldl (\<lambda>l e. mark e l) l es) v"
  by (simp add: listed_marks)

end

interpretation ledger: version_ledger upsert contains bl_version
  by unfold_locales (auto simp: contains_iff upsert_versions)

subsection \<open>The file\<close>

lemma entry_roundtrip: "decode_entry (encode_entry e) = Some e"
  by (cases e) (simp add: decode_entry_def encode_entry_def entry_field_def zero_entry_def
      equal_fold_def to_lower_def to_lower_char_def)

lemma entries_roundtrip: "decode_list decode_entry (JArr (map encode_entry es)) = Some es"
  by (rule decode_list_map) (rule entry_roundtrip)

lemma tmp_of_ne [simp]: "tmp_of p \<noteq> p" "p \<noteq> tmp_of p"
  by (simp_all add: tmp_of_def)

definition only_at :: "string set \<Rightarrow> fsys \<Rightarrow> fsys \<Rightarrow> bool" where
  \<comment> \<open>the two file systems agree outside the given paths\<close>
  "only_at ps f g \<longleftrightarrow> (\<forall>q. q \<notin> ps \<longrightarrow> nodes g q = nodes f q)"

lemma only_at_refl: "only_at ps f f"
  by (simp add: only_at_def)

lemma save_tail_effect:
  assumes r: "save_tail path doc f = (r, f')" and "nodes f (tmp_of path) = Some (File c)"
    and "nodes f path \<noteq> Some Dir"
  shows "only_at {tmp_of path, path} f f' \<and>
    (case r of None \<Rightarrow> nodes f' path = Some (File (Doc doc)) | Some _ \<Rightarrow> nodes f' path = nodes f path)"
proof (rule os_write_file_E [of "tmp_of path" "Doc doc" f])
  fix f1 e assume w: "os_write_file (tmp_of path) (Doc doc) f = (Inl e, f1)" "nodes f1 = nodes f"
  obtain f2 r2 where c: "os_close f1 = (r2, f2)" "nodes f2 = nodes f1" by (rule os_close_E)
  show ?thesis
    by (rule os_remove_E [of "tmp_of path" f2])
      (use r w c in \<open>auto simp: save_tail_def only_at_def Let_def\<close>)
next
  fix f1 assume w: "os_write_file (tmp_of path) (Doc doc) f = (Inr (), f1)"
    "nodes f1 = (nodes f)(tmp_of path \<mapsto> File (Doc doc))"
  obtain f2 r2 where s: "os_sync f1 = (r2, f2)" "nodes f2 = nodes f1" by (rule os_noop_E)
  obtain f3 r3 where c: "os_close f2 = (r3, f3)" "nodes f3 = nodes f2" by (rule os_close_E)
  have n: "nodes f3 (tmp_of path) = Some (File (Doc doc))" using w s c by simp
  show ?thesis
  proof (cases "\<exists>u v. r2 = Inr u \<and> r3 = Inr v")
    case False
    show ?thesis
      by (rule os_remove_E [of "tmp_of path" f3])
        (use r w s c False in \<open>auto simp: save_tail_def only_at_def Let_def split: sum.splits\<close>)
  next
    case True
    show ?thesis
    proof (rule os_rename_file_E [OF n, of path])
      fix f4 e assume m: "os_rename (tmp_of path) path f3 = (Inl e, f4)" "nodes f4 = nodes f3"
      show ?thesis
        by (rule os_remove_E [of "tmp_of path" f4])
          (use r w s c m True in \<open>auto simp: save_tail_def only_at_def\<close>)
    qed (use r w s c True in \<open>auto simp: save_tail_def only_at_def\<close>)
  qed
qed

lemma save_effect:
  assumes "save path es f = (r, f')" and "nodes f path \<noteq> Some Dir" and "dir_of path \<noteq> path"
    and "nodes f (tmp_of path) \<noteq> Some Dir"
  shows "only_at {tmp_of path, path, dir_of path} f f' \<and>
    (case r of
       None \<Rightarrow> nodes f' path = Some (File (Doc (JArr (map encode_entry es))))
     | Some _ \<Rightarrow> nodes f' path = nodes f path)"
proof (cases "\<forall>e \<in> set es. time_encodable (bl_time e)")
  case True
  show ?thesis
  proof (rule os_mkdir_all_E [of "dir_of path" f])
    fix f1 e assume "os_mkdir_all (dir_of path) f = (Inl e, f1)" "nodes f1 = nodes f"
    with assms True show ?thesis by (auto simp: save_def only_at_def)
  next
    fix f1 assume m: "os_mkdir_all (dir_of path) f = (Inr (), f1)"
      "nodes f1 = (nodes f)(dir_of path \<mapsto> Dir)"
    define f2 where "f2 = snd (os_remove (tmp_of path) f1)"
    have n2: "nodes f2 = nodes f1 \<or> nodes f2 = (nodes f1)(tmp_of path := None)"
      unfolding f2_def by (rule os_remove_E [of "tmp_of path" f1]) auto
    have o2: "only_at {tmp_of path, dir_of path} f f2" "nodes f2 path = nodes f path"
      using n2 m assms(3) by (auto simp: only_at_def)
    show ?thesis
    proof (rule os_create_excl_E [of "tmp_of path" f2])
      fix f3 e assume "os_create_excl (tmp_of path) f2 = (Inl e, f3)" "nodes f3 = nodes f2"
      with assms(1) True m o2 show ?thesis
        by (auto simp: save_def only_at_def Let_def f2_def)
    next
      fix f3 assume x: "os_create_excl (tmp_of path) f2 = (Inr (), f3)"
        "nodes f3 = (nodes f2)(tmp_of path \<mapsto> File (Text []))"
      have "save_tail path (JArr (map encode_entry es)) f3 = (r, f')"
        using assms(1) True m x by (simp add: save_def Let_def f2_def)
      from save_tail_effect [OF this, of "Text []"] x o2 assms(2) show ?thesis
        by (auto simp: only_at_def split: option.splits)
    qed
  qed
next
  case False
  with assms show ?thesis by (auto simp: save_def only_at_def)
qed


definition demo_fs :: fsys where
  "demo_fs = \<lparr>nodes = [''/r/state/blacklist.json'' \<mapsto> File (Text [])],
     faults = [False, False, False, False, True]\<rparr>"

lemma demo_dir: "dir_of ''/r/state/blacklist.json'' = ''/r/state''"
  by code_simp

lemma demo_tmp: "tmp_of ''/r/state/blacklist.json'' = ''/r/state/blacklist.json.tmp''"
  by (simp add: tmp_of_def)


lemma load_clean:
  "faults f = [] \<Longrightarrow> nodes f path = Some (File (Doc (JArr (map encode_entry es)))) \<Longrightarrow>
   load path f = (Inr es, f)"
  by (simp add: load_def os_read_file_def entries_roundtrip del: decode_list.simps)

lemma load_faults: "faults f = [] \<Longrightarrow> snd (load path f) = f"
  by (auto simp: load_def os_read_file_def split: option.splits node.splits content.splits)

lemma save_clean:
  assumes "faults f = []" "\<forall>e \<in> set es. time_encodable (bl_time e)"
    and "nodes f path \<noteq> Some Dir" "nodes f (tmp_of path) \<noteq> Some Dir"
    and "dir_of path \<noteq> path" "dir_of path \<noteq> tmp_of path"
    and "nodes f (dir_of path) \<in> {None, Some Dir}"
  shows "\<exists>f'. save path es f = (None, f') \<and> faults f' = []
    \<and> nodes f' path = Some (File (Doc (JArr (map encode_entry es))))"
  using assms
  by (auto simp: save_def save_tail_def os_defs Let_def tmp_of_def [symmetric]
      split: option.splits node.splits)

lemma load_nodes: "nodes (snd (load path f)) = nodes f"
proof -
  have "nodes (snd (os_read_file path f)) = nodes f"
    unfolding os_read_file_def
    by (intro ext guarded_nodes) (auto split: option.splits node.splits content.splits)
  then show ?thesis
    by (cases "os_read_file path f") (auto simp: load_def split: sum.splits content.splits option.splits)
qed

lemma add_effect:
  assumes "add path e now f = (r, f')" "nodes f path \<noteq> Some Dir" "dir_of path \<noteq> path"
    "nodes f (tmp_of path) \<noteq> Some Dir"
  shows "case r of Inl _ \<Rightarrow> nodes f' path = nodes f path
    | Inr es \<Rightarrow> nodes f' path = Some (File (Doc (JArr (map encode_entry es)))) \<and> bl_version e \<noteq> []
        \<and> (if time_is_zero (bl_time e) then e\<lparr>bl_time := now\<rparr> else e) \<in> set es
        \<and> contains es (bl_version e)"
proof (cases "bl_version e = []")
  case False
  let ?e = "if time_is_zero (bl_time e) then e\<lparr>bl_time := now\<rparr> else e"
  obtain l g where l: "load path f = (l, g)" by fastforce
  have n: "nodes g = nodes f" using load_nodes [of path f] l by simp
  show ?thesis
  proof (cases l)
    case (Inl err)
    with assms(1) l n False show ?thesis by (auto simp: add_def)
  next
    case (Inr old)
    obtain w h where w: "save path (upsert ?e old) g = (w, h)" by fastforce
    have e: "case w of None \<Rightarrow> nodes h path = Some (File (Doc (JArr (map encode_entry (upsert ?e old)))))
        | Some _ \<Rightarrow> nodes h path = nodes g path"
      using save_effect [OF w] assms(2-4) n by simp
    have "contains (upsert ?e old) (bl_version ?e)" using ledger.listed_mark False by simp
    then have m: "?e \<in> set (upsert ?e old)" "contains (upsert ?e old) (bl_version e)"
      using upsert_mem by (simp_all split: if_splits)
    have r: "(r, f') = (case w of Some err \<Rightarrow> (Inl err, h) | None \<Rightarrow> (Inr (upsert ?e old), h))"
      using assms(1) l Inr w False by (simp add: add_def Let_def)
    show ?thesis
    proof (cases w)
      case None
      with r have "r = Inr (upsert ?e old)" "f' = h" by simp_all
      with e None m False show ?thesis by simp
    next
      case (Some err)
      with r e n show ?thesis by simp
    qed
  qed
qed (use assms in \<open>auto simp: add_def\<close>)

lemma add_clean:
  assumes "faults f = []" and l: "load path f = (Inr es, f)" and v: "bl_version e \<noteq> []"
    and e: "e' = (if time_is_zero (bl_time e) then e\<lparr>bl_time := now\<rparr> else e)"
    and enc: "\<forall>x \<in> set (upsert e' es). time_encodable (bl_time x)"
    and p: "nodes f path \<noteq> Some Dir" "nodes f (tmp_of path) \<noteq> Some Dir"
      "dir_of path \<noteq> path" "dir_of path \<noteq> tmp_of path" "nodes f (dir_of path) \<in> {None, Some Dir}"
  shows "\<exists>f'. add path e now f = (Inr (upsert e' es), f') \<and> faults f' = []
    \<and> load path f' = (Inr (upsert e' es), f')"
proof -
  from save_clean [OF assms(1) enc p] obtain f' where
    s: "save path (upsert e' es) f = (None, f')" "faults f' = []"
    "nodes f' path = Some (File (Doc (JArr (map encode_entry (upsert e' es)))))" by blast
  have "add path e now f = (Inr (upsert e' es), f')" using v l s(1) unfolding e by (simp add: add_def)
  with s(2) load_clean [OF s(2,3)] show ?thesis by blast
qed

text \<open>
  Add followed by Load. When no call fails and the file can be read, the version just
  added is on the list Load returns, with its entry as given, every version that was listed
  still is, nothing else is, and no version is listed twice if none was before.
\<close>
theorem add_then_load:
  assumes "faults f = []" and "load path f = (Inr es, f)" and "bl_version e \<noteq> []"
    and "\<not> time_is_zero (bl_time e)" and "\<forall>x \<in> set (e # es). time_encodable (bl_time x)"
    and "nodes f path \<noteq> Some Dir" and "nodes f (tmp_of path) \<noteq> Some Dir"
    and "dir_of path \<noteq> path" and "dir_of path \<noteq> tmp_of path"
    and "nodes f (dir_of path) \<in> {None, Some Dir}"
  shows "\<exists>f' es'. add path e now f = (Inr es', f') \<and> load path f' = (Inr es', f') \<and> e \<in> set es'
    \<and> (\<forall>v. contains es' v \<longleftrightarrow> v = bl_version e \<or> contains es v)
    \<and> (distinct (map bl_version es) \<longrightarrow> distinct (map bl_version es'))"
proof -
  have sub: "set (upsert e es) \<subseteq> set (e # es)"
  proof -
    have "set es' \<subseteq> set (e # es)" if "replace_first e es = Some es'" for es'
      using that by (induction es arbitrary: es') (auto split: if_splits)
    then show ?thesis by (auto simp: upsert_def split: option.splits)
  qed
  then have "\<forall>x \<in> set (upsert e es). time_encodable (bl_time x)" using assms(5) by blast
  from add_clean [OF assms(1-3) _ this assms(6-10), of now] assms(4) obtain f' where
    "add path e now f = (Inr (upsert e es), f')" "load path f' = (Inr (upsert e es), f')" by auto
  then show ?thesis
    using upsert_mem upsert_distinct ledger.listed_mark [of e es] assms(3) by blast
qed

definition ok_fs :: fsys where
  "ok_fs = \<lparr>nodes = [''/r/state/blacklist.json'' \<mapsto>
      File (Doc (JArr [encode_entry \<lparr>bl_version = ''v1'', bl_time = 7, bl_reason = ''x''\<rparr>]))],
     faults = []\<rparr>"

lemma add_then_load_witness:
  "\<exists>f' es'. add ''/r/state/blacklist.json'' \<lparr>bl_version = ''v2'', bl_time = 9, bl_reason = []\<rparr> 9 ok_fs
      = (Inr es', f') \<and> contains es' ''v2'' \<and> contains es' ''v1''"
proof -
  let ?p = "''/r/state/blacklist.json''"
  let ?e = "\<lparr>bl_version = ''v2'', bl_time = 9, bl_reason = []\<rparr>"
  let ?old = "[\<lparr>bl_version = ''v1'', bl_time = 7, bl_reason = ''x''\<rparr>]"
  have l: "load ?p ok_fs = (Inr ?old, ok_fs)" by (rule load_clean) (simp_all add: ok_fs_def)
  have "\<exists>f' es'. add ?p ?e 9 ok_fs = (Inr es', f') \<and> load ?p f' = (Inr es', f') \<and> ?e \<in> set es'
    \<and> (\<forall>v. contains es' v \<longleftrightarrow> v = bl_version ?e \<or> contains ?old v)
    \<and> (distinct (map bl_version ?old) \<longrightarrow> distinct (map bl_version es'))"
    by (rule add_then_load [OF _ l])
      (simp_all add: ok_fs_def demo_dir demo_tmp time_is_zero_def time_encodable_def)
  then obtain f' es' where "add ?p ?e 9 ok_fs = (Inr es', f')"
    "\<forall>v. contains es' v \<longleftrightarrow> v = bl_version ?e \<or> contains ?old v" by blast
  moreover have "contains ?old ''v1''" by (simp add: contains_def)
  ultimately show ?thesis by (intro exI [of _ f'] exI [of _ es']) simp
qed

end
