(* ===== verification/GateMarker.thy ===== *)
theory GateMarker
  imports Blacklist
begin

section \<open>The install-gate marker (internal/selfupdate/marker.go)\<close>

text \<open>
  \<open>gate_marker\<close> is \<^verbatim>\<open>GateMarker\<close>; the marker file tells the supervisor that the version
  it is about to spawn is a fresh install.
\<close>

record gate_marker =
  m_version :: string
  m_installed_at :: instant

datatype marker_error = MkNoVersion | MkIO os_error | MkEncode | MkParse

definition gate_marker_path :: "string \<Rightarrow> string" where
  "gate_marker_path root = path_join [root, ''state'', ''install-gate.json'']"

definition encode_marker :: "gate_marker \<Rightarrow> json" where
  "encode_marker m =
     JObj [(''version'', JStr (m_version m)), (''installed_at'', JTime (m_installed_at m))]"

definition marker_field :: "gate_marker \<Rightarrow> string \<times> json \<Rightarrow> gate_marker option" where
  "marker_field m kv = (case kv of (k, v) \<Rightarrow>
     if equal_fold k ''version'' then map_option (\<lambda>s. m\<lparr>m_version := s\<rparr>) (decode_string (m_version m) v)
     else if equal_fold k ''installed_at'' then map_option (\<lambda>t. m\<lparr>m_installed_at := t\<rparr>) (decode_time (m_installed_at m) v)
     else Some m)"

definition zero_marker :: gate_marker where
  "zero_marker = \<lparr>m_version = [], m_installed_at = 0\<rparr>"

definition write_gate_marker :: "string \<Rightarrow> gate_marker \<Rightarrow> instant \<Rightarrow> fsys \<Rightarrow> marker_error option \<times> fsys"
where
  "write_gate_marker root m now f =
     (if m_version m = [] then (Some MkNoVersion, f)
      else let m = (if time_is_zero (m_installed_at m) then m\<lparr>m_installed_at := now\<rparr> else m);
               path = gate_marker_path root
           in case os_mkdir_all (dir_of path) f of
                (Inl e, f) \<Rightarrow> (Some (MkIO e), f)
              | (Inr _, f) \<Rightarrow>
                  if \<not> time_encodable (m_installed_at m) then (Some MkEncode, f)
                  else case os_write_file (tmp_of path) (Doc (encode_marker m)) f of
                    (Inl e, f) \<Rightarrow> (Some (MkIO e), f)
                  | (Inr _, f) \<Rightarrow>
                 (case os_rename (tmp_of path) path f of
                    (Inl e, f) \<Rightarrow> (Some (MkIO e), snd (os_remove (tmp_of path) f))
                  | (Inr _, f) \<Rightarrow> (None, f)))"

definition read_gate_marker :: "string \<Rightarrow> fsys \<Rightarrow> (marker_error + gate_marker) \<times> fsys" where
  "read_gate_marker root f =
     (case os_read_file (gate_marker_path root) f of
        (Inl e, f) \<Rightarrow> (if e = NotExist then Inr zero_marker else Inl (MkIO e), f)
      | (Inr (Text _), f) \<Rightarrow> (Inl MkParse, f)
      | (Inr (Doc j), f) \<Rightarrow>
          (case decode_struct marker_field zero_marker j of
             None \<Rightarrow> Inl MkParse | Some m \<Rightarrow> Inr m, f))"

definition delete_gate_marker :: "string \<Rightarrow> fsys \<Rightarrow> marker_error option \<times> fsys" where
  "delete_gate_marker root f =
     (case os_remove (gate_marker_path root) f of
        (Inl e, f) \<Rightarrow> (if e \<noteq> NotExist then Some (MkIO e) else None, f)
      | (Inr _, f) \<Rightarrow> (None, f))"

lemma marker_roundtrip: "decode_struct marker_field zero_marker (encode_marker m) = Some m"
  by (cases m) (simp add: encode_marker_def marker_field_def zero_marker_def
      equal_fold_def to_lower_def to_lower_char_def)

text \<open>Deleting is final and idempotent: a later read finds no marker.\<close>

lemma delete_clean:
  assumes "faults f = []" "nodes f (gate_marker_path root) \<noteq> Some Dir"
  shows "delete_gate_marker root f = (None, put_node (gate_marker_path root) None f)"
proof (cases "nodes f (gate_marker_path root)")
  case None
  then have "put_node (gate_marker_path root) None f = f" by (simp add: put_node_def fun_upd_idem)
  with None assms show ?thesis by (simp add: delete_gate_marker_def os_remove_def)
qed (use assms in \<open>auto simp: delete_gate_marker_def os_remove_def split: node.splits\<close>)

lemma delete_nodes:
  "nodes (snd (delete_gate_marker root f)) = nodes f
   \<or> nodes (snd (delete_gate_marker root f)) = (nodes f)(gate_marker_path root := None)"
  by (rule os_remove_E [of "gate_marker_path root" f]) (auto simp: delete_gate_marker_def)

lemma read_marker_fs: "faults f = [] \<Longrightarrow> snd (read_gate_marker root f) = f"
  by (auto simp: read_gate_marker_def os_read_file_def split: option.splits node.splits content.splits)

lemma read_marker_nodes: "nodes (snd (read_gate_marker root f)) = nodes f"
  by (rule os_read_file_E [of "gate_marker_path root" f])
    (auto simp: read_gate_marker_def split: sum.splits content.splits)

lemma write_marker_clean:
  assumes "faults f = []" "m_version m \<noteq> []" "\<not> time_is_zero (m_installed_at m)"
    "time_encodable (m_installed_at m)"
    "nodes f (gate_marker_path root) \<noteq> Some Dir" "nodes f (tmp_of (gate_marker_path root)) \<noteq> Some Dir"
    "dir_of (gate_marker_path root) \<noteq> gate_marker_path root"
    "dir_of (gate_marker_path root) \<noteq> tmp_of (gate_marker_path root)"
    "nodes f (dir_of (gate_marker_path root)) \<in> {None, Some Dir}"
  shows "\<exists>f'. write_gate_marker root m now f = (None, f') \<and> faults f' = []
    \<and> nodes f' (gate_marker_path root) = Some (File (Doc (encode_marker m)))
    \<and> only_at {tmp_of (gate_marker_path root), gate_marker_path root, dir_of (gate_marker_path root)} f f'"
  using assms
  by (auto simp: write_gate_marker_def os_defs Let_def only_at_def split: option.splits node.splits)

lemma read_marker_clean:
  "faults f = [] \<Longrightarrow> nodes f (gate_marker_path root) = Some (File (Doc (encode_marker m))) \<Longrightarrow>
   read_gate_marker root f = (Inr m, f)"
  by (simp add: read_gate_marker_def os_read_file_def marker_roundtrip)

end
