(* ===== verification/Ledger.thy ===== *)
theory Ledger
  imports Json
begin

section \<open>The history ledger (internal/supervisor/history.go, internal/history/history.go)\<close>

text \<open>
  \<^verbatim>\<open>state/history.json\<close> is a sequence of lines. \<open>hledger\<close> holds the complete lines and,
  after a write that was cut short, the unterminated rest of the file. A line is a JSON
  document, text that is not one, empty, or longer than the scanner's 256 KiB. An append
  writes its line at the end of the file, so after an unterminated rest it completes that
  line instead of starting one: the text of a cut record followed by a whole record is not a
  JSON document.
\<close>

datatype hist_event = EvSpawn | EvCrash | EvRollback | EvStop

fun event_str :: "hist_event \<Rightarrow> string" where
  "event_str EvSpawn = ''spawn''"
| "event_str EvCrash = ''crash''"
| "event_str EvRollback = ''rollback''"
| "event_str EvStop = ''stop''"

record hist_entry =
  h_time :: instant
  h_event :: hist_event
  h_version :: string
  h_exit :: "int option"
  h_reason :: string

record read_entry =
  \<comment> \<open>\<^verbatim>\<open>history.Entry\<close>: the reader keeps the event as the string it found\<close>
  r_time :: instant
  r_event :: string
  r_version :: string
  r_exit :: "int option"
  r_reason :: string

datatype hline = Record json | Junk | Blank | Overlong

record hledger =
  h_lines :: "hline list"
  h_tail :: "hline option"

definition encode_hist :: "hist_entry \<Rightarrow> json" where
  "encode_hist e = JObj ([(''ts'', JTime (h_time e)), (''event'', JStr (event_str (h_event e)))]
     @ (if h_version e = [] then [] else [(''version'', JStr (h_version e))])
     @ (case h_exit e of None \<Rightarrow> [] | Some c \<Rightarrow> [(''exit_code'', JNum c)])
     @ (if h_reason e = [] then [] else [(''reason'', JStr (h_reason e))]))"

definition zero_read :: read_entry where
  "zero_read = \<lparr>r_time = 0, r_event = [], r_version = [], r_exit = None, r_reason = []\<rparr>"

fun decode_int_ptr :: "int option \<Rightarrow> json \<Rightarrow> int option option" where
  "decode_int_ptr old JNull = Some None"
| "decode_int_ptr old (JNum n) = (if in_int64 n then Some (Some n) else None)"
| "decode_int_ptr old _ = None"

definition read_field :: "read_entry \<Rightarrow> string \<times> json \<Rightarrow> read_entry option" where
  "read_field e kv = (case kv of (k, v) \<Rightarrow>
     if equal_fold k ''ts'' then map_option (\<lambda>t. e\<lparr>r_time := t\<rparr>) (decode_time (r_time e) v)
     else if equal_fold k ''event'' then map_option (\<lambda>s. e\<lparr>r_event := s\<rparr>) (decode_string (r_event e) v)
     else if equal_fold k ''version'' then map_option (\<lambda>s. e\<lparr>r_version := s\<rparr>) (decode_string (r_version e) v)
     else if equal_fold k ''exit_code'' then map_option (\<lambda>c. e\<lparr>r_exit := c\<rparr>) (decode_int_ptr (r_exit e) v)
     else if equal_fold k ''reason'' then map_option (\<lambda>s. e\<lparr>r_reason := s\<rparr>) (decode_string (r_reason e) v)
     else Some e)"

definition decode_hist :: "json \<Rightarrow> read_entry option" where
  "decode_hist = decode_struct read_field zero_read"

definition seen :: "hist_entry \<Rightarrow> read_entry" where
  \<comment> \<open>what a reader should see of an entry\<close>
  "seen e = \<lparr>r_time = h_time e, r_event = event_str (h_event e), r_version = h_version e,
     r_exit = h_exit e, r_reason = h_reason e\<rparr>"

subsection \<open>Writing\<close>

datatype append_io = AppendOk | OpenFails | ShortWrite | SyncFails

definition put_line :: "hline \<Rightarrow> hledger \<Rightarrow> hledger" where
  "put_line l g = (case h_tail g of
     None \<Rightarrow> g\<lparr>h_lines := h_lines g @ [l]\<rparr>
   | Some _ \<Rightarrow> g\<lparr>h_lines := h_lines g @ [Junk], h_tail := None\<rparr>)"

definition append_entry :: "append_io \<Rightarrow> instant \<Rightarrow> hist_entry \<Rightarrow> hledger \<Rightarrow> bool \<times> hledger" where
  \<comment> \<open>\<^verbatim>\<open>History.Append\<close>; the flag says that it returned nil\<close>
  "append_entry io now e g =
     (let e = (if time_is_zero (h_time e) then e\<lparr>h_time := now\<rparr> else e)
      in if \<not> time_encodable (h_time e) then (False, g)
         else case io of
           OpenFails \<Rightarrow> (False, g)
         | ShortWrite \<Rightarrow> (False, g\<lparr>h_tail := Some Junk\<rparr>)
         | SyncFails \<Rightarrow> (False, put_line (Record (encode_hist e)) g)
         | AppendOk \<Rightarrow> (True, put_line (Record (encode_hist e)) g))"

subsection \<open>Reading\<close>

datatype read_error = ReadDecode | ReadScan

fun decode_lines :: "bool \<Rightarrow> hline list \<Rightarrow> read_error + read_entry list" where
  "decode_lines strict [] = Inr []"
| "decode_lines strict (Overlong # ls) = Inl ReadScan"
| "decode_lines strict (Blank # ls) = decode_lines strict ls"
| "decode_lines strict (Junk # ls) = (if strict then Inl ReadDecode else decode_lines strict ls)"
| "decode_lines strict (Record j # ls) =
     (case decode_hist j of
        None \<Rightarrow> (if strict then Inl ReadDecode else decode_lines strict ls)
      | Some e \<Rightarrow> (case decode_lines strict ls of Inl err \<Rightarrow> Inl err | Inr es \<Rightarrow> Inr (e # es)))"

definition decode_all :: "bool \<Rightarrow> hledger \<Rightarrow> read_error + read_entry list" where
  "decode_all strict g =
     decode_lines strict (h_lines g @ (case h_tail g of None \<Rightarrow> [] | Some l \<Rightarrow> [l]))"

definition read_tail :: "int \<Rightarrow> bool \<Rightarrow> hledger option \<Rightarrow> read_error + read_entry list" where
  \<comment> \<open>\<^verbatim>\<open>ReadTail\<close>; \<open>None\<close> is a missing file\<close>
  "read_tail limit strict g =
     (case g of
        None \<Rightarrow> Inr []
      | Some g \<Rightarrow>
          (case decode_all strict g of
             Inl e \<Rightarrow> Inl e
           | Inr es \<Rightarrow>
               Inr (if limit > 0 \<and> int (length es) > limit
                    then drop (length es - nat limit) es else es)))"

subsection \<open>Round trip\<close>

lemma hist_roundtrip:
  assumes "\<forall>c. h_exit e = Some c \<longrightarrow> in_int64 c"
  shows "decode_hist (encode_hist e) = Some (seen e)"
  using assms
  by (cases e; cases "h_exit e")
    (simp_all add: decode_hist_def encode_hist_def seen_def read_field_def zero_read_def
      equal_fold_def to_lower_def to_lower_char_def)

definition writable :: "hist_entry \<Rightarrow> bool" where
  "writable e \<longleftrightarrow> \<not> time_is_zero (h_time e) \<and> time_encodable (h_time e)
     \<and> (case h_exit e of None \<Rightarrow> True | Some c \<Rightarrow> in_int64 c)"

definition append_all :: "instant \<Rightarrow> hist_entry list \<Rightarrow> hledger \<Rightarrow> hledger" where
  "append_all now es g = foldl (\<lambda>g e. snd (append_entry AppendOk now e g)) g es"

lemma append_ok:
  "writable e \<Longrightarrow> h_tail g = None \<Longrightarrow>
   append_entry AppendOk now e g = (True, g\<lparr>h_lines := h_lines g @ [Record (encode_hist e)]\<rparr>)"
  by (simp add: append_entry_def put_line_def writable_def)

lemma append_all_lines:
  assumes "\<forall>e \<in> set es. writable e" "h_tail g = None"
  shows "append_all now es g =
    g\<lparr>h_lines := h_lines g @ map (\<lambda>e. Record (encode_hist e)) es\<rparr>"
  using assms
  by (induction es arbitrary: g) (simp_all add: append_all_def append_ok)

lemma decode_lines_records:
  "\<forall>e \<in> set es. writable e \<Longrightarrow>
   decode_lines strict (map (\<lambda>e. Record (encode_hist e)) es) = Inr (map seen es)"
  by (induction es) (auto simp: hist_roundtrip writable_def split: option.splits)

lemma decode_lines_append:
  "decode_lines strict (ls @ ms) =
    (case decode_lines strict ls of Inl e \<Rightarrow> Inl e
     | Inr es \<Rightarrow> (case decode_lines strict ms of Inl e \<Rightarrow> Inl e | Inr fs \<Rightarrow> Inr (es @ fs)))"
proof (induction ls)
  case (Cons l ls)
  then show ?case
    by (cases strict; cases l; cases "decode_lines strict ls"; cases "decode_lines strict ms")
      (simp_all split: option.split)
qed (simp split: sum.split)

text \<open>
  What the supervisor appends is what the worker reads. Starting from a ledger without
  an unterminated rest, the tail of length n that ReadTail returns after any successful
  appends is the last n of the readable earlier entries followed by the new ones, field by
  field.
\<close>
theorem ledger_roundtrip:
  assumes "\<forall>e \<in> set es. writable e" and "h_tail g = None" and "decode_all strict g = Inr old"
    and "0 < n"
  shows "read_tail (int n) strict (Some (append_all now es g)) =
    Inr (drop (length old + length es - n) (old @ map seen es))"
  using assms append_all_lines [OF assms(1,2), of now]
  by (simp add: read_tail_def decode_all_def decode_lines_append decode_lines_records)

lemma ledger_roundtrip_witness:
  "read_tail 1 False (Some (append_all 5
     [\<lparr>h_time = 7, h_event = EvSpawn, h_version = ''v1'', h_exit = None, h_reason = []\<rparr>,
      \<lparr>h_time = 9, h_event = EvCrash, h_version = ''v1'', h_exit = Some 3, h_reason = ''x''\<rparr>]
     \<lparr>h_lines = [Junk, Blank], h_tail = None\<rparr>)) =
   Inr [\<lparr>r_time = 9, r_event = ''crash'', r_version = ''v1'', r_exit = Some 3, r_reason = ''x''\<rparr>]"
  using ledger_roundtrip [of "[\<lparr>h_time = 7, h_event = EvSpawn, h_version = ''v1'', h_exit = None,
      h_reason = []\<rparr>, \<lparr>h_time = 9, h_event = EvCrash, h_version = ''v1'', h_exit = Some 3,
      h_reason = ''x''\<rparr>]" "\<lparr>h_lines = [Junk, Blank], h_tail = None\<rparr>" False "[]" 1 5]
  by (simp add: writable_def time_is_zero_def time_encodable_def in_int64_def decode_all_def seen_def)

text \<open>
  A record cut short does not damage the entries before it, but it takes the next one
  with it: the first append after a short write is reported as successful and is never read
  back.
\<close>
theorem append_after_short_write:
  assumes "writable e1" and "writable e2" and "h_tail g = None"
    and "append_entry ShortWrite now e1 g = (ok1, g1)"
    and "append_entry AppendOk now e2 g1 = (ok2, g2)"
  shows "ok2 \<and> decode_all False g2 = decode_all False g"
  using assms
  by (auto simp: append_entry_def writable_def put_line_def decode_all_def decode_lines_append
      split: sum.splits)

lemma append_after_short_write_witness:
  "\<exists>g2. append_entry AppendOk 5 \<lparr>h_time = 9, h_event = EvStop, h_version = ''v1'', h_exit = None, h_reason = []\<rparr>
      (snd (append_entry ShortWrite 5 \<lparr>h_time = 7, h_event = EvSpawn, h_version = ''v1'', h_exit = None, h_reason = []\<rparr>
        \<lparr>h_lines = [], h_tail = None\<rparr>)) = (True, g2) \<and> decode_all False g2 = Inr []"
proof -
  let ?e1 = "\<lparr>h_time = 7, h_event = EvSpawn, h_version = ''v1'', h_exit = None, h_reason = []\<rparr>"
  let ?e2 = "\<lparr>h_time = 9, h_event = EvStop, h_version = ''v1'', h_exit = None, h_reason = []\<rparr>"
  let ?g = "\<lparr>h_lines = [], h_tail = None\<rparr> :: hledger"
  have w: "writable ?e1" "writable ?e2"
    by (simp_all add: writable_def time_is_zero_def time_encodable_def)
  from append_after_short_write [OF w, of ?g 5 _ _ _ _, OF _ surjective_pairing surjective_pairing]
  show ?thesis
    by (intro exI [of _ "snd (append_entry AppendOk 5 ?e2 (snd (append_entry ShortWrite 5 ?e1 ?g)))"])
      (simp add: prod_eq_iff decode_all_def)
qed

end
