(* ===== verification/Session.thy ===== *)
theory Session
  imports SupConfig ExitCode Notify Blacklist GateMarker Ledger
begin

section \<open>One worker under supervision (internal/supervisor/session.go, loop.go: runOneSpawn)\<close>

text \<open>
  \<open>sup\<close> is the state of \<^verbatim>\<open>Supervisor\<close>: the file system, the calls made to
  \<^verbatim>\<open>History.Append\<close> (whose effect on the file is \<open>Ledger.append_entry\<close>, and whose failure
  is only logged), the crash tracker, the install gate, the channel of the notify listener,
  the current session and the signals sent to it.

  The select loop of \<^verbatim>\<open>runOneSpawn\<close> is a state machine on \<open>sess\<close>: the state label and the
  three timers, each the instant it expires or \<open>None\<close> when it is stopped. An event is the
  branch the select takes, with the time of the branch. \<open>enabled\<close> says which branches are
  ready; \<open>on_event\<close> is the body of the branch.
\<close>

record sup =
  s_fs :: fsys
  s_log :: "hist_entry list"
  s_tracker :: tracker
  s_gate :: gate
  s_queue :: "notify_message list"
  s_current :: "int option"
  s_signals :: "(int \<times> int) list"
  s_sleeps :: "duration list"

definition record_history :: "hist_event \<Rightarrow> string \<Rightarrow> int option \<Rightarrow> string \<Rightarrow> sup \<Rightarrow> sup" where
  "record_history ev v c reason s = s\<lparr>s_log := s_log s @
     [\<lparr>h_time = 0, h_event = ev, h_version = v, h_exit = c, h_reason = reason\<rparr>]\<rparr>"

subsection \<open>The session handle\<close>

definition sigterm :: int where "sigterm = 15"
definition sigkill :: int where "sigkill = 9"
definition sighup :: int where "sighup = 1"

definition send_signal :: "int \<Rightarrow> sup \<Rightarrow> sup" where
  "send_signal sig s =
     (case s_current s of None \<Rightarrow> s | Some pid \<Rightarrow> s\<lparr>s_signals := s_signals s @ [(pid, sig)]\<rparr>)"

datatype stop_reply = Reaped "wait_status option" | GraceExpired "wait_status option"

definition stop :: "stop_reply \<Rightarrow> sup \<Rightarrow> exit_info \<times> sup" where
  \<comment> \<open>\<^verbatim>\<open>session.stop\<close>: the reply is the child's status, reaped within the grace or after the kill\<close>
  "stop reply s =
     (let s = send_signal sigterm s
      in case reply of
           Reaped ws \<Rightarrow> (from_process_state ws, s)
         | GraceExpired ws \<Rightarrow> (from_process_state ws, send_signal sigkill s))"

definition forward_hup :: "sup \<Rightarrow> sup" where
  \<comment> \<open>the SIGHUP branch of \<^verbatim>\<open>installSignalHandlers\<close>
\<close>
  "forward_hup s = send_signal sighup s"

definition pid_path :: "config \<Rightarrow> string" where
  "pid_path c = path_join [c_run_dir c, ''worker.pid'']"

definition write_pid_file :: "config \<Rightarrow> int \<Rightarrow> sup \<Rightarrow> sup" where
  "write_pid_file c pid s =
     s\<lparr>s_fs := snd (os_write_file (pid_path c) (Text (show_int pid @ [CHR 0x0A])) (s_fs s))\<rparr>"

definition clear_pid_file :: "config \<Rightarrow> sup \<Rightarrow> sup" where
  "clear_pid_file c s = s\<lparr>s_fs := snd (os_remove (pid_path c) (s_fs s))\<rparr>"

subsection \<open>The select loop\<close>

datatype st_label = Starting | Running

record sess =
  cur :: st_label
  start_at :: "instant option"
  watchdog_at :: "instant option"
  gate_at :: "instant option"

datatype outcome_kind = OutCrash | OutNoRestart | OutRollback | OutStopped | OutGateTimeout
  | OutSpawnFailure

record spawn_outcome =
  o_kind :: outcome_kind
  o_info :: exit_info

datatype event_kind =
    SelDone stop_reply                 \<comment> \<open>\<^verbatim>\<open>ctx.Done()\<close>\<close>
  | SelExit "wait_status option"       \<comment> \<open>\<^verbatim>\<open>sess.waitCh\<close>\<close>
  | SelStart stop_reply                \<comment> \<open>\<^verbatim>\<open>startDeadline.C\<close>\<close>
  | SelWatchdog stop_reply             \<comment> \<open>\<^verbatim>\<open>watchdog.C\<close>\<close>
  | SelGate stop_reply                 \<comment> \<open>\<^verbatim>\<open>gateTimer.C\<close>\<close>
  | SelMsg                             \<comment> \<open>a message is received\<close>
  | SelClosed                          \<comment> \<open>the message channel is closed\<close>
  | Arrive string                      \<comment> \<open>the listener reads a datagram\<close>
  | Hup                                \<comment> \<open>the signal goroutine receives SIGHUP\<close>

record event =
  e_at :: instant
  e_kind :: event_kind

definition clamp_wake :: "duration \<Rightarrow> duration" where
  "clamp_wake d = (if d < millis 10 then millis 10 else d)"

definition classify_outcome ::
  "string \<Rightarrow> exit_info \<Rightarrow> classification \<Rightarrow> sup \<Rightarrow> spawn_outcome \<times> sup" where
  "classify_outcome v info cls s =
     (let reason = (if signaled info then ''signal-'' @ class_str cls else class_str cls);
          kind = (case cls of ClassNoRestart \<Rightarrow> OutNoRestart | ClassRollback \<Rightarrow> OutRollback
                  | _ \<Rightarrow> OutCrash)
      in (\<lparr>o_kind = kind, o_info = info\<rparr>, record_history EvCrash v (Some (code info)) reason s))"

definition on_ready_kind :: "config \<Rightarrow> instant \<Rightarrow> sess \<Rightarrow> sup \<Rightarrow> sess \<times> sup" where
  \<comment> \<open>the \<^verbatim>\<open>NotifyReady\<close> case; its three clock readings are one instant\<close>
  "on_ready_kind c now st s =
     (if cur st = Starting then
        (let s = s\<lparr>s_tracker := mark_running now (s_tracker s)\<rparr>;
             st = st\<lparr>cur := Running, start_at := None,
                     watchdog_at := Some (time_add now (c_watchdog c))\<rparr>
         in if is_active (s_gate s)
            then (let g = on_ready now (s_gate s)
                  in (st\<lparr>gate_at := Some (time_add now (clamp_wake (next_wake now g)))\<rparr>,
                      s\<lparr>s_gate := g\<rparr>))
            else (st, s))
      else (st, s))"

definition on_notify :: "config \<Rightarrow> instant \<Rightarrow> notify_kind \<Rightarrow> sess \<Rightarrow> sup \<Rightarrow> sess \<times> sup" where
  "on_notify c now k st s =
     (case k of
        NotifyReady \<Rightarrow> on_ready_kind c now st s
      | NotifyWatchdog \<Rightarrow>
          (if cur st = Running then (st\<lparr>watchdog_at := Some (time_add now (c_watchdog c))\<rparr>, s)
           else (st, s))
      | NotifyStopping \<Rightarrow> (st, s))"

fun on_kinds :: "config \<Rightarrow> instant \<Rightarrow> notify_kind list \<Rightarrow> sess \<Rightarrow> sup \<Rightarrow> sess \<times> sup" where
  "on_kinds c now [] st s = (st, s)"
| "on_kinds c now (k # ks) st s =
     (case on_notify c now k st s of (st', s') \<Rightarrow> on_kinds c now ks st' s')"

definition on_gate_timer ::
  "config \<Rightarrow> string \<Rightarrow> instant \<Rightarrow> stop_reply \<Rightarrow> sess \<Rightarrow> sup \<Rightarrow> (spawn_outcome + sess) \<times> sup" where
  "on_gate_timer c v now reply st s =
     (let st = st\<lparr>gate_at := None\<rparr>; (out, g) = tick now (s_gate s); s = s\<lparr>s_gate := g\<rparr>
      in case out of
           GatePass \<Rightarrow>
             (Inr st, s\<lparr>s_fs := snd (delete_gate_marker (c_root c) (s_fs s)),
                        s_gate := gate_reset g\<rparr>)
         | GateTimedOut \<Rightarrow>
             (let (info, s) = stop reply s
              in (Inl \<lparr>o_kind = OutGateTimeout, o_info = info\<rparr>,
                  record_history EvCrash v (Some (code info)) (fail_reason_str FailTimeout) s))
         | _ \<Rightarrow>
             (if is_active g
              then (Inr (st\<lparr>gate_at := Some (time_add now (clamp_wake (next_wake now g)))\<rparr>), s)
              else (Inr st, s)))"

definition demote :: "classification \<Rightarrow> classification" where
  \<comment> \<open>a spontaneous zero exit is unexpected\<close>
  "demote cls = (if cls = ClassGraceful then ClassUnexpected else cls)"

definition on_event ::
  "config \<Rightarrow> string \<Rightarrow> event \<Rightarrow> sess \<Rightarrow> sup \<Rightarrow> (spawn_outcome + sess) \<times> sup" where
  "on_event c v e st s =
     (case e_kind e of
        SelDone reply \<Rightarrow>
          (let (info, s) = stop reply s
           in (Inl \<lparr>o_kind = OutStopped, o_info = info\<rparr>,
               record_history EvStop v (Some (code info)) [] s))
      | SelExit ws \<Rightarrow>
          (let info = from_process_state ws;
               (out, s) = classify_outcome v info (demote (classify_exit_code info)) s
           in (Inl out, s))
      | SelStart reply \<Rightarrow>
          (if cur st = Starting then
             (let (info, s) = stop reply s; (out, s) = classify_outcome v info ClassUnexpected s
              in (Inl out, s))
           else (Inr (st\<lparr>start_at := None\<rparr>), s))
      | SelWatchdog reply \<Rightarrow>
          (let (info, s) = stop reply s; (out, s) = classify_outcome v info ClassUnexpected s
           in (Inl out, s))
      | SelGate reply \<Rightarrow> on_gate_timer c v (e_at e) reply st s
      | SelMsg \<Rightarrow>
          (case s_queue s of
             [] \<Rightarrow> (Inr st, s)
           | m # q \<Rightarrow>
               (case on_kinds c (e_at e) (kinds m) st (s\<lparr>s_queue := q\<rparr>) of (st, s) \<Rightarrow> (Inr st, s)))
      | SelClosed \<Rightarrow> (Inr st, s)
      | Arrive d \<Rightarrow> (Inr st, s\<lparr>s_queue := serve_datagram d (s_queue s)\<rparr>)
      | Hup \<Rightarrow> (Inr st, forward_hup s))"

definition due :: "instant option \<Rightarrow> instant \<Rightarrow> bool" where
  "due timer now \<longleftrightarrow> (case timer of None \<Rightarrow> False | Some t \<Rightarrow> t \<le> now)"

definition enabled :: "event \<Rightarrow> sess \<Rightarrow> sup \<Rightarrow> bool" where
  \<comment> \<open>which branches of the select are ready; the environment decides about the others\<close>
  "enabled e st s \<longleftrightarrow>
     (case e_kind e of
        SelStart _ \<Rightarrow> due (start_at st) (e_at e)
      | SelWatchdog _ \<Rightarrow> due (watchdog_at st) (e_at e)
      | SelGate _ \<Rightarrow> due (gate_at st) (e_at e)
      | SelMsg \<Rightarrow> s_queue s \<noteq> []
      | _ \<Rightarrow> True)"

fun select_loop ::
  "config \<Rightarrow> string \<Rightarrow> event list \<Rightarrow> sess \<Rightarrow> sup \<Rightarrow> (spawn_outcome + sess) \<times> sup" where
  \<comment> \<open>an event whose branch is not ready is not taken; a list that ends before an outcome
    leaves the worker running\<close>
  "select_loop c v [] st s = (Inr st, s)"
| "select_loop c v (e # es) st s =
     (if enabled e st s then
        (case on_event c v e st s of
           (Inl out, s') \<Rightarrow> (Inl out, s')
         | (Inr st', s') \<Rightarrow> select_loop c v es st' s')
      else select_loop c v es st s)"

definition start_session :: "config \<Rightarrow> instant \<Rightarrow> sup \<Rightarrow> sess" where
  \<comment> \<open>the timers as they stand when the loop is entered\<close>
  "start_session c now s =
     \<lparr>cur = Starting, start_at = Some (time_add now (c_start_timeout c)), watchdog_at = None,
      gate_at = (if is_active (s_gate s) then Some (time_add now (next_wake now (s_gate s)))
                 else None)\<rparr>"

datatype spawn_try = StartFails string | Started int  \<comment> \<open>\<^verbatim>\<open>cmd.Start\<close>: the error's text or the pid\<close>

definition end_session :: "config \<Rightarrow> sup \<Rightarrow> sup" where
  \<comment> \<open>the deferred function\<close>
  "end_session c s = clear_pid_file c (s\<lparr>s_current := None\<rparr>)"

definition run_one_spawn ::
  "config \<Rightarrow> string \<Rightarrow> spawn_try \<Rightarrow> instant \<Rightarrow> event list \<Rightarrow> sup \<Rightarrow> spawn_outcome option \<times> sup" where
  \<comment> \<open>\<open>None\<close>: the events end while the worker is still being supervised\<close>
  "run_one_spawn c v att now es s =
     (let s = record_history EvSpawn v None [] s
      in case att of
           StartFails err \<Rightarrow>
             (Some \<lparr>o_kind = OutSpawnFailure, o_info = \<lparr>code = 71, signaled = False\<rparr>\<rparr>,
              record_history EvCrash v (Some 71) (''spawn-failed: '' @ err) s)
         | Started pid \<Rightarrow>
             (let s = write_pid_file c pid (s\<lparr>s_current := Some pid\<rparr>)
              in case select_loop c v es (start_session c now s) s of
                   (Inl out, s) \<Rightarrow> (Some out, end_session c s)
                 | (Inr _, s) \<Rightarrow> (None, s)))"

subsection \<open>What a branch leaves alone\<close>

lemma stop_frame [frame, simp]:
  "s_log (snd (stop r s)) = s_log s" "s_fs (snd (stop r s)) = s_fs s"
  "s_gate (snd (stop r s)) = s_gate s" "s_tracker (snd (stop r s)) = s_tracker s"
  "s_queue (snd (stop r s)) = s_queue s" "s_current (snd (stop r s)) = s_current s"
  by (auto simp: stop_def send_signal_def Let_def split: stop_reply.split option.split)

lemma send_signal_frame [frame, simp]:
  "s_log (send_signal k s) = s_log s" "s_fs (send_signal k s) = s_fs s"
  "s_gate (send_signal k s) = s_gate s" "s_tracker (send_signal k s) = s_tracker s"
  "s_queue (send_signal k s) = s_queue s" "s_current (send_signal k s) = s_current s"
  by (auto simp: send_signal_def split: option.split)

lemma record_history_frame [frame, simp]:
  "s_fs (record_history e v c r s) = s_fs s" "s_gate (record_history e v c r s) = s_gate s"
  "s_tracker (record_history e v c r s) = s_tracker s"
  "s_queue (record_history e v c r s) = s_queue s"
  "s_current (record_history e v c r s) = s_current s"
  "s_signals (record_history e v c r s) = s_signals s"
  "s_log (record_history e v c r s) =
     s_log s @ [\<lparr>h_time = 0, h_event = e, h_version = v, h_exit = c, h_reason = r\<rparr>]"
  by (simp_all add: record_history_def)

lemma on_ready_kind_frame:
  assumes "on_ready_kind c now st s = (st', s')"
  shows "s_log s' = s_log s" "s_fs s' = s_fs s" "s_current s' = s_current s"
    "s_queue s' = s_queue s"
  using assms by (auto simp: on_ready_kind_def Let_def split: if_splits)

lemma on_notify_frame:
  assumes "on_notify c now k st s = (st', s')"
  shows "s_log s' = s_log s" "s_fs s' = s_fs s" "s_current s' = s_current s"
    "s_queue s' = s_queue s"
  using assms on_ready_kind_frame by (auto simp: on_notify_def split: notify_kind.splits if_splits)

lemma on_kinds_frame:
  "on_kinds c now ks st s = (st', s') \<Longrightarrow>
   s_log s' = s_log s \<and> s_fs s' = s_fs s \<and> s_current s' = s_current s \<and> s_queue s' = s_queue s"
proof (induction ks arbitrary: st s)
  case (Cons k ks)
  obtain st1 s1 where k: "on_notify c now k st s = (st1, s1)" by fastforce
  from Cons.IH [of st1 s1] Cons.prems k on_notify_frame [OF k] show ?case by simp
qed simp

lemma on_kinds_snd [simp]:
  "s_log (snd (on_kinds c now ks st s)) = s_log s" "s_fs (snd (on_kinds c now ks st s)) = s_fs s"
  "s_current (snd (on_kinds c now ks st s)) = s_current s"
  "s_queue (snd (on_kinds c now ks st s)) = s_queue s"
  using on_kinds_frame [OF surjective_pairing] by auto

lemma on_event_going:
  \<comment> \<open>a branch that does not end the session: no history, and the file system changes only
    by the deletion of the marker\<close>
  assumes "on_event c v e st s = (Inr st', s')"
  shows "s_log s' = s_log s \<and> s_current s' = s_current s
    \<and> (s_fs s' = s_fs s \<or> s_fs s' = snd (delete_gate_marker (c_root c) (s_fs s)))"
  using assms
  by (auto simp: on_event_def on_gate_timer_def forward_hup_def split_def Let_def
      dest!: on_kinds_frame split: event_kind.splits if_splits list.splits gate_outcome.splits
        prod.splits)

lemma on_event_done:
  \<comment> \<open>a branch that ends the session logs exactly one entry\<close>
  assumes "on_event c v e st s = (Inl out, s')"
  shows "\<exists>h. s_log s' = s_log s @ [h] \<and> h_time h = 0 \<and> h_version h = v \<and> h_exit h = Some (code (o_info out))
      \<and> h_event h = (if o_kind out = OutStopped then EvStop else EvCrash)
    \<and> s_fs s' = s_fs s \<and> s_current s' = s_current s"
  using assms
  by (auto simp: on_event_def on_gate_timer_def classify_outcome_def split_def Let_def
      split: event_kind.splits if_splits list.splits gate_outcome.splits classification.splits
        prod.splits)


text \<open>
  \<open>select_loop\<close> one branch at a time: the induction the session properties share.
\<close>

lemma select_loop_invariant:
  assumes "select_loop c v es st s = (r, s')" and "P st s"
    and "\<forall>e \<in> set es. \<forall>st s st' s'. P st s \<and> enabled e st s
      \<and> on_event c v e st s = (Inr st', s') \<longrightarrow> P st' s'"
  shows "case r of Inr st' \<Rightarrow> P st' s'
    | Inl out \<Rightarrow> (\<exists>e st1 s1. e \<in> set es \<and> P st1 s1 \<and> enabled e st1 s1 \<and>
        on_event c v e st1 s1 = (Inl out, s'))"
  using assms
proof (induction es arbitrary: st s)
  case (Cons e es)
  have tail: "\<forall>e \<in> set es. \<forall>st s st' s'. P st s \<and> enabled e st s
      \<and> on_event c v e st s = (Inr st', s') \<longrightarrow> P st' s'"
    using Cons.prems(3) by (meson list.set_intros(2))
  show ?case
  proof (cases "enabled e st s")
    case False
    with Cons.prems(1) have "select_loop c v es st s = (r, s')" by simp
    from Cons.IH [OF this Cons.prems(2) tail] have "case r of Inr st' \<Rightarrow> P st' s'
      | Inl out \<Rightarrow> (\<exists>e st1 s1. e \<in> set es \<and> P st1 s1 \<and> enabled e st1 s1 \<and>
          on_event c v e st1 s1 = (Inl out, s'))" .
    then show ?thesis by (cases r) (simp_all, blast)
  next
    case True
    show ?thesis
    proof (cases "on_event c v e st s")
      case (Pair r1 s1)
      show ?thesis
      proof (cases r1)
        case (Inl out)
        with Pair True Cons.prems(1) have "r = Inl out" "on_event c v e st s = (Inl out, s')"
          by auto
        with True Cons.prems(2) show ?thesis by simp blast
      next
        case (Inr st1)
        with Pair True Cons.prems(1) have l: "select_loop c v es st1 s1 = (r, s')" by simp
        have "P st1 s1"
          using Cons.prems(2,3) True Pair Inr by (meson list.set_intros(1))
        from Cons.IH [OF l this tail] have "case r of Inr st' \<Rightarrow> P st' s'
          | Inl out \<Rightarrow> (\<exists>e st1 s1. e \<in> set es \<and> P st1 s1 \<and> enabled e st1 s1 \<and>
              on_event c v e st1 s1 = (Inl out, s'))" .
        then show ?thesis by (cases r) (simp_all, blast)
      qed
    qed
  qed
qed auto

subsection \<open>A hung worker is caught\<close>

definition sess_ok :: "config \<Rightarrow> instant \<Rightarrow> event set \<Rightarrow> sess \<Rightarrow> bool" where
  \<comment> \<open>some timer always watches the worker, and it says when\<close>
  "sess_ok c t0 es st \<longleftrightarrow>
     (case cur st of
        Starting \<Rightarrow> start_at st = Some (t0 + c_start_timeout c) \<and> watchdog_at st = None
      | Running \<Rightarrow> start_at st = None \<and>
          (\<exists>e \<in> es. e_kind e = SelMsg \<and> watchdog_at st = Some (e_at e + c_watchdog c)))"

lemma on_kinds_ok:
  assumes "sess_ok c t0 es st" "e \<in> es" "e_kind e = SelMsg"
  shows "sess_ok c t0 es (fst (on_kinds c (e_at e) ks st s))"
  using assms(1)
proof (induction ks arbitrary: st s)
  case (Cons k ks)
  have "sess_ok c t0 es (fst (on_notify c (e_at e) k st s))"
    using Cons.prems assms(2,3)
    by (auto simp: sess_ok_def on_notify_def on_ready_kind_def Let_def time_add_def
        split: st_label.splits notify_kind.splits)
  with Cons.IH show ?case by (simp add: split_def)
qed simp

lemma on_event_ok:
  assumes "on_event c v e st s = (Inr st', s')" "sess_ok c t0 es st" "e \<in> es" "enabled e st s"
  shows "sess_ok c t0 es st'"
proof (cases "e_kind e = SelMsg")
  case True
  with assms on_kinds_ok show ?thesis
    by (auto simp: on_event_def split_def split: list.splits)
next
  case False
  with assms show ?thesis
    by (auto simp: on_event_def on_gate_timer_def sess_ok_def split_def Let_def enabled_def due_def
        split: event_kind.splits if_splits gate_outcome.splits prod.splits st_label.splits)
qed

lemma select_loop_ok:
  assumes "select_loop c v es (start_session c t0 s) s = (Inr st', s')"
  shows "sess_ok c t0 (set es) st'"
proof -
  have "sess_ok c t0 (set es) (start_session c t0 s)"
    by (simp add: sess_ok_def start_session_def time_add_def)
  from select_loop_invariant [OF assms, where P = "\<lambda>st s. sess_ok c t0 (set es) st", OF this]
  show ?thesis using on_event_ok by fastforce
qed

text \<open>
  C10: at every moment of a session one timer guards the worker: the start timer, set at the
  spawn, until READY was taken, then the watchdog timer, set by the last accepted READY or
  WATCHDOG message. From its expiry on its branch is ready, and taking it sends SIGTERM and
  reports a crash, whatever status the worker then exits with.
\<close>
theorem hung_worker_caught:
  assumes "select_loop c v es (start_session c t0 s) s = (Inr st', s')"
  shows "\<exists>due_at. due_at \<in> insert (t0 + c_start_timeout c)
        ((\<lambda>e. e_at e + c_watchdog c) ` {e \<in> set es. e_kind e = SelMsg})
    \<and> (\<forall>now reply. due_at \<le> now \<longrightarrow> (\<exists>k \<in> {SelStart reply, SelWatchdog reply}. \<exists>out s''.
          select_loop c v [\<lparr>e_at = now, e_kind = k\<rparr>] st' s' = (Inl out, s'')
        \<and> o_kind out = OutCrash
        \<and> (\<forall>pid. s_current s' = Some pid \<longrightarrow> (pid, sigterm) \<in> set (s_signals s''))))"
proof -
  note ok = select_loop_ok [OF assms]
  have sig: "(pid, sigterm) \<in> set (s_signals (snd (stop reply s')))"
    if "s_current s' = Some pid" for reply pid
    using that by (auto simp: stop_def send_signal_def Let_def split: stop_reply.split)
  show ?thesis
  proof (cases "cur st'")
    case Starting
    then have t: "start_at st' = Some (t0 + c_start_timeout c)" using ok by (simp add: sess_ok_def)
    show ?thesis
      by (rule exI [of _ "t0 + c_start_timeout c"])
        (auto simp: Starting t enabled_def due_def on_event_def classify_outcome_def split_def
          Let_def sig)
  next
    case Running
    then obtain e where e: "e \<in> set es" "e_kind e = SelMsg"
      "watchdog_at st' = Some (e_at e + c_watchdog c)" using ok by (auto simp: sess_ok_def)
    then show ?thesis
      by (intro exI [of _ "e_at e + c_watchdog c"])
        (auto simp: Running enabled_def due_def on_event_def classify_outcome_def split_def
          Let_def sig)
  qed
qed

definition demo_config :: config where
  "demo_config = \<lparr>c_root = ''/r'', c_binary = ''clawmast'', c_args = [], c_env = [],
     c_start_timeout = seconds 30, c_watchdog = seconds 30, c_stop_grace = seconds 10,
     c_backoff = new_backoff, c_gate_window = seconds 90, c_gate_stable = seconds 15,
     c_socket = ''/r/run/notify.sock'', c_history = ''/r/state/history.json'',
     c_blacklist = ''/r/state/blacklist.json'', c_run_dir = ''/r/run'', c_resolve = None\<rparr>"

definition demo_sup :: "fsys \<Rightarrow> sup" where
  "demo_sup f = \<lparr>s_fs = f, s_log = [], s_tracker = new_tracker new_backoff,
     s_gate = new_gate 0 0, s_queue = [], s_current = Some 7, s_signals = [], s_sleeps = []\<rparr>"

lemma ready_frame: "parse_notify_frame ''READY=1'' = \<lparr>kinds = [NotifyReady], raw = ''READY=1''\<rparr>"
  by (simp add: parse_notify_frame_def line_kind_def trim_right_byte_def cut_on_def
      map_filter_simps)

lemmas select_eval = on_event_def enabled_def due_def serve_datagram_def ready_frame
  enqueue_def queue_capacity_def on_notify_def on_ready_kind_def time_add_def Let_def
  start_session_def is_active_def classify_outcome_def classify_exit_code_def demote_def

lemma hung_worker_caught_witness:
  "\<exists>st' s' k out s''.
     select_loop demo_config ''v1''
       [\<lparr>e_at = seconds 101, e_kind = Arrive ''READY=1''\<rparr>, \<lparr>e_at = seconds 102, e_kind = SelMsg\<rparr>]
       (start_session demo_config (seconds 100) (demo_sup \<lparr>nodes = Map.empty, faults = []\<rparr>))
       (demo_sup \<lparr>nodes = Map.empty, faults = []\<rparr>) = (Inr st', s') \<and> cur st' = Running
   \<and> select_loop demo_config ''v1''
       [\<lparr>e_at = seconds 132, e_kind = k\<rparr>] st' s' = (Inl out, s'')
   \<and> o_kind out = OutCrash"
proof -
  let ?s = "demo_sup \<lparr>nodes = Map.empty, faults = []\<rparr>"
  let ?es = "[\<lparr>e_at = seconds 101, e_kind = Arrive ''READY=1''\<rparr>, \<lparr>e_at = seconds 102, e_kind = SelMsg\<rparr>]"
  obtain st' s' where l: "select_loop demo_config ''v1'' ?es
      (start_session demo_config (seconds 100) ?s) ?s = (Inr st', s')" "cur st' = Running"
    by (simp add: select_eval demo_sup_def demo_config_def new_gate_def)
  have "\<exists>due_at. due_at \<in> insert (seconds 100 + c_start_timeout demo_config)
        ((\<lambda>e. e_at e + c_watchdog demo_config) ` {e \<in> set ?es. e_kind e = SelMsg})
    \<and> (\<forall>now reply. due_at \<le> now \<longrightarrow> (\<exists>k \<in> {SelStart reply, SelWatchdog reply}. \<exists>out s''.
          select_loop demo_config ''v1'' [\<lparr>e_at = now, e_kind = k\<rparr>] st' s' = (Inl out, s'')
        \<and> o_kind out = OutCrash
        \<and> (\<forall>pid. s_current s' = Some pid \<longrightarrow> (pid, sigterm) \<in> set (s_signals s''))))"
    by (rule hung_worker_caught [OF l(1)])
  then obtain due_at where d: "due_at \<in> insert (seconds 100 + c_start_timeout demo_config)
        ((\<lambda>e. e_at e + c_watchdog demo_config) ` {e \<in> set ?es. e_kind e = SelMsg})"
    "\<forall>now reply. due_at \<le> now \<longrightarrow> (\<exists>k \<in> {SelStart reply, SelWatchdog reply}. \<exists>out s''.
          select_loop demo_config ''v1'' [\<lparr>e_at = now, e_kind = k\<rparr>] st' s' = (Inl out, s'')
        \<and> o_kind out = OutCrash
        \<and> (\<forall>pid. s_current s' = Some pid \<longrightarrow> (pid, sigterm) \<in> set (s_signals s'')))" by blast
  have "due_at \<le> seconds 132" using d(1) by (auto simp: demo_config_def)
  with d(2) [rule_format, of "seconds 132" "Reaped None"] l show ?thesis by blast
qed

subsection \<open>Only the worker's own exit drives policy\<close>

lemma run_one_spawn_outcomes:
  assumes "run_one_spawn c v att now es s = (Some out, s')"
  shows "(o_kind out = OutNoRestart \<longrightarrow> (\<exists>e \<in> set es. e_kind e = SelExit (Some (Exited 64)))) \<and>
    (o_kind out = OutRollback \<longrightarrow> (\<exists>e \<in> set es. e_kind e = SelExit (Some (Exited 65)))) \<and>
    (o_kind out = OutStopped \<longrightarrow> (\<exists>e \<in> set es. \<exists>r. e_kind e = SelDone r))"
proof (cases att)
  case (StartFails err)
  with assms show ?thesis by (auto simp: run_one_spawn_def)
next
  case (Started pid)
  let ?s = "write_pid_file c pid (record_history EvSpawn v None [] s\<lparr>s_current := Some pid\<rparr>)"
  obtain r s1 where l: "select_loop c v es (start_session c now ?s) ?s = (r, s1)" by fastforce
  with assms Started have r: "r = Inl out" by (auto simp: run_one_spawn_def Let_def split: sum.splits)
  from select_loop_invariant [OF l, where P = "\<lambda>_ _. True"] r
  obtain e st2 s2 where e: "e \<in> set es" "on_event c v e st2 s2 = (Inl out, s1)" by auto
  have ws: "ws = Some (Exited 64)" if "classify_exit_code (from_process_state ws) = ClassNoRestart" for ws
    using that by (cases ws rule: from_process_state.cases) (auto simp: classify_exit_code_def split: if_splits)
  have ws': "ws = Some (Exited 65)" if "classify_exit_code (from_process_state ws) = ClassRollback" for ws
    using that by (cases ws rule: from_process_state.cases) (auto simp: classify_exit_code_def split: if_splits)
  from e(2) have "(o_kind out = OutNoRestart \<longrightarrow> e_kind e = SelExit (Some (Exited 64))) \<and>
    (o_kind out = OutRollback \<longrightarrow> e_kind e = SelExit (Some (Exited 65))) \<and>
    (o_kind out = OutStopped \<longrightarrow> (\<exists>r. e_kind e = SelDone r))"
    by (auto simp: on_event_def on_gate_timer_def classify_outcome_def demote_def split_def Let_def
        dest: ws ws' split: event_kind.splits if_splits list.splits gate_outcome.splits
          classification.splits prod.splits)
  with e(1) show ?thesis by blast
qed

lemma run_one_spawn_no_restart:
  "run_one_spawn c v att now es s = (Some out, s') \<Longrightarrow> o_kind out = OutNoRestart \<Longrightarrow>
   \<exists>e \<in> set es. e_kind e = SelExit (Some (Exited 64))"
  using run_one_spawn_outcomes by blast

lemma run_one_spawn_stopped:
  "run_one_spawn c v att now es s = (Some out, s') \<Longrightarrow> o_kind out = OutStopped \<Longrightarrow>
   \<exists>e \<in> set es. \<exists>r. e_kind e = SelDone r"
  using run_one_spawn_outcomes by blast

text \<open>
  The supervisor stops for good, or rolls back on request, only when the worker process
  itself exited with status 64 or 65. A worker that exits with those codes because it was
  stopped (start timeout, watchdog, gate deadline, shutdown), or that dies from a signal of
  that number, does not trigger them.
\<close>
theorem policy_outcomes_genuine:
  assumes "run_one_spawn c v att now es s = (Some out, s')"
  shows "(o_kind out = OutNoRestart \<longrightarrow> (\<exists>e \<in> set es. e_kind e = SelExit (Some (Exited 64)))) \<and>
    (o_kind out = OutRollback \<longrightarrow> (\<exists>e \<in> set es. e_kind e = SelExit (Some (Exited 65)))) \<and>
    (o_kind out = OutStopped \<longrightarrow> (\<exists>e \<in> set es. \<exists>r. e_kind e = SelDone r))"
  by (rule run_one_spawn_outcomes [OF assms])

subsection \<open>The history of a spawn\<close>

lemma write_pid_frame [frame, simp]:
  "s_log (write_pid_file c pid s) = s_log s" "s_gate (write_pid_file c pid s) = s_gate s"
  "s_tracker (write_pid_file c pid s) = s_tracker s" "s_queue (write_pid_file c pid s) = s_queue s"
  "s_current (write_pid_file c pid s) = s_current s"
  by (simp_all add: write_pid_file_def)

lemma end_session_frame [frame, simp]:
  "s_log (end_session c s) = s_log s" "s_gate (end_session c s) = s_gate s"
  "s_tracker (end_session c s) = s_tracker s" "s_queue (end_session c s) = s_queue s"
  "s_current (end_session c s) = None"
  by (simp_all add: end_session_def clear_pid_file_def)

lemma select_loop_log:
  assumes "select_loop c v es st s = (r, s')"
  shows "case r of Inr _ \<Rightarrow> s_log s' = s_log s
    | Inl out \<Rightarrow> (\<exists>h. s_log s' = s_log s @ [h] \<and> h_time h = 0 \<and> h_version h = v \<and> h_exit h = Some (code (o_info out))
        \<and> h_event h = (if o_kind out = OutStopped then EvStop else EvCrash))"
  using select_loop_invariant [OF assms, where P = "\<lambda>_ s1. s_log s1 = s_log s"] on_event_going
    on_event_done
  by (cases r) (simp, metis, simp, metis)

lemma spawn_accounted_log:
  \<comment> \<open>the part of the account that mentions spawns only\<close>
  assumes "run_one_spawn c v att now es s = (r, s')"
  shows "\<exists>new. s_log s' = s_log s @ new \<and> (\<forall>h \<in> set new. h_event h = EvSpawn \<longrightarrow> h_version h = v)"
proof (cases att)
  case (Started pid)
  let ?s = "write_pid_file c pid (record_history EvSpawn v None [] s\<lparr>s_current := Some pid\<rparr>)"
  obtain q s1 where l: "select_loop c v es (start_session c now ?s) ?s = (q, s1)" by fastforce
  from select_loop_log [OF l] assms Started l show ?thesis
    by (cases q) (auto simp: run_one_spawn_def Let_def)
qed (use assms in \<open>auto simp: run_one_spawn_def\<close>)

text \<open>
  The ledger accounts for every worker. A finished spawn adds exactly two entries, the
  spawn and then one end of the same version that carries the exit code the loop acts on (71
  when the binary could not be started); the end is a stop only after a shutdown request and
  a crash otherwise. While the worker is supervised only the spawn is there. The session
  handle is gone exactly when the spawn is over.
\<close>
theorem spawn_accounted:
  assumes "run_one_spawn c v att now es s = (r, s')"
  shows "\<exists>tail. s_log s' = s_log s @ \<lparr>h_time = 0, h_event = EvSpawn, h_version = v, h_exit = None,
        h_reason = []\<rparr> # tail
    \<and> (case r of
        None \<Rightarrow> tail = [] \<and> (\<exists>pid. att = Started pid \<and> s_current s' = Some pid)
      | Some out \<Rightarrow> (\<exists>reason. tail = [\<lparr>h_time = 0,
          h_event = (if o_kind out = OutStopped then EvStop else EvCrash), h_version = v,
          h_exit = Some (code (o_info out)), h_reason = reason\<rparr>])
          \<and> (s_current s = None \<longrightarrow> s_current s' = None))"
proof (cases att)
  case (StartFails err)
  with assms show ?thesis by (auto simp: run_one_spawn_def)
next
  case (Started pid)
  let ?s = "write_pid_file c pid (record_history EvSpawn v None [] s\<lparr>s_current := Some pid\<rparr>)"
  obtain q s1 where l: "select_loop c v es (start_session c now ?s) ?s = (q, s1)" by fastforce
  note log = select_loop_log [OF l]
  show ?thesis
  proof (cases q)
    case (Inr st)
    have "s_current s1 = Some pid"
      using select_loop_invariant [OF l, where P = "\<lambda>_ s1. s_current s1 = Some pid"] on_event_going Inr
      by simp metis
    with assms Started l log Inr show ?thesis by (auto simp: run_one_spawn_def Let_def)
  next
    case (Inl out)
    with log obtain h where h: "s_log s1 = s_log ?s @ [h]" "h_time h = 0" "h_version h = v"
      "h_exit h = Some (code (o_info out))"
      "h_event h = (if o_kind out = OutStopped then EvStop else EvCrash)" by auto
    with assms Started l h Inl show ?thesis by (cases h) (auto simp: run_one_spawn_def Let_def)
  qed
qed

lemma spawn_accounted_witness:
  "\<exists>out s'. run_one_spawn demo_config ''v1'' (StartFails ''no such file'') 0 []
      (demo_sup \<lparr>nodes = Map.empty, faults = []\<rparr>) = (Some out, s')
    \<and> map h_event (s_log s') = [EvSpawn, EvCrash] \<and> map h_exit (s_log s') = [None, Some 71]"
proof -
  obtain out s' where r: "run_one_spawn demo_config ''v1'' (StartFails ''no such file'') 0 []
      (demo_sup \<lparr>nodes = Map.empty, faults = []\<rparr>) = (Some out, s')" "o_kind out = OutSpawnFailure"
    "code (o_info out) = 71"
    by (simp add: run_one_spawn_def)
  from spawn_accounted [OF r(1)] r show ?thesis by (auto simp: demo_sup_def)
qed

lemma policy_outcomes_genuine_witness:
  "\<exists>out s'. run_one_spawn demo_config ''v1'' (Started 7) 0
      [\<lparr>e_at = seconds 30, e_kind = SelStart (Reaped (Some (Exited 64)))\<rparr>]
      (demo_sup \<lparr>nodes = Map.empty, faults = []\<rparr>) = (Some out, s')
    \<and> o_kind out \<noteq> OutNoRestart"
proof -
  obtain out s' where r: "run_one_spawn demo_config ''v1'' (Started 7) 0
      [\<lparr>e_at = seconds 30, e_kind = SelStart (Reaped (Some (Exited 64)))\<rparr>]
      (demo_sup \<lparr>nodes = Map.empty, faults = []\<rparr>) = (Some out, s')"
    by (simp add: run_one_spawn_def select_eval demo_config_def split_def)
  from policy_outcomes_genuine [OF r] r show ?thesis by auto
qed

text \<open>
  A notification carries no sender. A READY of an earlier worker that is still queued
  when the next one is spawned is taken for the new worker's: its first select may already
  reach Running, the start timeout is then never enforced, and the install gate begins to
  count stable time, before the new worker has sent anything.
\<close>
theorem stale_ready_accepted:
  assumes "s_queue s = m # q" and "NotifyReady \<in> set (kinds m)" and "att = Started pid"
  shows "\<exists>st' s'. run_one_spawn c v att t0 [\<lparr>e_at = t, e_kind = SelMsg\<rparr>] s = (None, s')
    \<and> select_loop c v [\<lparr>e_at = t, e_kind = SelMsg\<rparr>]
        (start_session c t0 (write_pid_file c pid (record_history EvSpawn v None [] s\<lparr>s_current := Some pid\<rparr>)))
        (write_pid_file c pid (record_history EvSpawn v None [] s\<lparr>s_current := Some pid\<rparr>)) = (Inr st', s')
    \<and> cur st' = Running \<and> start_at st' = None
    \<and> (gstate (s_gate s) = GateArmed \<longrightarrow> gstate (s_gate s') = GateStabilizing \<and> ready_at (s_gate s') = t)"
proof -
  have run: "cur (fst (on_kinds c t ks st s)) = Running \<and> start_at (fst (on_kinds c t ks st s)) = None
     \<and> s_gate (snd (on_kinds c t ks st s)) = s_gate s"
    if "cur st = Running" "start_at st = None" for ks st s
    using that
  proof (induction ks arbitrary: st s)
    case (Cons k ks)
    then show ?case by (cases k) (simp_all add: on_notify_def on_ready_kind_def)
  qed simp
  have go: "cur (fst (on_kinds c t ks st s)) = Running \<and> start_at (fst (on_kinds c t ks st s)) = None
     \<and> (gstate (s_gate s) = GateArmed \<longrightarrow> gstate (s_gate (snd (on_kinds c t ks st s))) = GateStabilizing
          \<and> ready_at (s_gate (snd (on_kinds c t ks st s))) = t)"
    if "NotifyReady \<in> set ks" "cur st = Starting" for ks st s
    using that
  proof (induction ks arbitrary: st s)
    case (Cons k ks)
    show ?case
    proof (cases "k = NotifyReady")
      case True
      have r: "cur (fst (on_notify c t k st s)) = Running" "start_at (fst (on_notify c t k st s)) = None"
        "gstate (s_gate s) = GateArmed \<longrightarrow> gstate (s_gate (snd (on_notify c t k st s))) = GateStabilizing
          \<and> ready_at (s_gate (snd (on_notify c t k st s))) = t"
        using Cons.prems(2) True
        by (auto simp: on_notify_def on_ready_kind_def Let_def on_ready_def is_active_def)
      from run [OF r(1,2)] r(3) show ?thesis by (simp add: split_def)
    next
      case False
      with Cons.prems have "on_notify c t k st s = (st, s)"
        by (cases k) (simp_all add: on_notify_def)
      with Cons False show ?thesis by simp
    qed
  qed simp
  show ?thesis
    using go [OF assms(2), of "start_session c t0 (write_pid_file c pid
        (record_history EvSpawn v None [] s\<lparr>s_current := Some pid\<rparr>))"
        "write_pid_file c pid (record_history EvSpawn v None [] s\<lparr>s_current := Some pid\<rparr>)\<lparr>s_queue := q\<rparr>"]
      assms(1,3)
    by (auto simp: run_one_spawn_def enabled_def on_event_def start_session_def split_def Let_def)
qed

definition stale_sup :: sup where
  "stale_sup = (demo_sup \<lparr>nodes = Map.empty, faults = []\<rparr>)
     \<lparr>s_queue := [\<lparr>kinds = [NotifyReady], raw = ''READY=1''\<rparr>], s_current := None\<rparr>"

lemma stale_ready_accepted_witness:
  "\<exists>s'. run_one_spawn demo_config ''v2'' (Started 8) 0 [\<lparr>e_at = 5, e_kind = SelMsg\<rparr>] stale_sup
    = (None, s')"
  using stale_ready_accepted [of stale_sup "\<lparr>kinds = [NotifyReady], raw = ''READY=1''\<rparr>" "[]"
      "Started 8" 8 demo_config "''v2''" 0 5]
  by (auto simp: stale_sup_def)

end
