(* ===== verification/Supervisor.thy ===== *)
theory Supervisor
  imports Session
begin

section \<open>The outer loop (internal/supervisor/supervisor.go, loop.go)\<close>

text \<open>
  \<open>loop_step\<close> is one iteration of \<^verbatim>\<open>Supervisor.loop\<close>; a record \<open>turn\<close> holds what the
  environment decides in it: whether the context is already cancelled, how \<^verbatim>\<open>cmd.Start\<close>
  ends, the events of the select, the clock readings, the random number and whether the
  backoff sleep ran to its end. \<open>run_loop\<close> iterates over a list of turns.
\<close>

datatype sup_error = ResolveFailed os_error | RollbackFailed swap_error | StopErr int string

subsection \<open>Construction and preparation\<close>

definition new_supervisor :: "config \<Rightarrow> fsys \<Rightarrow> config_error + config \<times> sup" where
  \<comment> \<open>\<^verbatim>\<open>New\<close>; the file system and the (empty) channel come with \<^verbatim>\<open>Run\<close>\<close>
  "new_supervisor cfg f =
     (case with_defaults cfg of
        Inl e \<Rightarrow> Inl e
      | Inr c \<Rightarrow> Inr (c, \<lparr>s_fs = f, s_log = [], s_tracker = new_tracker (c_backoff c),
          s_gate = new_gate (c_gate_window c) (c_gate_stable c), s_queue = [],
          s_current = None, s_signals = [], s_sleeps = []\<rparr>))"

fun mkdirs :: "string list \<Rightarrow> fsys \<Rightarrow> os_error option \<times> fsys" where
  "mkdirs [] f = (None, f)"
| "mkdirs (d # ds) f =
     (case os_mkdir_all d f of (Inl e, f') \<Rightarrow> (Some e, f') | (Inr _, f') \<Rightarrow> mkdirs ds f')"

definition prepare_filesystem :: "config \<Rightarrow> int \<Rightarrow> fsys \<Rightarrow> os_error option \<times> fsys" where
  "prepare_filesystem c pid f =
     (case mkdirs [c_run_dir c, dir_of (c_history c), dir_of (c_socket c)] f of
        (Some e, f) \<Rightarrow> (Some e, f)
      | (None, f) \<Rightarrow>
          (case os_write_file (path_join [c_run_dir c, ''supervisor.pid''])
                  (Text (show_int pid @ [CHR 0x0A])) f of
             (Inl e, f) \<Rightarrow> (Some e, f) | (Inr _, f) \<Rightarrow> (None, f)))"

subsection \<open>Rollback\<close>

definition rollback :: "config \<Rightarrow> string \<Rightarrow> string \<Rightarrow> string \<Rightarrow> sup \<Rightarrow> sup_error option \<times> sup" where
  "rollback c v reason stop_msg s =
     (case swap_current_previous (c_root c) (s_fs s) of
        (None, f) \<Rightarrow>
          (None, record_history EvRollback v None reason
             (s\<lparr>s_fs := f, s_tracker := reset (s_tracker s)\<rparr>))
      | (Some err, f) \<Rightarrow>
          if err \<noteq> NoRollbackTarget then (Some (RollbackFailed err), s\<lparr>s_fs := f\<rparr>)
          else (Some (StopErr 65 stop_msg),
                record_history EvStop v None (reason @ ''-no-rollback'') (s\<lparr>s_fs := f\<rparr>)))"

definition attempt_rollback :: "config \<Rightarrow> string \<Rightarrow> sup \<Rightarrow> sup_error option \<times> sup" where
  "attempt_rollback c v = rollback c v ''crash-loop'' ''crash-loop with no rollback target''"

definition attempt_worker_requested_rollback :: "config \<Rightarrow> string \<Rightarrow> sup \<Rightarrow> sup_error option \<times> sup"
where
  "attempt_worker_requested_rollback c v =
     rollback c v ''rollback-requested'' ''rollback-requested with no rollback target''"

definition attempt_spawn_failure_rollback :: "config \<Rightarrow> string \<Rightarrow> sup \<Rightarrow> sup_error option \<times> sup" where
  "attempt_spawn_failure_rollback c v =
     rollback c v ''spawn-failed'' ''spawn-failed with no rollback target''"

definition check_blacklist :: "config \<Rightarrow> string \<Rightarrow> sup \<Rightarrow> (sup_error + bool) \<times> sup" where
  "check_blacklist c v s =
     (if c_blacklist c = [] \<or> v = [] then (Inr False, s)
      else case load (c_blacklist c) (s_fs s) of
        (Inl _, f) \<Rightarrow> (Inr False, s\<lparr>s_fs := f\<rparr>)
      | (Inr es, f) \<Rightarrow>
          (let s = s\<lparr>s_fs := f\<rparr>
           in if \<not> contains es v then (Inr False, s)
              else case rollback c v ''blacklisted'' ''blacklisted version with no rollback target'' s of
                     (Some e, s) \<Rightarrow> (Inl e, s)
                   | (None, s) \<Rightarrow> (Inr True, s)))"

definition rollback_for_install_health ::
  "config \<Rightarrow> string \<Rightarrow> fail_reason \<Rightarrow> instant \<Rightarrow> sup \<Rightarrow> sup_error option \<times> sup" where
  "rollback_for_install_health c v reason now s =
     (let e = \<lparr>bl_version = v, bl_time = now, bl_reason = fail_reason_str reason\<rparr>;
          f = snd (add (c_blacklist c) e now (s_fs s));
          f = snd (delete_gate_marker (c_root c) f)
      in rollback c v (fail_reason_str reason) (fail_reason_str reason @ '' with no rollback target'')
           (s\<lparr>s_fs := f, s_gate := gate_reset (s_gate s)\<rparr>))"

subsection \<open>Arming the gate\<close>

definition prepare_gate :: "config \<Rightarrow> string \<Rightarrow> instant \<Rightarrow> sup \<Rightarrow> sup" where
  "prepare_gate c v now s =
     (let g = gate_reset (s_gate s)
      in case read_gate_marker (c_root c) (s_fs s) of
           (Inl _, f) \<Rightarrow> s\<lparr>s_fs := f, s_gate := g\<rparr>
         | (Inr m, f) \<Rightarrow>
             if m_version m = [] then s\<lparr>s_fs := f, s_gate := g\<rparr>
             else if m_version m \<noteq> v
             then s\<lparr>s_fs := snd (delete_gate_marker (c_root c) f), s_gate := g\<rparr>
             else (case arm v (m_installed_at m) now g of
                     (False, g) \<Rightarrow> s\<lparr>s_fs := snd (delete_gate_marker (c_root c) f), s_gate := g\<rparr>
                   | (True, g) \<Rightarrow> s\<lparr>s_fs := f, s_gate := g\<rparr>))"

subsection \<open>One iteration\<close>

record turn =
  t_cancelled :: bool
  t_start :: instant      \<comment> \<open>the clock in \<^verbatim>\<open>prepareGate\<close> and when the timers are set\<close>
  t_spawn :: spawn_try
  t_events :: "event list"
  t_end :: instant        \<comment> \<open>the clock after the worker ended\<close>
  t_rand :: int           \<comment> \<open>\<^verbatim>\<open>rand.IntN(4)\<close>\<close>
  t_cancelled_end :: bool    \<comment> \<open>the context is cancelled when the backoff sleep ends\<close>
  t_woken :: bool            \<comment> \<open>the cancellation ended the sleep\<close>

datatype step_result = Again | Supervising | Returned "sup_error option"

definition finish :: "sup_error option \<times> sup \<Rightarrow> step_result \<times> sup" where
  \<comment> \<open>\<^verbatim>\<open>if err := ...; err != nil { return err }; continue\<close>\<close>
  "finish p = (case p of (Some e, s) \<Rightarrow> (Returned (Some e), s) | (None, s) \<Rightarrow> (Again, s))"

definition sleep :: "bool \<Rightarrow> bool \<Rightarrow> duration \<Rightarrow> bool" where
  \<comment> \<open>\<^verbatim>\<open>sleep\<close>: whether the context is cancelled at the end, and whether the cancellation
    came first\<close>
  "sleep cancelled cancelled_first d =
     (if d \<le> 0 then \<not> cancelled else if cancelled_first then False else \<not> cancelled)"

definition after_crash :: "config \<Rightarrow> string \<Rightarrow> turn \<Rightarrow> sup \<Rightarrow> step_result \<times> sup" where
  "after_crash c v t s =
     (if is_active (s_gate s)
      then finish (rollback_for_install_health c v FailCrash (t_end t)
             (s\<lparr>s_gate := snd (on_crash (s_gate s))\<rparr>))
      else let s = s\<lparr>s_tracker := record_crash (t_end t) (s_tracker s)\<rparr>
           in if should_rollback (s_tracker s) then finish (attempt_rollback c v s)
              else (let d = delay (c_backoff c) (consecutive (s_tracker s)) (t_rand t);
                        s = s\<lparr>s_sleeps := s_sleeps s @ [d]\<rparr>
                    in if sleep (t_cancelled_end t) (t_woken t) d then (Again, s)
                       else (Returned None, s)))"

definition after_spawn ::
  "config \<Rightarrow> string \<Rightarrow> turn \<Rightarrow> spawn_outcome \<Rightarrow> sup \<Rightarrow> step_result \<times> sup" where
  "after_spawn c v t out s =
     (case o_kind out of
        OutStopped \<Rightarrow> (Returned None, s)
      | OutNoRestart \<Rightarrow>
          (Returned (Some (StopErr 64 ''worker requested no-restart'')),
           record_history EvStop v (Some 64) ''worker requested no-restart'' s)
      | OutRollback \<Rightarrow> finish (attempt_worker_requested_rollback c v s)
      | OutGateTimeout \<Rightarrow> finish (rollback_for_install_health c v FailTimeout (t_end t) s)
      | OutSpawnFailure \<Rightarrow>
          (if is_active (s_gate s)
           then finish (rollback_for_install_health c v FailSpawn (t_end t) s)
           else finish (attempt_spawn_failure_rollback c v s))
      | OutCrash \<Rightarrow> after_crash c v t s)"

definition loop_step :: "config \<Rightarrow> turn \<Rightarrow> sup \<Rightarrow> step_result \<times> sup" where
  "loop_step c t s =
     (if t_cancelled t then (Returned None, s)
      else case resolve c (s_fs s) of
        (Inl e, f) \<Rightarrow> (Returned (Some (ResolveFailed e)), s\<lparr>s_fs := f\<rparr>)
      | (Inr (path, v), f) \<Rightarrow>
     (case check_blacklist c v (s\<lparr>s_fs := f\<rparr>) of
        (Inl e, s) \<Rightarrow> (Returned (Some e), s)
      | (Inr True, s) \<Rightarrow> (Again, s)
      | (Inr False, s) \<Rightarrow>
     (case run_one_spawn c v (t_spawn t) (t_start t) (t_events t) (prepare_gate c v (t_start t) s) of
        (None, s) \<Rightarrow> (Supervising, s)
      | (Some out, s) \<Rightarrow> after_spawn c v t out s)))"

fun run_loop :: "config \<Rightarrow> turn list \<Rightarrow> sup \<Rightarrow> step_result \<times> sup" where
  "run_loop c [] s = (Again, s)"
| "run_loop c (t # ts) s =
     (case loop_step c t s of (Again, s') \<Rightarrow> run_loop c ts s' | r \<Rightarrow> r)"

subsection \<open>The paths\<close>

definition layout :: "config \<Rightarrow> bool" where
  \<comment> \<open>the supervisor resolves workers through the current link, and the paths it uses differ\<close>
  "layout c \<longleftrightarrow> c_root c \<noteq> [] \<and> resolve c = resolve_current (c_root c) (c_binary c)
     \<and> c_blacklist c \<noteq> []
     \<and> distinct [current_link (c_root c), previous_link (c_root c), swap_tmp (c_root c),
         gate_marker_path (c_root c), c_blacklist c, tmp_of (c_blacklist c),
         dir_of (c_blacklist c), pid_path c]"

lemma demo_paths:
  "current_link ''/r'' = ''/r/current''" "previous_link ''/r'' = ''/r/previous''"
  "swap_tmp ''/r'' = ''/r/.swap.tmp''" "gate_marker_path ''/r'' = ''/r/state/install-gate.json''"
  "tmp_of ''/r/state/blacklist.json'' = ''/r/state/blacklist.json.tmp''"
  "dir_of ''/r/state/blacklist.json'' = ''/r/state''" "pid_path demo_config = ''/r/run/worker.pid''"
  by code_simp+

lemma demo_layout: "layout demo_config"
proof -
  have "c_root demo_config = ''/r''" "c_blacklist demo_config = ''/r/state/blacklist.json''"
    "resolve demo_config = resolve_current (c_root demo_config) (c_binary demo_config)"
    by (simp_all add: demo_config_def resolve_def)
  then show ?thesis by (simp add: layout_def demo_paths)
qed

subsection \<open>What the steps do to the blacklist file\<close>

definition keeps :: "config \<Rightarrow> fsys \<Rightarrow> fsys \<Rightarrow> bool" where
  "keeps c f g \<longleftrightarrow> faults g = [] \<and> nodes g (c_blacklist c) = nodes f (c_blacklist c)
     \<and> nodes g (tmp_of (c_blacklist c)) = nodes f (tmp_of (c_blacklist c))"

lemma keeps_trans: "keeps c f g \<Longrightarrow> keeps c g h \<Longrightarrow> keeps c f h"
  by (simp add: keeps_def)

lemma keeps_clean: "keeps c f g \<Longrightarrow> faults g = []"
  by (simp add: keeps_def)

lemma keeps_same: "faults f = [] \<Longrightarrow> keeps c f f"
  by (simp add: keeps_def)

lemma keeps_resolve:
  assumes lay: "layout c" and clean: "faults f = []"
  shows "keeps c f (snd (resolve c f))"
  using lay clean
  by (auto simp: layout_def keeps_def resolve_current_def resolve_worker_binary_def os_readlink_def
      Let_def split: option.splits node.splits)

lemma keeps_load: "faults f = [] \<Longrightarrow> keeps c f (snd (load p f))"
  by (simp add: load_faults keeps_same)

lemma keeps_read_marker: "faults f = [] \<Longrightarrow> keeps c f (snd (read_gate_marker r f))"
  by (simp add: read_marker_fs keeps_same)

lemma keeps_delete_marker:
  assumes lay: "layout c" and clean: "faults f = []"
  shows "keeps c f (snd (delete_gate_marker (c_root c) f))"
  using lay clean
  by (auto simp: layout_def keeps_def delete_gate_marker_def os_remove_def
      split: option.splits node.splits)

lemma keeps_write_pid:
  assumes lay: "layout c" and clean: "faults f = []"
  shows "keeps c f (snd (os_write_file (pid_path c) d f))"
  using lay clean
  by (auto simp: layout_def keeps_def os_write_file_def split: option.splits node.splits)

lemma keeps_remove_pid:
  assumes lay: "layout c" and clean: "faults f = []"
  shows "keeps c f (snd (os_remove (pid_path c) f))"
  using lay clean
  by (auto simp: layout_def keeps_def os_remove_def split: option.splits node.splits)

lemma keeps_swap:
  assumes lay: "layout c" and clean: "faults f = []"
  shows "keeps c f (snd (swap_current_previous (c_root c) f))"
  using lay clean
  by (auto simp: layout_def keeps_def swap_current_previous_def swap_renames_def os_defs Let_def
      split: option.splits node.splits if_splits)


lemma save_clean_tmp:
  assumes "faults f = []" "nodes f (tmp_of p) \<noteq> Some Dir" "dir_of p \<noteq> tmp_of p"
  shows "faults (snd (save p es f)) = [] \<and> nodes (snd (save p es f)) (tmp_of p) \<noteq> Some Dir"
  using assms
  by (auto simp: save_def save_tail_def os_defs Let_def split: option.splits node.splits)

definition banned :: "config \<Rightarrow> string \<Rightarrow> fsys \<Rightarrow> bool" where
  "banned c v f \<longleftrightarrow> faults f = [] \<and> nodes f (tmp_of (c_blacklist c)) \<noteq> Some Dir
     \<and> (\<exists>es. nodes f (c_blacklist c) = Some (File (Doc (JArr (map encode_entry es)))) \<and> contains es v)"

lemma banned_keeps: "banned c v f \<Longrightarrow> keeps c f g \<Longrightarrow> banned c v g"
  by (simp add: banned_def keeps_def)

lemma banned_add:
  assumes lay: "layout c" and ban: "banned c v f"
  shows "banned c v (snd (add (c_blacklist c) e now f))"
proof (cases "bl_version e = []")
  case False
  let ?p = "c_blacklist c"
  let ?e = "if time_is_zero (bl_time e) then e\<lparr>bl_time := now\<rparr> else e"
  from ban obtain es where es: "nodes f ?p = Some (File (Doc (JArr (map encode_entry es))))"
    "contains es v" and cl: "faults f = []" "nodes f (tmp_of ?p) \<noteq> Some Dir"
    by (auto simp: banned_def)
  have d: "dir_of ?p \<noteq> tmp_of ?p" "dir_of ?p \<noteq> ?p" using lay by (auto simp: layout_def)
  obtain r f' where s: "save ?p (upsert ?e es) f = (r, f')" by fastforce
  have snd: "snd (add ?p e now f) = f'"
    using False load_clean [OF cl(1) es(1)] s by (auto simp: add_def Let_def split: option.splits)
  have "faults f' = [] \<and> nodes f' (tmp_of ?p) \<noteq> Some Dir"
    using save_clean_tmp [OF cl d(1), of "upsert ?e es"] s by simp
  moreover have "contains (upsert ?e es) v"
    using es(2) ledger.listed_mark by blast
  moreover have "nodes f' ?p = (case r of None \<Rightarrow> Some (File (Doc (JArr (map encode_entry (upsert ?e es)))))
      | Some _ \<Rightarrow> nodes f ?p)"
    using save_effect [OF s] es(1) d(2) cl(2) by (auto split: option.splits)
  ultimately show ?thesis unfolding snd banned_def using es by (cases r) auto
qed (use ban in \<open>simp add: add_def\<close>)

subsection \<open>A blacklisted version is never spawned\<close>

definition quiet :: "config \<Rightarrow> string \<Rightarrow> sup \<Rightarrow> sup \<Rightarrow> bool" where
  \<comment> \<open>from one state to a later one the ban holds and nothing of that version is spawned\<close>
  "quiet c v s s' \<longleftrightarrow> banned c v (s_fs s') \<and>
     (\<exists>new. s_log s' = s_log s @ new \<and> (\<forall>h \<in> set new. h_event h = EvSpawn \<longrightarrow> h_version h \<noteq> v))"

lemma quiet_trans: "quiet c v s t \<Longrightarrow> quiet c v t u \<Longrightarrow> quiet c v s u"
  by (fastforce simp: quiet_def)

lemma quiet_keeps:
  "banned c v (s_fs s) \<Longrightarrow> keeps c (s_fs s) (s_fs s') \<Longrightarrow> s_log s' = s_log s \<Longrightarrow> quiet c v s s'"
  by (auto simp: quiet_def banned_keeps)

lemma quiet_record:
  "banned c v (s_fs s) \<Longrightarrow> (e = EvSpawn \<Longrightarrow> w \<noteq> v) \<Longrightarrow> quiet c v s (record_history e w x r s)"
  by (auto simp: quiet_def)

lemma banned_clean: "banned c v f \<Longrightarrow> faults f = []"
  by (simp add: banned_def)

lemma rollback_quiet:
  assumes "layout c" "banned c v (s_fs s)"
  shows "quiet c v s (snd (rollback c w reason msg s))"
proof -
  have "banned c v (snd (swap_current_previous (c_root c) (s_fs s)))"
    by (rule banned_keeps [OF assms(2) keeps_swap [OF assms(1) banned_clean [OF assms(2)]]])
  then show ?thesis
    by (auto simp: rollback_def quiet_def split_def Let_def split: option.splits prod.splits)
qed

lemma install_health_quiet:
  assumes "layout c" "banned c v (s_fs s)"
  shows "quiet c v s (snd (rollback_for_install_health c w reason now s))"
proof -
  let ?e = "\<lparr>bl_version = w, bl_time = now, bl_reason = fail_reason_str reason\<rparr>"
  let ?f = "snd (add (c_blacklist c) ?e now (s_fs s))"
  have b: "banned c v ?f" by (rule banned_add [OF assms])
  let ?g = "snd (delete_gate_marker (c_root c) ?f)"
  have "banned c v ?g"
    by (rule banned_keeps [OF b keeps_delete_marker [OF assms(1) banned_clean [OF b]]])
  then have "quiet c v (s\<lparr>s_fs := ?g, s_gate := gate_reset (s_gate s)\<rparr>)
      (snd (rollback_for_install_health c w reason now s))"
    using rollback_quiet [OF assms(1)] by (simp add: rollback_for_install_health_def Let_def)
  with \<open>banned c v ?g\<close> show ?thesis by (auto simp: quiet_def)
qed

lemma finish_snd [simp]: "snd (finish p) = snd p"
  by (simp add: finish_def split: prod.splits option.splits)

lemma prepare_gate_quiet:
  assumes "layout c" "banned c v (s_fs s)"
  shows "quiet c v s (prepare_gate c w now s)"
proof -
  let ?r = "read_gate_marker (c_root c) (s_fs s)"
  have k: "keeps c (s_fs s) (snd ?r)" by (rule keeps_read_marker [OF banned_clean [OF assms(2)]])
  have "keeps c (s_fs s) (snd (delete_gate_marker (c_root c) (snd ?r)))"
    by (rule keeps_trans [OF k keeps_delete_marker [OF assms(1) keeps_clean [OF k]]])
  with k show ?thesis
    by (intro quiet_keeps [OF assms(2)])
      (auto simp: prepare_gate_def Let_def split: prod.splits sum.splits bool.splits)
qed

lemma select_loop_banned:
  assumes "layout c" "banned c v (s_fs s)" "select_loop c w es st s = (r, s')"
  shows "banned c v (s_fs s')"
proof -
  have going: "banned c v (s_fs s2)"
    if "on_event c w e st1 s1 = (Inr st2, s2)" "banned c v (s_fs s1)" for e st1 s1 st2 s2
    using on_event_going [OF that(1)] that(2)
      banned_keeps [OF that(2) keeps_delete_marker [OF assms(1) banned_clean [OF that(2)]]] by auto
  have ended: "banned c v (s_fs s2)"
    if "on_event c w e st1 s1 = (Inl out, s2)" "banned c v (s_fs s1)" for e st1 s1 out s2
    using on_event_done [OF that(1)] that(2) by auto
  have "case r of Inr st' \<Rightarrow> banned c v (s_fs s')
    | Inl out \<Rightarrow> (\<exists>e st1 s1. e \<in> set es \<and> banned c v (s_fs s1) \<and> enabled e st1 s1 \<and>
        on_event c w e st1 s1 = (Inl out, s'))"
    by (rule select_loop_invariant [OF assms(3), where P = "\<lambda>_ s1. banned c v (s_fs s1)"])
      (use assms(2) going in blast)+
  with ended show ?thesis by (cases r) auto
qed

lemma run_one_spawn_quiet:
  assumes lay: "layout c" and ban: "banned c v (s_fs s)" and ne: "w \<noteq> v"
    and run: "run_one_spawn c w att now es s = (r, s')"
  shows "quiet c v s s'"
proof -
  from spawn_accounted_log [OF run] ne obtain new where new: "s_log s' = s_log s @ new"
    "\<forall>h \<in> set new. h_event h = EvSpawn \<longrightarrow> h_version h \<noteq> v" by blast
  have "banned c v (s_fs s')"
  proof (cases att)
    case (StartFails err)
    with run ban show ?thesis by (auto simp: run_one_spawn_def)
  next
    case (Started pid)
    let ?s0 = "record_history EvSpawn w None [] s\<lparr>s_current := Some pid\<rparr>"
    let ?s = "write_pid_file c pid ?s0"
    have b: "banned c v (s_fs ?s)"
      using banned_keeps [OF ban keeps_write_pid [OF lay banned_clean [OF ban]]]
      by (simp add: write_pid_file_def)
    obtain q s1 where l: "select_loop c w es (start_session c now ?s) ?s = (q, s1)" by fastforce
    have b1: "banned c v (s_fs s1)" by (rule select_loop_banned [OF lay b l])
    have "banned c v (s_fs (end_session c s1))"
      using banned_keeps [OF b1 keeps_remove_pid [OF lay banned_clean [OF b1]]]
      by (simp add: end_session_def clear_pid_file_def)
    with b1 run Started l show ?thesis
      by (auto simp: run_one_spawn_def Let_def split: sum.splits)
  qed
  with new show ?thesis by (auto simp: quiet_def)
qed

lemma after_spawn_quiet:
  assumes "layout c" "banned c v (s_fs s)"
  shows "quiet c v s (snd (after_spawn c w t out s))"
proof -
  have q: "quiet c v s (snd (rollback c w reason msg s'))"
    if "s_fs s' = s_fs s" "s_log s' = s_log s" for reason msg s'
    using rollback_quiet [OF assms(1), of v s'] that assms(2) by (simp add: quiet_def)
  have i: "quiet c v s (snd (rollback_for_install_health c w reason now s'))"
    if "s_fs s' = s_fs s" "s_log s' = s_log s" for reason now s'
    using install_health_quiet [OF assms(1), of v s'] that assms(2) by (simp add: quiet_def)
  have e: "quiet c v s s'" if "s_fs s' = s_fs s" "s_log s' = s_log s" for s'
    using that assms(2) by (simp add: quiet_def)
  show ?thesis
    by (cases "o_kind out")
      (auto simp: after_spawn_def after_crash_def Let_def attempt_rollback_def
        attempt_worker_requested_rollback_def attempt_spawn_failure_rollback_def assms(2)
        q i e intro!: quiet_record)
qed

lemma check_blacklist_quiet:
  assumes "layout c" "banned c v (s_fs s)"
  shows "quiet c v s (snd (check_blacklist c w s))
    \<and> (fst (check_blacklist c w s) = Inr False \<longrightarrow> w \<noteq> v)"
proof -
  from assms obtain es where es: "nodes (s_fs s) (c_blacklist c) =
      Some (File (Doc (JArr (map encode_entry es))))" "contains es v" "faults (s_fs s) = []"
    by (auto simp: banned_def)
  have ne: "c_blacklist c \<noteq> []" using assms(1) by (simp add: layout_def)
  have l: "load (c_blacklist c) (s_fs s) = (Inr es, s_fs s)" by (rule load_clean [OF es(3,1)])
  have v: "v \<noteq> []" using es(2) by (simp add: contains_def)
  have e: "quiet c v s s" using assms(2) by (simp add: quiet_def)
  show ?thesis
  proof (cases "w \<noteq> [] \<and> contains es w")
    case True
    then show ?thesis
      using rollback_quiet [OF assms, of w "''blacklisted''"
          "''blacklisted version with no rollback target''"] e ne
      by (auto simp: check_blacklist_def l Let_def split: prod.splits option.splits)
  next
    case False
    with e es(2) v l show ?thesis by (auto simp: check_blacklist_def Let_def)
  qed
qed

lemma loop_step_quiet:
  assumes "layout c" "banned c v (s_fs s)"
  shows "quiet c v s (snd (loop_step c t s))"
proof -
  have e: "quiet c v s s" using assms(2) by (simp add: quiet_def)
  obtain r f where rf: "resolve c (s_fs s) = (r, f)" by fastforce
  have k: "keeps c (s_fs s) f"
    using keeps_resolve [OF assms(1) banned_clean [OF assms(2)]] rf by simp
  let ?s = "s\<lparr>s_fs := f\<rparr>"
  have q1: "quiet c v s ?s" by (rule quiet_keeps [OF assms(2)]) (use k in simp_all)
  then have b1: "banned c v (s_fs ?s)" by (simp add: quiet_def)
  show ?thesis
  proof (cases "t_cancelled t")
    case False
    show ?thesis
    proof (cases r)
      case (Inr pw)
      then obtain p w where pw: "r = Inr (p, w)" by (cases pw) auto
      obtain b s2 where cb: "check_blacklist c w ?s = (b, s2)" by fastforce
      from check_blacklist_quiet [OF assms(1) b1, of w] cb
      have q2: "quiet c v s s2" and ne: "b = Inr False \<Longrightarrow> w \<noteq> v"
        using quiet_trans [OF q1] by auto
      show ?thesis
      proof (cases "b = Inr False")
        case True
        have b2: "banned c v (s_fs s2)" using q2 by (simp add: quiet_def)
        let ?g = "prepare_gate c w (t_start t) s2"
        have q3: "quiet c v s ?g" by (rule quiet_trans [OF q2 prepare_gate_quiet [OF assms(1) b2]])
        then have b3: "banned c v (s_fs ?g)" by (simp add: quiet_def)
        obtain oc s4 where run: "run_one_spawn c w (t_spawn t) (t_start t) (t_events t) ?g = (oc, s4)"
          by fastforce
        have q4: "quiet c v s s4"
          by (rule quiet_trans [OF q3 run_one_spawn_quiet [OF assms(1) b3 ne [OF True] run]])
        then have b4: "banned c v (s_fs s4)" by (simp add: quiet_def)
        show ?thesis
          using False rf pw cb True run q4 quiet_trans [OF q4 after_spawn_quiet [OF assms(1) b4]]
          by (cases oc) (simp_all add: loop_step_def)
      next
        case other: False
        with False rf pw cb q2 show ?thesis
          by (auto simp: loop_step_def split: sum.splits bool.splits)
      qed
    qed (use False rf q1 in \<open>simp add: loop_step_def\<close>)
  qed (use e in \<open>simp add: loop_step_def\<close>)
qed

lemma run_loop_quiet:
  assumes "layout c" and "banned c v (s_fs s)" and "run_loop c ts s = (r, s')"
  shows "quiet c v s s'"
  using assms(2,3)
proof (induction ts arbitrary: s)
  case (Cons t ts)
  obtain r1 s1 where l: "loop_step c t s = (r1, s1)" by fastforce
  have q: "quiet c v s s1" using loop_step_quiet [OF assms(1) Cons.prems(1), of t] l by simp
  show ?case
  proof (cases "r1 = Again")
    case True
    with Cons.prems(2) l have "run_loop c ts s1 = (r, s')" by simp
    moreover have "banned c v (s_fs s1)" using q by (simp add: quiet_def)
    ultimately have "quiet c v s1 s'" using Cons.IH [of s1] by (simp add: quiet_def)
    from quiet_trans [OF q this] show ?thesis by (simp add: quiet_def)
  next
    case False
    with Cons.prems(2) l q show ?thesis by (cases r1) (auto simp: quiet_def)
  qed
qed (simp add: quiet_def)


text \<open>
  Once a version is on the blacklist the supervisor never spawns it again. From a state
  where the file lists it, whatever the links point to and whatever the workers, the timers
  and the markers do over any number of iterations, no spawn of that version is recorded and
  the version stays listed.
\<close>
theorem blacklisted_never_spawned:
  assumes "layout c" and "banned c v (s_fs s)" and "run_loop c ts s = (r, s')"
  shows "banned c v (s_fs s') \<and> (\<exists>new. s_log s' = s_log s @ new
    \<and> (\<forall>h \<in> set new. h_event h = EvSpawn \<longrightarrow> h_version h \<noteq> v))"
  using run_loop_quiet [OF assms] by (simp add: quiet_def)

definition banned_fs :: fsys where
  "banned_fs = \<lparr>nodes = [''/r/current'' \<mapsto> Link ''versions/v2'', ''/r/previous'' \<mapsto> Link ''versions/v1'',
     ''/r/state/blacklist.json'' \<mapsto>
       File (Doc (JArr (map encode_entry [\<lparr>bl_version = ''v2'', bl_time = 5, bl_reason = []\<rparr>])))],
     faults = []\<rparr>"

definition idle_turn :: "spawn_try \<Rightarrow> turn" where
  "idle_turn a = \<lparr>t_cancelled = False, t_start = seconds 100, t_spawn = a, t_events = [],
     t_end = seconds 101, t_rand = 0, t_cancelled_end = False, t_woken = False\<rparr>"

lemma banned_demo: "banned demo_config ''v2'' banned_fs"
proof -
  have "nodes banned_fs ''/r/state/blacklist.json'' =
      Some (File (Doc (JArr (map encode_entry [\<lparr>bl_version = ''v2'', bl_time = 5, bl_reason = []\<rparr>]))))"
    by (simp add: banned_fs_def)
  moreover have "nodes banned_fs ''/r/state/blacklist.json.tmp'' = None" "faults banned_fs = []"
    by (simp_all add: banned_fs_def)
  moreover have "c_blacklist demo_config = ''/r/state/blacklist.json''" by (simp add: demo_config_def)
  ultimately show ?thesis unfolding banned_def
    by (auto simp: demo_paths contains_def
      intro!: exI [of _ "[\<lparr>bl_version = ''v2'', bl_time = 5, bl_reason = []\<rparr>]"])
qed

lemma blacklisted_never_spawned_witness:
  "\<exists>r s'. run_loop demo_config [idle_turn (StartFails ''e''), idle_turn (Started 7)]
      (demo_sup banned_fs) = (r, s')
    \<and> (\<forall>h \<in> set (s_log s'). h_event h = EvSpawn \<longrightarrow> h_version h \<noteq> ''v2'')"
proof -
  obtain r s' where l: "run_loop demo_config [idle_turn (StartFails ''e''), idle_turn (Started 7)]
      (demo_sup banned_fs) = (r, s')" by fastforce
  have "banned demo_config ''v2'' (s_fs (demo_sup banned_fs))"
    by (simp add: demo_sup_def banned_demo)
  from blacklisted_never_spawned [OF demo_layout this l] l show ?thesis by (auto simp: demo_sup_def)
qed

subsection \<open>A failed install is undone\<close>

definition serviceable :: "config \<Rightarrow> string \<Rightarrow> string \<Rightarrow> bl_entry list \<Rightarrow> fsys \<Rightarrow> bool" where
  \<comment> \<open>no call fails, the links name two versions, and the blacklist can be read and replaced\<close>
  "serviceable c a b es f \<longleftrightarrow> faults f = []
     \<and> nodes f (current_link (c_root c)) = Some (Link a)
     \<and> nodes f (previous_link (c_root c)) = Some (Link b) \<and> a \<noteq> b
     \<and> nodes f (swap_tmp (c_root c)) \<noteq> Some Dir
     \<and> nodes f (gate_marker_path (c_root c)) \<noteq> Some Dir
     \<and> load (c_blacklist c) f = (Inr es, f) \<and> (\<forall>x \<in> set es. time_encodable (bl_time x))
     \<and> nodes f (c_blacklist c) \<noteq> Some Dir \<and> nodes f (tmp_of (c_blacklist c)) \<noteq> Some Dir
     \<and> nodes f (dir_of (c_blacklist c)) \<in> {None, Some Dir}"

lemma upsert_encodable:
  assumes "time_encodable (bl_time e)" "\<forall>x \<in> set es. time_encodable (bl_time x)"
  shows "\<forall>x \<in> set (upsert e es). time_encodable (bl_time x)"
proof -
  have "\<forall>x \<in> set es'. time_encodable (bl_time x)" if "replace_first e es = Some es'" for es'
    using that assms by (induction es arbitrary: es') (auto split: if_splits)
  with assms show ?thesis by (auto simp: upsert_def split: option.splits)
qed

lemma add_serviceable:
  assumes "layout c" "serviceable c a b es f" "bl_version e \<noteq> []" "\<not> time_is_zero (bl_time e)"
    "time_encodable (bl_time e)"
  shows "\<exists>g. snd (add (c_blacklist c) e now f) = g \<and> faults g = []
    \<and> only_at {tmp_of (c_blacklist c), c_blacklist c, dir_of (c_blacklist c)} f g
    \<and> banned c (bl_version e) g"
proof -
  let ?p = "c_blacklist c"
  note sv = assms(2) [unfolded serviceable_def]
  have d: "dir_of ?p \<noteq> ?p" "dir_of ?p \<noteq> tmp_of ?p" using assms(1) by (auto simp: layout_def)
  have enc: "\<forall>x \<in> set (upsert e es). time_encodable (bl_time x)"
    using upsert_encodable [OF assms(5)] sv by blast
  from save_clean [OF _ enc] sv d obtain g where g: "save ?p (upsert e es) f = (None, g)" "faults g = []"
    "nodes g ?p = Some (File (Doc (JArr (map encode_entry (upsert e es)))))" by blast
  have "only_at {tmp_of ?p, ?p, dir_of ?p} f g" using save_effect [OF g(1)] sv d by blast
  moreover have "nodes g (tmp_of ?p) \<noteq> Some Dir"
    using save_clean_tmp [of f ?p "upsert e es"] sv d g(1) by simp
  moreover have "contains (upsert e es) (bl_version e)"
    using ledger.listed_mark assms(3) by blast
  ultimately show ?thesis
    using g sv assms(3,4) by (auto simp: add_def banned_def)
qed

lemma install_health_clean:
  assumes lay: "layout c" and sv: "serviceable c a b es (s_fs s)" and v: "v \<noteq> []"
    and now: "\<not> time_is_zero now" "time_encodable now"
  shows "\<exists>s'. rollback_for_install_health c v reason now s = (None, s')
    \<and> link_at (s_fs s') (current_link (c_root c)) = Some b
    \<and> link_at (s_fs s') (previous_link (c_root c)) = Some a
    \<and> nodes (s_fs s') (gate_marker_path (c_root c)) = None
    \<and> s_gate s' = gate_reset (s_gate s) \<and> s_tracker s' = reset (s_tracker s)
    \<and> banned c v (s_fs s') \<and> nodes (s_fs s') (swap_tmp (c_root c)) \<noteq> Some Dir"
proof -
  let ?e = "\<lparr>bl_version = v, bl_time = now, bl_reason = fail_reason_str reason\<rparr>"
  let ?m = "gate_marker_path (c_root c)"
  note d = lay [unfolded layout_def]
  obtain g where g: "snd (add (c_blacklist c) ?e now (s_fs s)) = g" "faults g = []"
    "only_at {tmp_of (c_blacklist c), c_blacklist c, dir_of (c_blacklist c)} (s_fs s) g"
    "banned c v g"
    using add_serviceable [OF lay sv, of ?e now] v now by auto
  have n: "nodes g (current_link (c_root c)) = Some (Link a)"
    "nodes g (previous_link (c_root c)) = Some (Link b)" "a \<noteq> b"
    "nodes g (swap_tmp (c_root c)) \<noteq> Some Dir" "nodes g ?m \<noteq> Some Dir"
    using g(3) sv d by (auto simp: only_at_def serviceable_def)
  let ?h = "put_node ?m None g"
  have del: "delete_gate_marker (c_root c) g = (None, ?h)" by (rule delete_clean [OF g(2) n(5)])
  have h: "faults ?h = []" "nodes ?h (current_link (c_root c)) = Some (Link a)"
    "nodes ?h (previous_link (c_root c)) = Some (Link b)" "nodes ?h (swap_tmp (c_root c)) \<noteq> Some Dir"
    using g(2) n d by auto
  have "c_root c \<noteq> []" using d by blast
  from swap_clean [OF h(1) this h(2,3) n(3) h(4)] obtain f where
    f: "swap_current_previous (c_root c) ?h = (None, f)" "faults f = []"
    "nodes f = (nodes ?h)(swap_tmp (c_root c) := None, current_link (c_root c) \<mapsto> Link b,
        previous_link (c_root c) \<mapsto> Link a)" by blast
  have b: "banned c v f"
    using banned_keeps [OF g(4) keeps_delete_marker [OF lay g(2)]] keeps_swap [OF lay h(1)] del f(1)
      banned_keeps by fastforce
  show ?thesis
    using g(1) del f b d
    by (auto simp: rollback_for_install_health_def rollback_def link_at_def)
qed

text \<open>
  A failed install is undone, for good. When the freshly installed version crashes or
  cannot be started while the gate watches it, or does not become stable in time, one
  iteration makes the previous version current again, removes the marker, retires the gate,
  clears the crash budget and lists the version as bad; no later run of the loop spawns it.
\<close>
theorem failed_install_undone:
  assumes "layout c" and "serviceable c a b es (s_fs s)" and "v \<noteq> []"
    and "\<not> time_is_zero (t_end t)" and "time_encodable (t_end t)"
    and "o_kind out = OutGateTimeout \<or>
      is_active (s_gate s) \<and> (o_kind out = OutCrash \<or> o_kind out = OutSpawnFailure)"
  shows "\<exists>s'. after_spawn c v t out s = (Again, s')
    \<and> link_at (s_fs s') (current_link (c_root c)) = Some b
    \<and> link_at (s_fs s') (previous_link (c_root c)) = Some a
    \<and> nodes (s_fs s') (gate_marker_path (c_root c)) = None
    \<and> \<not> is_active (s_gate s') \<and> consecutive (s_tracker s') = 0
    \<and> (\<forall>ts r s''. run_loop c ts s' = (r, s'') \<longrightarrow> (\<exists>new. s_log s'' = s_log s' @ new
         \<and> (\<forall>h \<in> set new. h_event h = EvSpawn \<longrightarrow> h_version h \<noteq> v)))"
proof -
  obtain reason s0 where s0: "after_spawn c v t out s =
      finish (rollback_for_install_health c v reason (t_end t) s0)"
    "s_fs s0 = s_fs s" "s_tracker s0 = s_tracker s"
    using assms(6)
    by (elim disjE conjE) (force simp: after_spawn_def after_crash_def)+
  from install_health_clean [OF assms(1), of a b es s0 v "t_end t" reason] assms(2-5) s0(2)
  obtain s' where s': "rollback_for_install_health c v reason (t_end t) s0 = (None, s')"
    "link_at (s_fs s') (current_link (c_root c)) = Some b"
    "link_at (s_fs s') (previous_link (c_root c)) = Some a"
    "nodes (s_fs s') (gate_marker_path (c_root c)) = None"
    "s_gate s' = gate_reset (s_gate s0)" "s_tracker s' = reset (s_tracker s0)"
    "banned c v (s_fs s')" by auto
  from run_loop_quiet [OF assms(1) s'(7)] s' s0 show ?thesis
    by (auto simp: finish_def consecutive_def quiet_def)
qed

definition fresh_fs :: fsys where
  "fresh_fs = \<lparr>nodes = [''/r/current'' \<mapsto> Link ''versions/v2'', ''/r/previous'' \<mapsto> Link ''versions/v1'',
     ''/r/state/install-gate.json'' \<mapsto>
       File (Doc (encode_marker \<lparr>m_version = ''v2'', m_installed_at = seconds 90\<rparr>))],
     faults = []\<rparr>"

lemma failed_install_undone_witness:
  "\<exists>s'. after_spawn demo_config ''v2'' (idle_turn (Started 7))
      \<lparr>o_kind = OutCrash, o_info = \<lparr>code = 1, signaled = False\<rparr>\<rparr>
      ((demo_sup fresh_fs)\<lparr>s_gate := armed_demo\<rparr>) = (Again, s')
    \<and> link_at (s_fs s') ''/r/current'' = Some ''versions/v1'' \<and> \<not> is_active (s_gate s')"
proof -
  have c: "c_root demo_config = ''/r''" "c_blacklist demo_config = ''/r/state/blacklist.json''"
    by (simp_all add: demo_config_def)
  have sv: "serviceable demo_config ''versions/v2'' ''versions/v1'' [] fresh_fs"
    unfolding serviceable_def c demo_paths by (simp add: fresh_fs_def load_def os_read_file_def)
  have a: "is_active armed_demo"
    by (simp add: armed_demo_def arm_def new_gate_def default_gate_window_def is_active_def
        time_add_def time_before_def)
  show ?thesis
    using failed_install_undone [OF demo_layout, of "''versions/v2''" "''versions/v1''" "[]"
        "(demo_sup fresh_fs)\<lparr>s_gate := armed_demo\<rparr>" "''v2''" "idle_turn (Started 7)"
        "\<lparr>o_kind = OutCrash, o_info = \<lparr>code = 1, signaled = False\<rparr>\<rparr>"] sv a
    by (auto simp: demo_sup_def idle_turn_def time_is_zero_def time_encodable_def c demo_paths)
qed

subsection \<open>Why the loop returns\<close>

text \<open>
  The loop returns without an error only for a cancelled context: it was cancelled at
  the head of an iteration, during a select, or by the end of a backoff sleep. No exit of a
  worker, no rollback and no gate decision makes the supervisor return nil.
\<close>
theorem nil_return_means_shutdown:
  assumes "run_loop c ts s = (Returned None, s')"
  shows "\<exists>t \<in> set ts. t_cancelled t \<or> (\<exists>e \<in> set (t_events t). \<exists>r. e_kind e = SelDone r)
    \<or> t_cancelled_end t \<or> t_woken t"
  using assms
proof (induction ts arbitrary: s)
  case (Cons t ts)
  obtain r1 s1 where l: "loop_step c t s = (r1, s1)" by fastforce
  show ?case
  proof (cases "r1 = Again")
    case True
    with Cons.prems l have "run_loop c ts s1 = (Returned None, s')" by simp
    from Cons.IH [OF this] show ?thesis by auto
  next
    case False
    with Cons.prems l have "loop_step c t s = (Returned None, s')" by (cases r1) auto
    then have "t_cancelled t \<or> (\<exists>e \<in> set (t_events t). \<exists>r. e_kind e = SelDone r)
        \<or> t_cancelled_end t \<or> t_woken t"
      by (auto simp: loop_step_def after_spawn_def after_crash_def finish_def sleep_def Let_def
          split: if_splits sum.splits prod.splits bool.splits option.splits outcome_kind.splits
          dest!: run_one_spawn_stopped)
    then show ?thesis by auto
  qed
qed simp

lemma nil_return_means_shutdown_witness:
  "\<exists>s'. run_loop demo_config [(idle_turn (Started 7))\<lparr>t_cancelled := True\<rparr>] (demo_sup fresh_fs)
      = (Returned None, s') \<and> t_cancelled ((idle_turn (Started 7))\<lparr>t_cancelled := True\<rparr>)"
  using nil_return_means_shutdown [of demo_config
      "[(idle_turn (Started 7))\<lparr>t_cancelled := True\<rparr>]" "demo_sup fresh_fs" "demo_sup fresh_fs"]
  by (simp add: loop_step_def)

definition no_target :: "config \<Rightarrow> sup \<Rightarrow> bool" where
  \<comment> \<open>the last entry of the history is the stop for want of a rollback target\<close>
  "no_target c s \<longleftrightarrow> s_log s \<noteq> [] \<and> h_event (last (s_log s)) = EvStop
     \<and> suffix ''-no-rollback'' (h_reason (last (s_log s)))"

lemma rollback_stop:
  assumes "rollback c v reason msg s = (Some (StopErr n m), s')"
  shows "n = 65 \<and> no_target c s'"
  using assms by (auto simp: rollback_def no_target_def suffix_def split: option.splits prod.splits if_splits)

lemma install_health_stop:
  "rollback_for_install_health c v reason now s = (Some (StopErr n m), s') \<Longrightarrow> n = 65 \<and> no_target c s'"
  by (simp add: rollback_for_install_health_def Let_def rollback_stop)

lemma finish_returned: "finish p = (Returned (Some e), s') \<Longrightarrow> p = (Some e, s')"
  by (auto simp: finish_def split: prod.splits option.splits)

lemma check_blacklist_stop:
  "check_blacklist c v s = (Inl (StopErr n m), s') \<Longrightarrow> n = 65 \<and> no_target c s'"
  by (auto simp: check_blacklist_def Let_def dest: rollback_stop
      split: if_splits prod.splits sum.splits option.splits)

lemma after_spawn_stop:
  assumes "after_spawn c v t out s = (Returned (Some (StopErr n m)), s')"
  shows "(n = 64 \<and> o_kind out = OutNoRestart) \<or> (n = 65 \<and> no_target c s')"
  using assms
  by (auto simp: after_spawn_def after_crash_def Let_def attempt_rollback_def
      attempt_worker_requested_rollback_def attempt_spawn_failure_rollback_def
      dest!: finish_returned rollback_stop install_health_stop
      split: outcome_kind.splits if_splits)

text \<open>
  The exit codes the init system sees. The supervisor stops with an exit code only in two
  ways: 64, when in that iteration a worker itself exited with 64, and 65, when a rollback
  was needed and there was no distinct previous version; the history then ends with a stop
  that says so.
\<close>
theorem stop_codes:
  assumes "run_loop c ts s = (Returned (Some (StopErr n m)), s')"
  shows "(n = 64 \<and> (\<exists>t \<in> set ts. \<exists>e \<in> set (t_events t). e_kind e = SelExit (Some (Exited 64))))
    \<or> (n = 65 \<and> no_target c s')"
  using assms
proof (induction ts arbitrary: s)
  case (Cons t ts)
  obtain r1 s1 where l: "loop_step c t s = (r1, s1)" by fastforce
  show ?case
  proof (cases "r1 = Again")
    case True
    with Cons.prems l have "run_loop c ts s1 = (Returned (Some (StopErr n m)), s')" by simp
    from Cons.IH [OF this] show ?thesis by auto
  next
    case False
    with Cons.prems l have "loop_step c t s = (Returned (Some (StopErr n m)), s')"
      by (cases r1) auto
    then have "(n = 64 \<and> (\<exists>e \<in> set (t_events t). e_kind e = SelExit (Some (Exited 64))))
      \<or> (n = 65 \<and> no_target c s')"
      by (auto simp: loop_step_def
          dest!: check_blacklist_stop after_spawn_stop run_one_spawn_no_restart
          split: if_splits sum.splits prod.splits bool.splits option.splits)
    then show ?thesis by auto
  qed
qed simp

lemma stop_codes_witness:
  "\<exists>s'. run_loop demo_config [(idle_turn (Started 7))\<lparr>t_events :=
        [\<lparr>e_at = seconds 105, e_kind = SelExit (Some (Exited 64))\<rparr>]\<rparr>] (demo_sup (links_fs []))
      = (Returned (Some (StopErr 64 ''worker requested no-restart'')), s') \<and> (64 :: int) \<noteq> 65"
proof -
  let ?t = "(idle_turn (Started 7))\<lparr>t_events := [\<lparr>e_at = seconds 105, e_kind = SelExit (Some (Exited 64))\<rparr>]\<rparr>"
  have c: "c_root demo_config = ''/r''" "c_blacklist demo_config = ''/r/state/blacklist.json''"
    "resolve demo_config = resolve_current ''/r'' ''clawmast''"
    by (simp_all add: demo_config_def resolve_def)
  have l: "load ''/r/state/blacklist.json'' (links_fs []) = (Inr [], links_fs [])"
    by (simp add: load_def os_read_file_def links_fs_def)
  obtain p v where r: "resolve_current ''/r'' ''clawmast'' (links_fs []) = (Inr (p, v), links_fs [])"
    by (simp add: resolve_current_def resolve_worker_binary_def os_readlink_def demo_paths links_fs_def Let_def)
  have m: "read_gate_marker ''/r'' (links_fs []) = (Inr zero_marker, links_fs [])"
    by (simp add: read_gate_marker_def os_read_file_def demo_paths links_fs_def)
  have same: "(demo_sup (links_fs []))\<lparr>s_fs := links_fs []\<rparr> = demo_sup (links_fs [])"
    "s_fs (demo_sup (links_fs [])) = links_fs []" by (simp_all add: demo_sup_def)
  have cb: "check_blacklist demo_config v (demo_sup (links_fs [])) = (Inr False, demo_sup (links_fs []))"
    by (simp add: check_blacklist_def c l contains_def same)
  have pg: "prepare_gate demo_config v 100000000000 (demo_sup (links_fs [])) = demo_sup (links_fs [])"
    by (simp add: prepare_gate_def c m same zero_marker_def Let_def)
      (simp add: demo_sup_def gate_reset_def new_gate_def)
  obtain out s1 where run: "run_one_spawn demo_config v (Started 7) (seconds 100)
      [\<lparr>e_at = seconds 105, e_kind = SelExit (Some (Exited 64))\<rparr>] (demo_sup (links_fs [])) = (Some out, s1)"
    "o_kind out = OutNoRestart"
    by (simp add: run_one_spawn_def select_eval split_def)
  obtain s' where e: "run_loop demo_config [?t] (demo_sup (links_fs [])) =
      (Returned (Some (StopErr 64 ''worker requested no-restart'')), s')"
    using run by (simp add: loop_step_def idle_turn_def c r cb same pg after_spawn_def)
  from stop_codes [OF e] e show ?thesis by auto
qed

subsection \<open>Backoff\<close>

text \<open>
  With the protocol's defaults the loop never backs off for less than 0.8 s nor for more
  than 2.2 s. A crash outside the gate either exhausts the budget of three crashes in the
  window and rolls back at once, or sleeps for the delay of one or two crashes; the maximum
  of 60 s is never reached.
\<close>
theorem default_backoff_range:
  assumes "c_backoff c = new_backoff" and "policy (s_tracker s) = new_backoff"
    and "\<not> is_active (s_gate s)" and "0 \<le> t_rand t" and "t_rand t < 4"
    and "after_crash c v t s = (r, s')" and "d \<in> set (drop (length (s_sleeps s)) (s_sleeps s'))"
  shows "millis 800 \<le> d \<and> d \<le> millis 2200"
proof -
  let ?k = "consecutive (record_crash (t_end t) (s_tracker s))"
  have cap: "crash_cap new_backoff = 3" by (simp add: new_backoff_def)
  have sl: "s_sleeps (snd (rollback c v x y s0)) = s_sleeps s0" for x y s0
    by (auto simp: rollback_def record_history_def split: option.split prod.split)
  have lt: "?k < 3" and d: "d = delay new_backoff ?k (t_rand t)"
    using assms(1,2,3,6,7) cap
    by (auto simp: after_crash_def attempt_rollback_def should_rollback_def Let_def
        split: if_splits dest: arg_cong [where f = "\<lambda>p. s_sleeps (snd p)"] simp: sl)
  have "policy_ok new_backoff" by (simp add: policy_ok_def new_backoff_def in_int64_def)
  then have "1 \<le> ?k" using consecutive_record_pos [of "s_tracker s" "t_end t"] assms(2) by simp
  with lt have k: "?k = 1 \<or> ?k = 2" by linarith
  have j: "t_rand t = 0 \<or> t_rand t = 1 \<or> t_rand t = 2 \<or> t_rand t = 3" using assms(4,5) by auto
  have "delay new_backoff ?k (t_rand t) =
      min (seconds 1 * 2 ^ nat (?k - 1)) (seconds 60) * (8 + t_rand t) div 10"
    using delay_default k assms(4,5) by auto
  with k j show ?thesis unfolding d by auto
qed

lemma default_backoff_range_witness:
  "\<exists>r s'. after_crash demo_config ''v1'' (idle_turn (Started 7)) (demo_sup fresh_fs) = (r, s')
    \<and> s_sleeps s' = [millis 800]"
proof -
  obtain r s' where a: "after_crash demo_config ''v1'' (idle_turn (Started 7)) (demo_sup fresh_fs) = (r, s')"
    by fastforce
  have e: "s_sleeps s' = [millis 800]"
    using a by (auto simp: after_crash_def demo_sup_def demo_config_def new_tracker_def record_crash_def
        should_rollback_def consecutive_def idle_turn_def is_active_def new_gate_def time_before_def
        time_add_def time_is_zero_def new_backoff_def delay_def unjittered_def jitter_def wrap64_eq
        Let_def sdiv_nonneg sleep_def split: if_splits)
  have "millis 800 \<le> millis 800 \<and> millis 800 \<le> millis 2200"
    using default_backoff_range [of demo_config "demo_sup fresh_fs" "idle_turn (Started 7)" "''v1''" r s'
        "millis 800"] a e
    by (simp add: demo_config_def demo_sup_def new_tracker_def new_gate_def is_active_def idle_turn_def)
  with a e show ?thesis by blast
qed

subsection \<open>Two bad versions\<close>

definition two_bad :: "config \<Rightarrow> string set \<Rightarrow> bl_entry list \<Rightarrow> fsys \<Rightarrow> bool" where
  \<comment> \<open>the links name two targets, both blacklisted\<close>
  "two_bad c ts es f \<longleftrightarrow> faults f = []
     \<and> (\<exists>a b. a \<noteq> b \<and> ts = {a, b} \<and> nodes f (current_link (c_root c)) = Some (Link a)
          \<and> nodes f (previous_link (c_root c)) = Some (Link b))
     \<and> nodes f (swap_tmp (c_root c)) \<noteq> Some Dir
     \<and> nodes f (c_blacklist c) = Some (File (Doc (JArr (map encode_entry es))))
     \<and> (\<forall>t \<in> ts. contains es (base_name t))"

lemma two_bad_step:
  assumes lay: "layout c" and bad: "two_bad c ts es (s_fs s)" and run: "\<not> t_cancelled t"
  shows "\<exists>s' h. loop_step c t s = (Again, s') \<and> two_bad c ts es (s_fs s')
    \<and> s_log s' = s_log s @ [h] \<and> h_event h = EvRollback \<and> s_sleeps s' = s_sleeps s"
proof -
  note d = lay [unfolded layout_def]
  from bad obtain a b where ab: "a \<noteq> b" "ts = {a, b}"
    "nodes (s_fs s) (current_link (c_root c)) = Some (Link a)"
    "nodes (s_fs s) (previous_link (c_root c)) = Some (Link b)"
    and f: "faults (s_fs s) = []" "nodes (s_fs s) (swap_tmp (c_root c)) \<noteq> Some Dir"
      "nodes (s_fs s) (c_blacklist c) = Some (File (Doc (JArr (map encode_entry es))))"
      "\<forall>t \<in> ts. contains es (base_name t)"
    by (auto simp: two_bad_def)
  obtain p where r: "resolve c (s_fs s) = (Inr (p, base_name a), s_fs s)"
    using d f(1) ab(3)
    by (simp add: resolve_current_def resolve_worker_binary_def os_readlink_def Let_def)
  have l: "load (c_blacklist c) (s_fs s) = (Inr es, s_fs s)" by (rule load_clean [OF f(1,3)])
  have "c_root c \<noteq> []" using d by blast
  from swap_clean [OF f(1) this ab(3,4,1) f(2)] obtain g where
    g: "swap_current_previous (c_root c) (s_fs s) = (None, g)" "faults g = []"
    "nodes g = (nodes (s_fs s))(swap_tmp (c_root c) := None, current_link (c_root c) \<mapsto> Link b,
        previous_link (c_root c) \<mapsto> Link a)" by blast
  have "two_bad c ts es g"
    unfolding two_bad_def using g ab(1,2) f(3,4) d by auto
  moreover have "contains es (base_name a)" "base_name a \<noteq> []" using f(4) ab(2) by (auto simp: contains_def)
  ultimately show ?thesis
    using run r l g(1) d
    by (auto simp: loop_step_def check_blacklist_def rollback_def record_history_def Let_def)
qed

text \<open>
  C40: when both the current and the previous version are blacklisted, the loop spins. However
  many iterations it makes, it neither returns nor spawns nor sleeps: each one swaps the two
  links back and adds a rollback entry to the history.
\<close>
theorem two_bad_versions_spin:
  assumes "layout c" and "two_bad c targets es (s_fs s)" and "\<forall>t \<in> set ts. \<not> t_cancelled t"
  shows "\<exists>s' new. run_loop c ts s = (Again, s') \<and> s_log s' = s_log s @ new
    \<and> length new = length ts \<and> (\<forall>h \<in> set new. h_event h = EvRollback) \<and> s_sleeps s' = s_sleeps s"
  using assms(2,3)
proof (induction ts arbitrary: s)
  case (Cons t ts)
  from two_bad_step [OF assms(1) Cons.prems(1), of t] Cons.prems(2) obtain s1 h where
    s1: "loop_step c t s = (Again, s1)" "two_bad c targets es (s_fs s1)"
    "s_log s1 = s_log s @ [h]" "h_event h = EvRollback" "s_sleeps s1 = s_sleeps s" by auto
  from Cons.IH [OF s1(2)] Cons.prems(2) obtain s' new where
    "run_loop c ts s1 = (Again, s')" "s_log s' = s_log s1 @ new" "length new = length ts"
    "\<forall>h \<in> set new. h_event h = EvRollback" "s_sleeps s' = s_sleeps s1" by auto
  with s1 show ?case by (intro exI [of _ s'] exI [of _ "h # new"]) simp
qed simp

definition two_bad_list :: "bl_entry list" where
  "two_bad_list = [\<lparr>bl_version = ''v2'', bl_time = 5, bl_reason = []\<rparr>,
     \<lparr>bl_version = ''v1'', bl_time = 5, bl_reason = []\<rparr>]"

definition two_bad_fs :: fsys where
  "two_bad_fs = \<lparr>nodes = [''/r/current'' \<mapsto> Link ''versions/v2'', ''/r/previous'' \<mapsto> Link ''versions/v1'',
     ''/r/state/blacklist.json'' \<mapsto> File (Doc (JArr (map encode_entry two_bad_list)))], faults = []\<rparr>"

lemma two_bad_versions_spin_witness:
  "\<exists>s'. run_loop demo_config (replicate 5 (idle_turn (Started 7))) (demo_sup two_bad_fs) = (Again, s')
    \<and> length (s_log s') = 5"
proof -
  have b: "base_name ''versions/v2'' = ''v2''" "base_name ''versions/v1'' = ''v1''"
    by code_simp+
  have c: "c_root demo_config = ''/r''" "c_blacklist demo_config = ''/r/state/blacklist.json''"
    by (simp_all add: demo_config_def)
  have "two_bad demo_config {''versions/v2'', ''versions/v1''} two_bad_list (s_fs (demo_sup two_bad_fs))"
    unfolding two_bad_def c demo_paths
    by (simp add: demo_sup_def two_bad_fs_def contains_def b two_bad_list_def)
  from two_bad_versions_spin [OF demo_layout this, of "replicate 5 (idle_turn (Started 7))"]
  show ?thesis by (auto simp: idle_turn_def demo_sup_def)
qed

end
