(* ===== verification/Updater.thy ===== *)
theory Updater
  imports Json
begin

section \<open>Update manifests (internal/updater)\<close>

text \<open>
  \<open>manifest\<close> and \<open>artifact\<close> are the structs of manifest.go; \<open>check\<close> is \<^verbatim>\<open>Client.Check\<close>. The
  network is a function from URLs to replies. Three library functions are arguments:
  \<open>verify\<close> is \<^verbatim>\<open>minisign.Verify\<close>, \<open>parse_url\<close> gives the scheme \<^verbatim>\<open>url.Parse\<close> finds
  (\<^verbatim>\<open>None\<close> when it fails) and \<open>unmarshal\<close> turns the bytes of a document into its value.
\<close>

record artifact =
  a_os :: string
  a_arch :: string
  a_url :: string
  a_size :: int
  a_sha :: string

record manifest =
  f_channel :: string
  f_version :: string
  f_published :: instant
  f_notes :: string
  f_artifacts :: "artifact list"

definition zero_artifact :: artifact where
  "zero_artifact = \<lparr>a_os = [], a_arch = [], a_url = [], a_size = 0, a_sha = []\<rparr>"

definition zero_manifest :: manifest where
  "zero_manifest = \<lparr>f_channel = [], f_version = [], f_published = 0, f_notes = [], f_artifacts = []\<rparr>"

definition artifact_field :: "artifact \<Rightarrow> string \<times> json \<Rightarrow> artifact option" where
  "artifact_field a kv = (case kv of (k, v) \<Rightarrow>
     if equal_fold k ''os'' then map_option (\<lambda>s. a\<lparr>a_os := s\<rparr>) (decode_string (a_os a) v)
     else if equal_fold k ''arch'' then map_option (\<lambda>s. a\<lparr>a_arch := s\<rparr>) (decode_string (a_arch a) v)
     else if equal_fold k ''url'' then map_option (\<lambda>s. a\<lparr>a_url := s\<rparr>) (decode_string (a_url a) v)
     else if equal_fold k ''size'' then map_option (\<lambda>n. a\<lparr>a_size := n\<rparr>) (decode_int (a_size a) v)
     else if equal_fold k ''sha256'' then map_option (\<lambda>s. a\<lparr>a_sha := s\<rparr>) (decode_string (a_sha a) v)
     else Some a)"

definition manifest_field :: "manifest \<Rightarrow> string \<times> json \<Rightarrow> manifest option" where
  "manifest_field m kv = (case kv of (k, v) \<Rightarrow>
     if equal_fold k ''channel'' then map_option (\<lambda>s. m\<lparr>f_channel := s\<rparr>) (decode_string (f_channel m) v)
     else if equal_fold k ''version'' then map_option (\<lambda>s. m\<lparr>f_version := s\<rparr>) (decode_string (f_version m) v)
     else if equal_fold k ''published_at'' then map_option (\<lambda>t. m\<lparr>f_published := t\<rparr>) (decode_time (f_published m) v)
     else if equal_fold k ''notes'' then map_option (\<lambda>s. m\<lparr>f_notes := s\<rparr>) (decode_string (f_notes m) v)
     else if equal_fold k ''artifacts''
     then map_option (\<lambda>as. m\<lparr>f_artifacts := as\<rparr>) (decode_list (decode_struct artifact_field zero_artifact) v)
     else Some m)"

definition decode_manifest :: "json \<Rightarrow> manifest option" where
  "decode_manifest = decode_struct manifest_field zero_manifest"

subsection \<open>Selection and validation\<close>

definition for_host :: "string \<Rightarrow> string \<Rightarrow> manifest \<Rightarrow> artifact option" where
  "for_host os arch m = List.find (\<lambda>a. a_os a = os \<and> a_arch a = arch) (f_artifacts m)"

datatype manifest_error = NoChannel | NoLeadingV | NoPublished | NoArtifacts | NoOsArch nat
  | NotHttps nat | BadSize nat | BadSha nat

definition is_hex_digit :: "char \<Rightarrow> bool" where
  "is_hex_digit c = (let n = of_char c :: nat in
     48 \<le> n \<and> n \<le> 57 \<or> 97 \<le> n \<and> n \<le> 102 \<or> 65 \<le> n \<and> n \<le> 70)"

definition hex_decodes :: "string \<Rightarrow> bool" where
  \<comment> \<open>\<^verbatim>\<open>hex.DecodeString\<close> succeeds\<close>
  "hex_decodes s \<longleftrightarrow> even (length s) \<and> list_all is_hex_digit s"

definition artifact_error :: "nat \<Rightarrow> artifact \<Rightarrow> manifest_error option" where
  "artifact_error i a =
     (if a_os a = [] \<or> a_arch a = [] then Some (NoOsArch i)
      else if \<not> has_prefix (a_url a) ''https://'' \<and> \<not> has_prefix (a_url a) ''http://127.0.0.1''
      then Some (NotHttps i)
      else if a_size a \<le> 0 then Some (BadSize i)
      else if \<not> hex_decodes (a_sha a) \<or> length (a_sha a) \<noteq> 64 then Some (BadSha i)
      else None)"

fun first_artifact_error :: "nat \<Rightarrow> artifact list \<Rightarrow> manifest_error option" where
  "first_artifact_error i [] = None"
| "first_artifact_error i (a # as) =
     (case artifact_error i a of Some e \<Rightarrow> Some e | None \<Rightarrow> first_artifact_error (Suc i) as)"

definition validate :: "manifest \<Rightarrow> manifest_error option" where
  "validate m =
     (if f_channel m = [] then Some NoChannel
      else if \<not> has_prefix (f_version m) ''v'' then Some NoLeadingV
      else if time_is_zero (f_published m) then Some NoPublished
      else if f_artifacts m = [] then Some NoArtifacts
      else first_artifact_error 0 (f_artifacts m))"

subsection \<open>The client\<close>

record 'k client =
  base_url :: string
  channel :: string
  pub_key :: 'k

definition default_channel :: string where "default_channel = ''stable''"
definition max_manifest_bytes :: nat where "max_manifest_bytes = 262144"

definition new_client :: "string \<Rightarrow> string \<Rightarrow> 'k \<Rightarrow> 'k client" where
  "new_client url ch k =
     \<lparr>base_url = url, channel = (if ch = [] then default_channel else ch), pub_key = k\<rparr>"

datatype reply = NoReply | Reply int "string option"
  \<comment> \<open>status and body; \<^verbatim>\<open>None\<close>: reading the body fails\<close>

datatype fetch_error = Transport | ManifestMissing | BadStatus int | ReadFails | TooBig

definition fetch :: "(string \<Rightarrow> reply) \<Rightarrow> string \<Rightarrow> bool \<Rightarrow> fetch_error + string" where
  "fetch net url allow_missing =
     (case net url of
        NoReply \<Rightarrow> Inl Transport
      | Reply status body \<Rightarrow>
          if status = 404 \<and> allow_missing then Inl ManifestMissing
          else if status \<noteq> 200 then Inl (BadStatus status)
          else case body of
            None \<Rightarrow> Inl ReadFails
          | Some b \<Rightarrow>
              (let got = take (max_manifest_bytes + 1) b
               in if length got > max_manifest_bytes then Inl TooBig else Inr got))"

datatype check_error = BadUrl | FetchError fetch_error | BadSignature | NotJson
  | Invalid manifest_error | ChannelMismatch

definition urls :: "(string \<Rightarrow> string option) \<Rightarrow> 'k client \<Rightarrow> check_error + string \<times> string" where
  "urls parse_url c =
     (if base_url c = [] then Inl BadUrl
      else case parse_url (base_url c) of
        None \<Rightarrow> Inl BadUrl
      | Some scheme \<Rightarrow>
          if scheme \<noteq> ''https'' \<and> scheme \<noteq> ''http'' then Inl BadUrl
          else (let ch = (if channel c = [] then default_channel else channel c);
                    base = trim_right_byte (CHR ''/'') (base_url c) @ ''/'' @ ch
                in Inr (base @ ''/manifest.json'', base @ ''/manifest.json.minisig'')))"

definition check ::
  "(string \<Rightarrow> string option) \<Rightarrow> ('k \<Rightarrow> string \<Rightarrow> string \<Rightarrow> bool) \<Rightarrow> (string \<Rightarrow> json option)
   \<Rightarrow> (string \<Rightarrow> reply) \<Rightarrow> 'k client \<Rightarrow> check_error + manifest" where
  "check parse_url verify unmarshal net c =
     (case urls parse_url c of
        Inl e \<Rightarrow> Inl e
      | Inr (manifest_url, sig_url) \<Rightarrow>
     (case fetch net manifest_url True of
        Inl e \<Rightarrow> Inl (FetchError e)
      | Inr bytes \<Rightarrow>
     (case fetch net sig_url False of
        Inl e \<Rightarrow> Inl (FetchError e)
      | Inr sig \<Rightarrow>
          if \<not> verify (pub_key c) bytes sig then Inl BadSignature
          else case Option.bind (unmarshal bytes) decode_manifest of
            None \<Rightarrow> Inl NotJson
          | Some m \<Rightarrow>
              (case validate m of
                 Some e \<Rightarrow> Inl (Invalid e)
               | None \<Rightarrow> if f_channel m \<noteq> channel c then Inl ChannelMismatch else Inr m))))"

subsection \<open>What a checked manifest guarantees\<close>

lemma first_artifact_error_None:
  "first_artifact_error i as = None \<longleftrightarrow> (\<forall>a \<in> set as. artifact_error 0 a = None)"
proof -
  have e: "artifact_error i a = None \<longleftrightarrow> artifact_error 0 a = None" for i a
    by (simp add: artifact_error_def)
  show ?thesis
  proof (induction as arbitrary: i)
    case (Cons a as)
    then show ?case using e [of i a] by (auto split: option.splits)
  qed simp
qed

definition sound_artifact :: "artifact \<Rightarrow> bool" where
  "sound_artifact a \<longleftrightarrow> a_os a \<noteq> [] \<and> a_arch a \<noteq> [] \<and> 0 < a_size a \<and> length (a_sha a) = 64
     \<and> list_all is_hex_digit (a_sha a)
     \<and> (prefix ''https://'' (a_url a) \<or> prefix ''http://127.0.0.1'' (a_url a))"

lemma validate_None:
  "validate m = None \<longleftrightarrow> f_channel m \<noteq> [] \<and> prefix ''v'' (f_version m) \<and> f_published m \<noteq> 0
     \<and> f_artifacts m \<noteq> [] \<and> (\<forall>a \<in> set (f_artifacts m). sound_artifact a)"
  by (auto simp: validate_def first_artifact_error_None artifact_error_def sound_artifact_def
      has_prefix_def hex_decodes_def time_is_zero_def split: if_splits)

lemma fetch_Inr:
  "fetch net u am = Inr b \<Longrightarrow>
   net u = Reply 200 (Some b) \<and> length b \<le> max_manifest_bytes"
  by (auto simp: fetch_def Let_def split: reply.splits if_splits option.splits)

text \<open>
  C23: only authentic manifests come out. Whatever the network serves, a manifest that Check
  returns was read complete and within the size limit from the channel's URL, its bytes
  verify under the client's key with the served signature, it names the client's channel,
  and every artifact it lists can be downloaded and checked.
\<close>
theorem check_authentic:
  assumes "check parse_url verify unmarshal net c = Inr m"
  shows "\<exists>url sig_url bytes sig j. urls parse_url c = Inr (url, sig_url)
    \<and> net url = Reply 200 (Some bytes) \<and> net sig_url = Reply 200 (Some sig)
    \<and> length bytes \<le> max_manifest_bytes \<and> verify (pub_key c) bytes sig
    \<and> unmarshal bytes = Some j \<and> decode_manifest j = Some m
    \<and> f_channel m = channel c \<and> prefix ''v'' (f_version m)
    \<and> (\<forall>a \<in> set (f_artifacts m). sound_artifact a)"
  using assms
  by (auto simp: check_def validate_None bind_eq_Some_conv dest!: fetch_Inr
      split: sum.splits if_splits option.splits)

definition demo_manifest_json :: json where
  "demo_manifest_json = JObj [(''channel'', JStr ''stable''), (''version'', JStr ''v2''),
     (''published_at'', JTime 5), (''artifacts'', JArr [JObj [(''os'', JStr ''linux''),
       (''arch'', JStr ''amd64''), (''url'', JStr ''https://h/a''), (''size'', JNum 10),
       (''sha256'', JStr (replicate 64 (CHR ''a'')))]])]"

definition demo_artifact :: artifact where
  "demo_artifact = \<lparr>a_os = ''linux'', a_arch = ''amd64'', a_url = ''https://h/a'', a_size = 10,
     a_sha = replicate 64 (CHR ''a'')\<rparr>"

definition demo_manifest :: manifest where
  "demo_manifest = \<lparr>f_channel = ''stable'', f_version = ''v2'', f_published = 5, f_notes = [],
     f_artifacts = [demo_artifact]\<rparr>"

lemma demo_manifest_decodes: "decode_manifest demo_manifest_json = Some demo_manifest"
  by (simp add: decode_manifest_def demo_manifest_json_def manifest_field_def artifact_field_def
      zero_manifest_def zero_artifact_def equal_fold_def to_lower_def to_lower_char_def
      demo_manifest_def demo_artifact_def in_int64_def)

lemma demo_manifest_valid: "validate demo_manifest = None"
proof -
  have "list_all is_hex_digit (replicate n (CHR ''a''))" for n
    by (induction n) (simp_all add: is_hex_digit_def)
  then show ?thesis by (simp add: validate_None demo_manifest_def demo_artifact_def sound_artifact_def)
qed

definition demo_net :: "string \<Rightarrow> reply" where
  "demo_net u = (if u = ''https://h/stable/manifest.json'' then Reply 200 (Some ''M'')
     else if u = ''https://h/stable/manifest.json.minisig'' then Reply 200 (Some ''S'') else NoReply)"

lemma check_authentic_witness:
  "check (\<lambda>_. Some ''https'') (\<lambda>k b s. k = (7::int) \<and> b = ''M'' \<and> s = ''S'')
     (\<lambda>b. if b = ''M'' then Some demo_manifest_json else None) demo_net
     (new_client ''https://h/'' [] 7) = Inr demo_manifest
   \<and> prefix ''v'' (f_version demo_manifest)"
proof -
  have u: "urls (\<lambda>_. Some ''https'') (new_client ''https://h/'' [] (7::int)) =
      Inr (''https://h/stable/manifest.json'', ''https://h/stable/manifest.json.minisig'')"
    by (simp add: urls_def new_client_def default_channel_def trim_right_byte_def)
  have c: "check (\<lambda>_. Some ''https'') (\<lambda>k b s. k = (7::int) \<and> b = ''M'' \<and> s = ''S'')
     (\<lambda>b. if b = ''M'' then Some demo_manifest_json else None) demo_net
     (new_client ''https://h/'' [] 7) = Inr demo_manifest"
    unfolding check_def u
    by (simp add: fetch_def demo_net_def max_manifest_bytes_def demo_manifest_decodes
        demo_manifest_valid) (simp add: demo_manifest_def new_client_def default_channel_def)
  from check_authentic [OF c] c show ?thesis by blast
qed

end
