(* ===== verification/SelfUpdate.thy ===== *)
theory SelfUpdate
  imports Updater Symlinks GateMarker
begin

section \<open>Installing an update (internal/selfupdate: download_unix.go, install_unix.go)\<close>

text \<open>
  \<open>extract_tar\<close> walks the entries of an archive, \<open>download_and_extract\<close> is the streaming pass
  over the HTTP body, \<open>apply_update\<close> is \<^verbatim>\<open>Apply\<close>. Arguments for code outside the repository:
  \<open>untar\<close> gives the entries of a gzipped tar stream (\<^verbatim>\<open>None\<close> when the gzip header is bad) and
  \<open>sha256\<close> the hexadecimal digest. File modes are not part of the modelled file system; the
  mode the worker is created with is the value of \<open>ex_mode\<close>.
\<close>

subsection \<open>Archives\<close>

record tar_entry =
  t_name :: string
  t_regular :: bool
  t_mode :: int
  t_data :: string
  t_complete :: bool      \<comment> \<open>the entry's data can be read to its end\<close>

datatype tar_stream = TarEnd | TarBroken | TarEntry tar_entry tar_stream

datatype tar_error = BadTarball string | TarOpen os_error | TarWrite | TarClose os_error

record extraction =
  ex_fs :: fsys
  ex_mode :: "int option"   \<comment> \<open>the mode of the worker once it was found\<close>

definition worker_file :: string where "worker_file = ''clawmast''"

definition unsafe_path :: "string \<Rightarrow> bool" where
  "unsafe_path rel \<longleftrightarrow> has_prefix rel ''../'' \<or> rel = ''..'' \<or> contains_str rel ''/../'' \<or> is_abs rel"

definition entry_mode :: "int \<Rightarrow> int" where
  \<comment> \<open>\<^verbatim>\<open>os.FileMode(hdr.Mode) & 0o777\<close>, a zero replaced by 0o755\<close>
  "entry_mode m = (let p = m mod 512 in if p = 0 then 493 else p)"

definition extract_entry :: "string \<Rightarrow> tar_entry \<Rightarrow> extraction \<Rightarrow> tar_error option \<times> extraction" where
  \<comment> \<open>one pass through the body of the loop\<close>
  "extract_entry dir e x =
     (if \<not> t_regular e then (None, x)
      else let rel = clean (t_name e)
           in if rel = ''.'' \<or> rel = [] then (None, x)
              else if unsafe_path rel then (Some (BadTarball ''unsafe path''), x)
              else let parts = split_on (CHR ''/'') rel
                   in if last parts \<noteq> worker_file then (None, x)
                      else if length parts > 2 then (None, x)
                      else if ex_mode x \<noteq> None then (Some (BadTarball ''duplicate worker entry''), x)
                      else let out = path_join [dir, worker_file]
                           in case os_write_file out (Text []) (ex_fs x) of
                                (Inl err, f) \<Rightarrow> (Some (TarOpen err), x\<lparr>ex_fs := f\<rparr>)
                              | (Inr _, f) \<Rightarrow>
                             (case os_write_file out (Text (t_data e)) f of
                                (Inl err, f) \<Rightarrow> (Some TarWrite, x\<lparr>ex_fs := snd (os_close f)\<rparr>)
                              | (Inr _, f) \<Rightarrow>
                                  if \<not> t_complete e then (Some TarWrite, x\<lparr>ex_fs := snd (os_close f)\<rparr>)
                                  else (case os_close f of
                                     (Inl err, f) \<Rightarrow> (Some (TarClose err), x\<lparr>ex_fs := f\<rparr>)
                                   | (Inr _, f) \<Rightarrow> (None, \<lparr>ex_fs = f, ex_mode = Some (entry_mode (t_mode e))\<rparr>))))"

fun extract_tar :: "string \<Rightarrow> tar_stream \<Rightarrow> extraction \<Rightarrow> tar_error option \<times> extraction" where
  "extract_tar dir TarEnd x =
     (if ex_mode x = None then Some (BadTarball ''no worker entry'') else None, x)"
| "extract_tar dir TarBroken x = (Some (BadTarball ''tar header''), x)"
| "extract_tar dir (TarEntry e es) x =
     (case extract_entry dir e x of
        (Some err, x') \<Rightarrow> (Some err, x')
      | (None, x') \<Rightarrow> extract_tar dir es x')"

subsection \<open>The download\<close>

record download_reply =
  d_status :: int
  d_body :: string
  d_broken :: bool    \<comment> \<open>reading the body fails after these bytes\<close>

datatype download_error = NoConnection | DownloadStatus int | BadGzip | BadTar tar_error | DrainFails
  | SizeMismatch | BadSha256

definition download_and_extract ::
  "(string \<Rightarrow> tar_stream option) \<Rightarrow> (string \<Rightarrow> string) \<Rightarrow> download_reply option \<Rightarrow> artifact \<Rightarrow> string
   \<Rightarrow> fsys \<Rightarrow> (download_error + int) \<times> fsys" where
  "download_and_extract untar sha256 reply art dir f =
     (case reply of
        None \<Rightarrow> (Inl NoConnection, f)
      | Some r \<Rightarrow>
          if d_status r \<noteq> 200 then (Inl (DownloadStatus (d_status r)), f)
          else let budget = wrap64 (a_size art + 1);
                   seen = take (nat budget) (d_body r);
                   left = budget - int (length seen)
               in case untar seen of
                    None \<Rightarrow> (Inl BadGzip, f)
                  | Some entries \<Rightarrow>
                      (case extract_tar dir entries \<lparr>ex_fs = f, ex_mode = None\<rparr> of
                         (Some e, x) \<Rightarrow> (Inl (BadTar e), ex_fs x)
                       | (None, x) \<Rightarrow>
                           (if d_broken r \<and> int (length (d_body r)) < budget then Inl DrainFails
                            else if left = 0 then Inl SizeMismatch
                            else if wrap64 (budget - left) \<noteq> a_size art then Inl SizeMismatch
                            else if \<not> equal_fold (sha256 seen) (a_sha art) then Inl BadSha256
                            else Inr (budget - left), ex_fs x)))"

subsection \<open>Apply\<close>

record apply_config =
  p_root :: string
  p_current :: string              \<comment> \<open>\<^verbatim>\<open>CurrentVersion\<close>\<close>
  p_manifest :: "manifest option"

record apply_result =
  r_version_dir :: string
  r_before :: string
  r_after :: string
  r_previous :: string
  r_bytes :: int

datatype apply_error = NilManifest | EmptyRoot | InvalidManifest manifest_error | NoArtifactForHost
  | AlreadyInstalled | Prepare os_error | Download download_error | VersionManifest os_error
  | Promote os_error | Rotate os_error | Marker marker_error

definition version_manifest :: "string \<Rightarrow> artifact \<Rightarrow> instant \<Rightarrow> json" where
  "version_manifest version art now = JObj
     [(''arch'', JStr (a_arch art)), (''installed_at'', JTime (now div 1000000000 * 1000000000)),
      (''os'', JStr (a_os art)), (''sha256'', JStr (a_sha art)), (''size'', JNum (a_size art)),
      (''source'', JStr ''auto-update''), (''version'', JStr version)]"

definition write_version_manifest ::
  "string \<Rightarrow> string \<Rightarrow> artifact \<Rightarrow> instant \<Rightarrow> fsys \<Rightarrow> unit os_result" where
  "write_version_manifest dir version art now f =
     os_write_file (path_join [dir, ''MANIFEST.json'']) (Doc (version_manifest version art now)) f"

definition os_stat_ok :: "string \<Rightarrow> fsys \<Rightarrow> bool \<times> fsys" where
  \<comment> \<open>\<^verbatim>\<open>os.Stat\<close> succeeds; it follows a link, whose target is not looked up here\<close>
  "os_stat_ok p f = (case guarded (\<lambda>f. (Inr (nodes f p \<noteq> None), f)) f of
     (Inl _, f) \<Rightarrow> (False, f) | (Inr b, f) \<Rightarrow> (b, f))"

definition versions_dir :: "string \<Rightarrow> string" where
  "versions_dir root = path_join [root, ''versions'']"

definition target_dir :: "string \<Rightarrow> string \<Rightarrow> string" where
  "target_dir root version = path_join [versions_dir root, version]"

definition staging_dir :: "string \<Rightarrow> string \<Rightarrow> string" where
  "staging_dir root version = path_join [versions_dir root, ''.'' @ version @ ''.partial'']"

definition prepare_staging :: "string \<Rightarrow> string \<Rightarrow> fsys \<Rightarrow> unit os_result" where
  "prepare_staging root version f =
     (case os_mkdir_all (versions_dir root) f of
        (Inl e, f) \<Rightarrow> (Inl e, f)
      | (Inr _, f) \<Rightarrow>
     (case os_remove_all (staging_dir root version) f of
        (Inl e, f) \<Rightarrow> (Inl e, f)
      | (Inr _, f) \<Rightarrow> os_mkdir_all (staging_dir root version) f))"

definition promote :: "string \<Rightarrow> string \<Rightarrow> fsys \<Rightarrow> unit os_result" where
  "promote root version f =
     (case os_stat_ok (target_dir root version) f of
        (True, f) \<Rightarrow>
          (case os_remove_all (target_dir root version) f of
             (Inl e, f) \<Rightarrow> (Inl e, f)
           | (Inr _, f) \<Rightarrow> os_rename (staging_dir root version) (target_dir root version) f)
      | (False, f) \<Rightarrow> os_rename (staging_dir root version) (target_dir root version) f)"

definition activate ::
  "string \<Rightarrow> string \<Rightarrow> instant \<Rightarrow> int \<Rightarrow> fsys \<Rightarrow> (apply_error + apply_result) \<times> fsys" where
  \<comment> \<open>the last two steps: the links, then the marker\<close>
  "activate root version now n f =
     (case rotate_symlinks root version f of
        (Inl e, f) \<Rightarrow> (Inl (Rotate e), f)
      | (Inr (before, after, prev), f) \<Rightarrow>
     (case write_gate_marker root \<lparr>m_version = version, m_installed_at = now\<rparr> now f of
        (Some e, f) \<Rightarrow> (Inl (Marker e), f)
      | (None, f) \<Rightarrow>
          (Inr \<lparr>r_version_dir = target_dir root version, r_before = before, r_after = after,
                r_previous = prev, r_bytes = n\<rparr>, f)))"

definition install_artifact ::
  "(fsys \<Rightarrow> (download_error + int) \<times> fsys) \<Rightarrow> string \<Rightarrow> string \<Rightarrow> artifact \<Rightarrow> instant \<Rightarrow> fsys
   \<Rightarrow> (apply_error + apply_result) \<times> fsys" where
  \<comment> \<open>\<^verbatim>\<open>Apply\<close> from the staging directory on; the first argument is the download into it\<close>
  "install_artifact fetch_into root version art now f =
     (case prepare_staging root version f of
        (Inl e, f) \<Rightarrow> (Inl (Prepare e), f)
      | (Inr _, f) \<Rightarrow>
     (case fetch_into f of
        (Inl e, f) \<Rightarrow> (Inl (Download e), snd (os_remove_all (staging_dir root version) f))
      | (Inr n, f) \<Rightarrow>
     (case write_version_manifest (staging_dir root version) version art now f of
        (Inl e, f) \<Rightarrow> (Inl (VersionManifest e), snd (os_remove_all (staging_dir root version) f))
      | (Inr _, f) \<Rightarrow>
     (case promote root version f of
        (Inl e, f) \<Rightarrow> (Inl (Promote e), f)
      | (Inr _, f) \<Rightarrow> activate root version now n f))))"

definition apply_update ::
  "(string \<Rightarrow> tar_stream option) \<Rightarrow> (string \<Rightarrow> string) \<Rightarrow> (string \<Rightarrow> download_reply option)
   \<Rightarrow> string \<Rightarrow> string \<Rightarrow> apply_config \<Rightarrow> instant \<Rightarrow> fsys \<Rightarrow> (apply_error + apply_result) \<times> fsys" where
  "apply_update untar sha256 net goos goarch cfg now f =
     (case p_manifest cfg of
        None \<Rightarrow> (Inl NilManifest, f)
      | Some m \<Rightarrow>
          if p_root cfg = [] then (Inl EmptyRoot, f)
          else case validate m of
            Some e \<Rightarrow> (Inl (InvalidManifest e), f)
          | None \<Rightarrow>
              (case for_host goos goarch m of
                 None \<Rightarrow> (Inl NoArtifactForHost, f)
               | Some art \<Rightarrow>
                   if p_current cfg \<noteq> [] \<and> p_current cfg = f_version m then (Inl AlreadyInstalled, f)
                   else install_artifact
                     (download_and_extract untar sha256 (net (a_url art)) art
                        (staging_dir (p_root cfg) (f_version m)))
                     (p_root cfg) (f_version m) art now f))"

subsection \<open>Extraction is confined\<close>

fun tar_entries :: "tar_stream \<Rightarrow> tar_entry list" where
  "tar_entries (TarEntry e es) = e # tar_entries es"
| "tar_entries _ = []"

definition worker_entry :: "tar_entry \<Rightarrow> bool" where
  \<comment> \<open>a regular, complete entry named clawmast at depth 0 or 1, below the archive's root\<close>
  "worker_entry e \<longleftrightarrow> t_regular e \<and> t_complete e \<and> \<not> unsafe_path (clean (t_name e))
     \<and> last (split_on (CHR ''/'') (clean (t_name e))) = worker_file
     \<and> length (split_on (CHR ''/'') (clean (t_name e))) \<le> 2"

definition holds_worker :: "string \<Rightarrow> tar_entry list \<Rightarrow> fsys \<Rightarrow> bool" where
  "holds_worker dir es f \<longleftrightarrow>
     (\<exists>e \<in> set es. worker_entry e \<and> nodes f (path_join [dir, worker_file]) = Some (File (Text (t_data e))))"

lemma extract_entry_cases:
  assumes "extract_entry dir e x = (r, x')"
  shows "only_at {path_join [dir, worker_file]} (ex_fs x) (ex_fs x')
    \<and> (r = None \<longrightarrow> x' = x \<or> (ex_mode x = None \<and> ex_mode x' \<noteq> None \<and> holds_worker dir [e] (ex_fs x')))"
proof -
  let ?out = "path_join [dir, worker_file]"
  obtain r1 f1 where w1: "os_write_file ?out (Text []) (ex_fs x) = (r1, f1)" by fastforce
  obtain r2 f2 where w2: "os_write_file ?out (Text (t_data e)) f1 = (r2, f2)" by fastforce
  obtain r3 f3 where c: "os_close f2 = (r3, f3)" by fastforce
  have n1: "only_at {?out} (ex_fs x) f1"
    using os_outside(2) [of _ ?out "Text []" "ex_fs x"] w1 by (simp add: only_at_def)
  have n2: "only_at {?out} (ex_fs x) f2"
    using os_outside(2) [of _ ?out "Text (t_data e)" f1] w2 n1 by (simp add: only_at_def)
  have n3: "nodes f3 = nodes f2" using os_close_nodes [of f2] c by simp
  have d: "r2 = Inr u \<Longrightarrow> nodes f2 ?out = Some (File (Text (t_data e)))" for u
    by (rule os_write_file_E [of ?out "Text (t_data e)" f1]) (use w2 in auto)
  have z: "only_at {?out} (ex_fs x) (ex_fs x)" by (rule only_at_refl)
  from assms n1 n2 n3 d z show ?thesis
    by (auto simp: extract_entry_def w1 w2 c Let_def only_at_def holds_worker_def worker_entry_def
        not_less split: if_splits sum.splits)
qed

lemma extract_tar_cases:
  assumes "extract_tar dir es x = (r, x')"
  shows "only_at {path_join [dir, worker_file]} (ex_fs x) (ex_fs x')
    \<and> (r = None \<longrightarrow> (if ex_mode x = None then ex_mode x' \<noteq> None \<and> holds_worker dir (tar_entries es) (ex_fs x')
         else x' = x))"
  using assms
proof (induction dir es x rule: extract_tar.induct)
  case (3 dir e es x)
  obtain r1 x1 where e: "extract_entry dir e x = (r1, x1)" by fastforce
  note c = extract_entry_cases [OF e]
  show ?case
  proof (cases r1)
    case None
    with 3 e have i: "only_at {path_join [dir, worker_file]} (ex_fs x1) (ex_fs x')
      \<and> (r = None \<longrightarrow> (if ex_mode x1 = None then ex_mode x' \<noteq> None
           \<and> holds_worker dir (tar_entries es) (ex_fs x') else x' = x1))" by simp
    from i c None show ?thesis
      by (auto simp: only_at_def holds_worker_def split: if_splits)
  next
    case (Some err)
    with 3 e c show ?thesis by auto
  qed
qed (auto simp: only_at_refl split: if_splits)

text \<open>
  C24: an archive can write one file only. Whatever the entries are called and whatever fails,
  extraction changes no path but the worker's in the staging directory; when it succeeds that
  file holds the data of a complete regular entry named clawmast at depth at most one, whose
  cleaned path does not leave the archive's root.
\<close>
theorem extraction_confined:
  assumes "extract_tar dir es \<lparr>ex_fs = f, ex_mode = None\<rparr> = (r, x)"
  shows "only_at {path_join [dir, worker_file]} f (ex_fs x)
    \<and> (r = None \<longrightarrow> (\<exists>e \<in> set (tar_entries es). worker_entry e
         \<and> nodes (ex_fs x) (path_join [dir, worker_file]) = Some (File (Text (t_data e)))))"
  using extract_tar_cases [OF assms] by (auto simp: holds_worker_def)

definition demo_archive :: tar_stream where
  "demo_archive = TarEntry \<lparr>t_name = ''clawmast-linux-amd64/README'', t_regular = True, t_mode = 420,
      t_data = ''doc'', t_complete = True\<rparr>
    (TarEntry \<lparr>t_name = ''clawmast-linux-amd64/clawmast'', t_regular = True, t_mode = 493,
      t_data = ''ELF'', t_complete = True\<rparr> TarEnd)"

lemma demo_archive_paths:
  "clean ''clawmast-linux-amd64/README'' = ''clawmast-linux-amd64/README''"
  "clean ''clawmast-linux-amd64/clawmast'' = ''clawmast-linux-amd64/clawmast''"
  "split_on (CHR ''/'') ''clawmast-linux-amd64/README'' = [''clawmast-linux-amd64'', ''README'']"
  "split_on (CHR ''/'') ''clawmast-linux-amd64/clawmast'' = [''clawmast-linux-amd64'', ''clawmast'']"
  "path_join [''/r/versions/.v2.partial'', ''clawmast''] = ''/r/versions/.v2.partial/clawmast''"
  "\<not> unsafe_path ''clawmast-linux-amd64/README''" "\<not> unsafe_path ''clawmast-linux-amd64/clawmast''"
  by code_simp+

lemma demo_extract:
  "\<exists>x. extract_tar ''/r/versions/.v2.partial'' demo_archive \<lparr>ex_fs = links_fs [], ex_mode = None\<rparr> = (None, x)
    \<and> ex_mode x = Some 493"
  by (simp add: demo_archive_def extract_entry_def demo_archive_paths worker_file_def os_defs
      links_fs_def entry_mode_def Let_def)

lemma extraction_confined_witness:
  "\<exists>x. extract_tar ''/r/versions/.v2.partial'' demo_archive \<lparr>ex_fs = links_fs [], ex_mode = None\<rparr> = (None, x)
    \<and> nodes (ex_fs x) ''/r/current'' = nodes (links_fs []) ''/r/current''"
proof -
  obtain x where x: "extract_tar ''/r/versions/.v2.partial'' demo_archive
      \<lparr>ex_fs = links_fs [], ex_mode = None\<rparr> = (None, x)" using demo_extract by blast
  from extraction_confined [OF x] x show ?thesis
    by (auto simp: only_at_def worker_file_def demo_archive_paths)
qed

subsection \<open>What is downloaded is what was signed\<close>

lemma download_passed:
  assumes "download_and_extract untar sha256 reply art dir f = (Inr n, f')"
  shows "\<exists>r entries x b. b = wrap64 (a_size art + 1) \<and> reply = Some r \<and> d_status r = 200
    \<and> untar (take (nat b) (d_body r)) = Some entries
    \<and> extract_tar dir entries \<lparr>ex_fs = f, ex_mode = None\<rparr> = (None, x) \<and> f' = ex_fs x
    \<and> n = b - (b - int (length (take (nat b) (d_body r))))
    \<and> b - int (length (take (nat b) (d_body r))) \<noteq> 0 \<and> wrap64 n = a_size art
    \<and> equal_fold (sha256 (take (nat b) (d_body r))) (a_sha art)"
  using assms unfolding download_and_extract_def Let_def
  by (clarsimp simp del: take_all_iff length_take split: option.split_asm if_split_asm prod.split_asm)

text \<open>
  A download that succeeds is exactly the artifact of the manifest: the server's body has
  the advertised size to the byte, its digest is the advertised one, and the worker in the
  staging directory is an entry of that very archive. The 64-bit budget of Size + 1 bytes
  cannot be defeated by an extreme size.
\<close>
theorem download_verified:
  assumes "download_and_extract untar sha256 reply art dir f = (Inr n, f')"
    and "in_int64 (a_size art)" and "0 < a_size art"
  shows "\<exists>r entries. reply = Some r \<and> d_status r = 200 \<and> int (length (d_body r)) = a_size art
    \<and> n = a_size art \<and> equal_fold (sha256 (d_body r)) (a_sha art)
    \<and> untar (d_body r) = Some entries \<and> holds_worker dir (tar_entries entries) f'
    \<and> only_at {path_join [dir, worker_file]} f f'"
proof -
  let ?b = "wrap64 (a_size art + 1)"
  obtain r entries x where r: "reply = Some r" "d_status r = 200"
    and u: "untar (take (nat ?b) (d_body r)) = Some entries"
    and x: "extract_tar dir entries \<lparr>ex_fs = f, ex_mode = None\<rparr> = (None, x)" "f' = ex_fs x"
    and n: "n = ?b - (?b - int (length (take (nat ?b) (d_body r))))"
    and s: "?b - int (length (take (nat ?b) (d_body r))) \<noteq> 0" "wrap64 n = a_size art"
    and h: "equal_fold (sha256 (take (nat ?b) (d_body r))) (a_sha art)"
    using download_passed [OF assms(1)] by blast
  have b: "?b = a_size art + 1"
  proof (rule ccontr)
    assume "?b \<noteq> a_size art + 1"
    then have "\<not> in_int64 (a_size art + 1)" using wrap64_id by blast
    with assms(2,3) have "a_size art = 2 ^ 63 - 1" by (auto simp: in_int64_def)
    then have "?b = - (2 ^ 63)" by (simp add: wrap64_eq)
    with n have "n = 0" by simp
    with s(2) assms(3) show False by (simp add: in_int64_def)
  qed
  let ?k = "length (take (nat ?b) (d_body r))"
  have le: "int ?k \<le> a_size art + 1" using b assms(3) by (simp add: nat_le_iff min_le_iff_disj)
  have nk: "n = int ?k" using n by simp
  with s(1) b le have lt: "int ?k \<le> a_size art" by linarith
  then have "in_int64 n" using nk assms(2) by (auto simp: in_int64_def)
  with s(2) have na: "n = a_size art" by simp
  have "?k < nat ?b" using lt b by linarith
  then have whole: "take (nat ?b) (d_body r) = d_body r" by simp
  from extract_tar_cases [OF x(1)] x(2) r u h na nk whole show ?thesis by auto
qed

lemma lower_a: "to_lower_char (CHR ''A'') = CHR ''a''" "to_lower_char (CHR ''a'') = CHR ''a''"
  by code_simp+

lemma download_verified_witness:
  "\<exists>f'. download_and_extract (\<lambda>_. Some demo_archive) (\<lambda>_. replicate 64 (CHR ''A''))
     (Some \<lparr>d_status = 200, d_body = ''0123456789'', d_broken = False\<rparr>) demo_artifact
     ''/r/versions/.v2.partial'' (links_fs []) = (Inr 10, f')
   \<and> holds_worker ''/r/versions/.v2.partial'' (tar_entries demo_archive) f'"
proof -
  obtain x where x: "extract_tar ''/r/versions/.v2.partial'' demo_archive
      \<lparr>ex_fs = links_fs [], ex_mode = None\<rparr> = (None, x)" using demo_extract by blast
  have e: "equal_fold (replicate n (CHR ''A'')) (replicate n (CHR ''a''))" for n
    by (simp add: equal_fold_def to_lower_def lower_a)
  have d: "download_and_extract (\<lambda>_. Some demo_archive) (\<lambda>_. replicate 64 (CHR ''A''))
     (Some \<lparr>d_status = 200, d_body = ''0123456789'', d_broken = False\<rparr>) demo_artifact
     ''/r/versions/.v2.partial'' (links_fs []) = (Inr 10, ex_fs x)"
    using x by (simp add: download_and_extract_def demo_artifact_def in_int64_def e)
  from download_verified [OF d] d show ?thesis
    by (auto simp: demo_artifact_def in_int64_def)
qed

subsection \<open>A failed installation changes nothing that runs\<close>

definition protected_path :: "string \<Rightarrow> string \<Rightarrow> string \<Rightarrow> bool" where
  \<comment> \<open>outside the directories an installation of the version builds\<close>
  "protected_path root version q \<longleftrightarrow> q \<noteq> versions_dir root
     \<and> q \<notin> tree (staging_dir root version) \<and> q \<notin> tree (target_dir root version)
     \<and> q \<noteq> path_join [staging_dir root version, worker_file]
     \<and> q \<noteq> path_join [staging_dir root version, ''MANIFEST.json'']"

definition steady :: "(string \<Rightarrow> bool) \<Rightarrow> fsys \<Rightarrow> fsys \<Rightarrow> bool" where
  \<comment> \<open>the paths of a set keep their nodes, and no fault appears\<close>
  "steady P f g \<longleftrightarrow> (\<forall>q. P q \<longrightarrow> nodes g q = nodes f q) \<and> (faults f = [] \<longrightarrow> faults g = [])"

lemma steady_trans: "steady P f g \<Longrightarrow> steady P g h \<Longrightarrow> steady P f h"
  by (simp add: steady_def)

lemma steady_refl: "steady P f f"
  by (simp add: steady_def)

lemma steady_os:
  "steady (protected_path root v) f (snd (os_mkdir_all (versions_dir root) f))"
  "steady (protected_path root v) f (snd (os_mkdir_all (staging_dir root v) f))"
  "steady (protected_path root v) f (snd (os_remove_all (staging_dir root v) f))"
  "steady (protected_path root v) f (snd (os_remove_all (target_dir root v) f))"
  "steady (protected_path root v) f (snd (os_rename (staging_dir root v) (target_dir root v) f))"
  "steady (protected_path root v) f (snd (os_write_file (path_join [staging_dir root v, ''MANIFEST.json'']) d f))"
proof -
  have t: "q \<noteq> p" if "q \<notin> tree p" for p q using that by (auto simp: tree_def)
  show "steady (protected_path root v) f (snd (os_mkdir_all (versions_dir root) f))"
  "steady (protected_path root v) f (snd (os_mkdir_all (staging_dir root v) f))"
  "steady (protected_path root v) f (snd (os_remove_all (staging_dir root v) f))"
  "steady (protected_path root v) f (snd (os_remove_all (target_dir root v) f))"
  "steady (protected_path root v) f (snd (os_rename (staging_dir root v) (target_dir root v) f))"
  "steady (protected_path root v) f (snd (os_write_file (path_join [staging_dir root v, ''MANIFEST.json'']) d f))"
    unfolding steady_def protected_path_def by (simp_all add: os_outside os_clean t)
qed

lemma prepare_steady: "steady (protected_path root v) f (snd (prepare_staging root v f))"
proof -
  obtain r1 f1 where 1: "os_mkdir_all (versions_dir root) f = (r1, f1)" by fastforce
  obtain r2 f2 where 2: "os_remove_all (staging_dir root v) f1 = (r2, f2)" by fastforce
  have s1: "steady (protected_path root v) f f1" using steady_os(1) [of root v f] 1 by simp
  have s2: "steady (protected_path root v) f f2"
    using steady_trans [OF s1] steady_os(3) [of root v f1] 2 by simp
  have s3: "steady (protected_path root v) f (snd (os_mkdir_all (staging_dir root v) f2))"
    by (rule steady_trans [OF s2 steady_os(2)])
  show ?thesis
    using s1 s2 s3 by (cases r1; cases r2) (simp_all add: prepare_staging_def 1 2)
qed

lemma os_stat_steady: "steady P f (snd (os_stat_ok p f))"
  by (rule guarded_cases [of "\<lambda>f. (Inr (nodes f p \<noteq> None), f)" f])
    (auto simp: os_stat_ok_def steady_def guarded_clean split: sum.splits)

lemma promote_steady: "steady (protected_path root v) f (snd (promote root v f))"
proof -
  obtain b f1 where 1: "os_stat_ok (target_dir root v) f = (b, f1)" by fastforce
  obtain r2 f2 where 2: "os_remove_all (target_dir root v) f1 = (r2, f2)" by fastforce
  have s1: "steady (protected_path root v) f f1"
    using os_stat_steady [of "protected_path root v" f "target_dir root v"] 1 by simp
  have s2: "steady (protected_path root v) f f2"
    using steady_trans [OF s1] steady_os(4) [of root v f1] 2 by simp
  note r = steady_trans [OF s1 steady_os(5)] steady_trans [OF s2 steady_os(5)]
  show ?thesis
    using s2 r by (cases b; cases r2) (simp_all add: promote_def 1 2)
qed

lemma extract_tar_faults:
  "faults (ex_fs x) = [] \<Longrightarrow> faults (ex_fs (snd (extract_tar dir es x))) = []"
proof (induction dir es x rule: extract_tar.induct)
  case (3 dir e es x)
  have "faults (ex_fs (snd (extract_entry dir e x))) = []"
    using 3(2) os_clean by (auto simp: extract_entry_def Let_def os_write_file_def os_close_def
        split: option.splits node.splits)
  with 3 show ?case by (auto split: prod.splits option.splits)
qed simp_all

lemma download_steady:
  assumes "download_and_extract untar sha256 reply art (staging_dir root v) f = (r, f')"
  shows "steady (protected_path root v) f f'"
proof -
  have x: "steady (protected_path root v) f (ex_fs (snd (extract_tar (staging_dir root v) es \<lparr>ex_fs = f, ex_mode = None\<rparr>)))"
    for es
    using extract_tar_cases [OF surjective_pairing, where dir = "staging_dir root v" and es = es
        and x = "\<lparr>ex_fs = f, ex_mode = None\<rparr>"]
      extract_tar_faults [where x = "\<lparr>ex_fs = f, ex_mode = None\<rparr>" and dir = "staging_dir root v" and es = es]
    by (auto simp: steady_def only_at_def protected_path_def)
  show ?thesis
  proof (cases "f' = f")
    case False
    with assms obtain es r0 x where
      "extract_tar (staging_dir root v) es \<lparr>ex_fs = f, ex_mode = None\<rparr> = (r0, x)" "f' = ex_fs x"
      by (auto simp: download_and_extract_def Let_def split: option.splits if_splits prod.splits)
    with x [of es] show ?thesis by simp
  qed (simp add: steady_refl)
qed

lemma install_artifact_cases:
  assumes run: "install_artifact fetch_into root v art now f = (r, f')"
    and fetch: "\<forall>f r f'. fetch_into f = (r, f') \<longrightarrow> steady (protected_path root v) f f'"
  shows "(steady (protected_path root v) f f' \<and> (\<exists>e. r = Inl e) \<and> (\<forall>e. r \<noteq> Inl (Rotate e)) \<and> (\<forall>e. r \<noteq> Inl (Marker e)))
    \<or> (\<exists>g n. steady (protected_path root v) f g \<and> activate root v now n g = (r, f'))"
proof -
  let ?P = "protected_path root v"
  obtain r1 f1 where 1: "prepare_staging root v f = (r1, f1)" by fastforce
  obtain r2 f2 where 2: "fetch_into f1 = (r2, f2)" by fastforce
  obtain r3 f3 where 3: "write_version_manifest (staging_dir root v) v art now f2 = (r3, f3)" by fastforce
  obtain r4 f4 where 4: "promote root v f3 = (r4, f4)" by fastforce
  have s1: "steady ?P f f1" using prepare_steady [of root v f] 1 by simp
  have s2: "steady ?P f f2" by (rule steady_trans [OF s1 fetch [rule_format, OF 2]])
  have "steady ?P f2 f3"
    using steady_os(6) [of root v f2 "Doc (version_manifest v art now)"] 3
    by (simp add: write_version_manifest_def)
  with s2 have s3: "steady ?P f f3" by (rule steady_trans)
  have s4: "steady ?P f f4" using steady_trans [OF s3] promote_steady [of root v f3] 4 by simp
  have c: "steady ?P f (snd (os_remove_all (staging_dir root v) g))" if "steady ?P f g" for g
    by (rule steady_trans [OF that steady_os(3)])
  show ?thesis
    using run 1 2 3 4 s1 s4 c [OF s2] c [OF s3]
    by (auto simp: install_artifact_def split: sum.splits)
qed

text \<open>
  C18: an update that fails before the links are rotated leaves the running installation
  alone, whatever fails and wherever: every path outside the staging and the target
  directories, the links and the marker among them, has the node it had.
\<close>
theorem failed_update_harmless:
  assumes "apply_update untar sha256 net goos goarch cfg now f = (Inl err, f')"
    and "p_manifest cfg = Some m" and "protected_path (p_root cfg) (f_version m) q"
    and "\<forall>e. err \<noteq> Rotate e" and "\<forall>e. err \<noteq> Marker e"
  shows "nodes f' q = nodes f q"
proof -
  consider "f' = f" | art where "install_artifact (download_and_extract untar sha256 (net (a_url art)) art
      (staging_dir (p_root cfg) (f_version m))) (p_root cfg) (f_version m) art now f = (Inl err, f')"
    using assms(1,2) by (auto simp: apply_update_def split: if_splits option.splits)
  then show ?thesis
  proof cases
    case 2
    have "\<forall>g r g'. download_and_extract untar sha256 (net (a_url art)) art
        (staging_dir (p_root cfg) (f_version m)) g = (r, g')
        \<longrightarrow> steady (protected_path (p_root cfg) (f_version m)) g g'"
      by (intro allI impI) (rule download_steady)
    from install_artifact_cases [OF 2 this]
    show ?thesis
    proof (elim disjE exE conjE)
      fix g n assume "activate (p_root cfg) (f_version m) now n g = (Inl err, f')"
      with assms(4,5) show ?thesis by (auto simp: activate_def split: sum.splits option.splits prod.splits)
    qed (use assms(3) in \<open>auto simp: steady_def\<close>)
  qed simp
qed

definition marker_paths :: "string \<Rightarrow> string set" where
  "marker_paths root = {gate_marker_path root, tmp_of (gate_marker_path root), dir_of (gate_marker_path root)}"

definition updatable :: "string \<Rightarrow> string \<Rightarrow> string \<Rightarrow> fsys \<Rightarrow> bool" where
  \<comment> \<open>no call fails, a version other than the new one is current, the marker can be written, and
    the links and the marker are not inside the directories the installation builds\<close>
  "updatable root v a f \<longleftrightarrow> root \<noteq> [] \<and> faults f = []
     \<and> nodes f (current_link root) = Some (Link a) \<and> a \<noteq> path_join [''versions'', v]
     \<and> nodes f (previous_link root) \<noteq> Some Dir
     \<and> nodes f (gate_marker_path root) \<noteq> Some Dir \<and> nodes f (tmp_of (gate_marker_path root)) \<noteq> Some Dir
     \<and> nodes f (dir_of (gate_marker_path root)) \<in> {None, Some Dir}
     \<and> dir_of (gate_marker_path root) \<notin> {gate_marker_path root, tmp_of (gate_marker_path root)}
     \<and> {current_link root, previous_link root} \<inter> marker_paths root = {}
     \<and> (\<forall>q \<in> {current_link root, previous_link root} \<union> marker_paths root. protected_path root v q)"

lemma activate_clean:
  assumes run: "activate root v now n f = (Inr res, f')"
    and up: "updatable root v a f" and v: "v \<noteq> []" and now: "\<not> time_is_zero now" "time_encodable now"
  shows "link_at f' (current_link root) = Some (path_join [''versions'', v])
    \<and> link_at f' (previous_link root) = Some a
    \<and> nodes f' (gate_marker_path root) = Some (File (Doc (encode_marker \<lparr>m_version = v, m_installed_at = now\<rparr>)))
    \<and> faults f' = []"
proof -
  note u = up [unfolded updatable_def marker_paths_def]
  have ne: "root \<noteq> []" using u by blast
  obtain g where g: "rotate_symlinks root v f = (Inr (a, path_join [''versions'', v], a), g)" "faults g = []"
    "nodes g = (nodes f)(previous_link root \<mapsto> Link a, current_link root \<mapsto> Link (path_join [''versions'', v]))"
    using rotate_clean [of f root a v] u by auto
  have ng: "nodes g q = nodes f q" if "q \<in> marker_paths root" for q
    using that u g(3) by (auto simp: marker_paths_def)
  let ?m = "\<lparr>m_version = v, m_installed_at = now\<rparr>"
  obtain h where h: "write_gate_marker root ?m now g = (None, h)" "faults h = []"
    "nodes h (gate_marker_path root) = Some (File (Doc (encode_marker ?m)))"
    "only_at {tmp_of (gate_marker_path root), gate_marker_path root, dir_of (gate_marker_path root)} g h"
    using write_marker_clean [of g ?m root now] g(2) v now u ng by (auto simp: marker_paths_def)
  have "f' = h" using run g(1) h(1) by (simp add: activate_def)
  moreover have "current_link root \<noteq> previous_link root" by (rule link_paths_distinct(1) [OF ne])
  ultimately show ?thesis
    using h g(3) u by (auto simp: link_at_def only_at_def)
qed

lemma updatable_steady:
  assumes "updatable root v a f" "steady (protected_path root v) f g"
  shows "updatable root v a g"
proof -
  note u = assms(1) [unfolded updatable_def]
  have e: "nodes g q = nodes f q" if "q \<in> {current_link root, previous_link root} \<union> marker_paths root" for q
  proof -
    have "protected_path root v q" using that u by blast
    with assms(2) show ?thesis by (simp add: steady_def)
  qed
  have "faults g = []" using u assms(2) by (simp add: steady_def)
  with u e show ?thesis unfolding updatable_def by (auto simp: marker_paths_def)
qed

lemma update_effect:
  assumes "apply_update untar sha256 net goos goarch cfg now f = (Inr res, f')"
    and "p_manifest cfg = Some m" and "updatable (p_root cfg) (f_version m) a f"
    and "\<not> time_is_zero now" and "time_encodable now"
  shows "link_at f' (current_link (p_root cfg)) = Some (path_join [''versions'', f_version m])
    \<and> link_at f' (previous_link (p_root cfg)) = Some a
    \<and> nodes f' (gate_marker_path (p_root cfg)) =
        Some (File (Doc (encode_marker \<lparr>m_version = f_version m, m_installed_at = now\<rparr>)))
    \<and> faults f' = []"
proof -
  let ?r = "p_root cfg" and ?v = "f_version m"
  from assms(1,2) obtain art where
    i: "install_artifact (download_and_extract untar sha256 (net (a_url art)) art (staging_dir ?r ?v))
      ?r ?v art now f = (Inr res, f')" and val: "validate m = None"
    by (auto simp: apply_update_def split: if_splits option.splits)
  have v: "?v \<noteq> []" using val by (auto simp: validate_None)
  have d: "\<forall>g r g'. download_and_extract untar sha256 (net (a_url art)) art (staging_dir ?r ?v) g = (r, g')
      \<longrightarrow> steady (protected_path ?r ?v) g g'"
    by (intro allI impI) (rule download_steady)
  from install_artifact_cases [OF i d] obtain g n where
    g: "steady (protected_path ?r ?v) f g" "activate ?r ?v now n g = (Inr res, f')" by auto
  show ?thesis
    by (rule activate_clean [OF g(2) updatable_steady [OF assms(3) g(1)] v assms(4,5)])
qed

text \<open>
  An update that succeeds leaves the tree ready for a supervised trial: the new version
  is current, the version that ran is previous, so that it can be taken back, and the marker
  names the new version with the time of the install.
\<close>
theorem update_activates:
  assumes "apply_update untar sha256 net goos goarch cfg now f = (Inr res, f')"
    and "p_manifest cfg = Some m" and "updatable (p_root cfg) (f_version m) a f"
    and "\<not> time_is_zero now" and "time_encodable now"
  shows "link_at f' (current_link (p_root cfg)) = Some (path_join [''versions'', f_version m])
    \<and> link_at f' (previous_link (p_root cfg)) = Some a
    \<and> read_gate_marker (p_root cfg) f' = (Inr \<lparr>m_version = f_version m, m_installed_at = now\<rparr>, f')"
  using update_effect [OF assms] read_marker_clean by blast

definition demo_apply :: apply_config where
  "demo_apply = \<lparr>p_root = ''/r'', p_current = ''v1'', p_manifest = Some demo_manifest\<rparr>"

definition demo_http :: "string \<Rightarrow> download_reply option" where
  "demo_http u = Some \<lparr>d_status = 200, d_body = ''0123456789'', d_broken = False\<rparr>"

definition one_version_fs :: fsys where
  "one_version_fs = \<lparr>nodes = [''/r/current'' \<mapsto> Link ''versions/v1''], faults = []\<rparr>"

lemma demo_install_paths:
  "versions_dir ''/r'' = ''/r/versions''" "staging_dir ''/r'' ''v2'' = ''/r/versions/.v2.partial''"
  "target_dir ''/r'' ''v2'' = ''/r/versions/v2''"
  "path_join [''/r/versions/.v2.partial'', ''MANIFEST.json''] = ''/r/versions/.v2.partial/MANIFEST.json''"
  "path_join [''versions'', ''v2''] = ''versions/v2''"
  "current_link ''/r'' = ''/r/current''" "previous_link ''/r'' = ''/r/previous''"
  "gate_marker_path ''/r'' = ''/r/state/install-gate.json''"
  "tmp_of ''/r/state/install-gate.json'' = ''/r/state/install-gate.json.tmp''"
  "dir_of ''/r/state/install-gate.json'' = ''/r/state''"
  by code_simp+

lemma demo_updatable: "updatable ''/r'' ''v2'' ''versions/v1'' one_version_fs"
  unfolding updatable_def protected_path_def marker_paths_def demo_install_paths demo_archive_paths
    worker_file_def
  by (simp add: one_version_fs_def tree_def below_def demo_install_paths demo_archive_paths)

abbreviation demo_update :: "(apply_error + apply_result) \<times> fsys" where
  "demo_update \<equiv> apply_update (\<lambda>_. Some demo_archive) (\<lambda>_. replicate 64 (CHR ''A'')) demo_http
    ''linux'' ''amd64'' demo_apply (seconds 100) one_version_fs"

lemma demo_update_run:
  "case demo_update of (Inl _, _) \<Rightarrow> False
   | (Inr _, f) \<Rightarrow> list_all (\<lambda>q. nodes f q = None)
       [''/r/.swap.tmp'', ''/r/state/blacklist.json'', ''/r/state/blacklist.json.tmp'']
     \<and> nodes f ''/r/state'' = Some Dir \<and> faults f = []"
  by code_simp

lemma demo_apply_succeeds: "\<exists>res f'. demo_update = (Inr res, f')"
  using demo_update_run by (cases demo_update) (auto split: sum.splits)

lemma demo_update_free:
  "list_all (\<lambda>q. nodes (snd demo_update) q = None)
     [''/r/.swap.tmp'', ''/r/state/blacklist.json'', ''/r/state/blacklist.json.tmp'']
   \<and> nodes (snd demo_update) ''/r/state'' = Some Dir \<and> faults (snd demo_update) = []"
  using demo_update_run by (cases demo_update) (simp split: sum.splits)

lemma update_activates_witness:
  "\<exists>res f'. apply_update (\<lambda>_. Some demo_archive) (\<lambda>_. replicate 64 (CHR ''A'')) demo_http
    ''linux'' ''amd64'' demo_apply (seconds 100) one_version_fs = (Inr res, f')
    \<and> link_at f' ''/r/current'' = Some ''versions/v2'' \<and> link_at f' ''/r/previous'' = Some ''versions/v1''"
proof -
  obtain res f' where a: "apply_update (\<lambda>_. Some demo_archive) (\<lambda>_. replicate 64 (CHR ''A'')) demo_http
    ''linux'' ''amd64'' demo_apply (seconds 100) one_version_fs = (Inr res, f')"
    using demo_apply_succeeds by blast
  from update_activates [OF a, of demo_manifest "''versions/v1''"] a show ?thesis
    by (auto simp: demo_apply_def demo_manifest_def demo_updatable demo_install_paths
        time_is_zero_def time_encodable_def)
qed

lemma failed_update_harmless_witness:
  "\<exists>err f'. apply_update (\<lambda>_. None) (\<lambda>_. []) demo_http ''linux'' ''amd64'' demo_apply (seconds 100)
      one_version_fs = (Inl err, f')
    \<and> nodes f' ''/r/current'' = Some (Link ''versions/v1'')"
proof -
  obtain f' where a: "apply_update (\<lambda>_. None) (\<lambda>_. []) demo_http ''linux'' ''amd64'' demo_apply (seconds 100)
      one_version_fs = (Inl (Download BadGzip), f')"
    by (simp add: apply_update_def demo_apply_def demo_manifest_valid for_host_def)
      (simp add: demo_manifest_def demo_artifact_def install_artifact_def prepare_staging_def os_defs
        demo_install_paths one_version_fs_def below_def download_and_extract_def demo_http_def Let_def)
  have "protected_path ''/r'' ''v2'' ''/r/current''"
    using demo_updatable by (auto simp: updatable_def demo_install_paths)
  from failed_update_harmless [OF a, of demo_manifest "''/r/current''"] this a show ?thesis
    by (auto simp: demo_apply_def demo_manifest_def one_version_fs_def)
qed

text \<open>
  Validation does not confine the install. A manifest that passes Validate can carry a
  version with parent directories in it, and Apply then builds and, when it exists, first
  removes a directory outside the install root.
\<close>
theorem version_escapes_root:
  "\<exists>m. validate m = None \<and> target_dir ''/home/u/.clawmast'' (f_version m) = ''/home/u/docs''"
proof -
  have "target_dir ''/home/u/.clawmast'' ''v/../../../docs'' = ''/home/u/docs''" by code_simp
  moreover have "validate (demo_manifest\<lparr>f_version := ''v/../../../docs''\<rparr>) = None"
    using demo_manifest_valid by (simp add: validate_None demo_manifest_def)
  ultimately show ?thesis
    by (intro exI [of _ "demo_manifest\<lparr>f_version := ''v/../../../docs''\<rparr>"]) simp
qed

end
