(* ===== verification/Snapshot.thy ===== *)
theory Snapshot
  imports Strconv
begin

section \<open>The gateway's observed state (internal/openclaw/snapshot.go, phase.go, autoheal.go)\<close>

text \<open>
  \<open>snapshot\<close> is \<^verbatim>\<open>Snapshot\<close>. Its timestamps are instants: the string on the wire is
  \<open>Json.rfc3339\<close> of the instant, empty for 0. \<open>compute_phase\<close>, \<open>should_autoheal\<close> and
  \<open>needs_enrichment\<close> are the three pure decisions the poller makes from it.
\<close>

datatype phase = PhaseUnknown | PhaseMissing | PhaseStopped | PhaseStarting | PhaseRunning | PhaseError

datatype intent = IntentUnknown | IntentRunning | IntentStopped

record probe_sample =
  ps_at :: instant
  ps_alive :: bool
  ps_ms :: int

record snapshot =
  n_phase :: phase
  n_probed :: bool
  n_alive :: bool
  n_cli_missing :: bool
  n_binary_path :: string
  n_binary_source :: string
  n_probe_error :: string
  n_last_probe :: instant
  n_probe_ms :: int
  n_last_alive :: instant
  n_health_ts :: int
  n_health_ms :: int
  n_agent :: string
  n_heartbeat :: int
  n_sessions :: int
  n_channels :: int
  n_intent :: intent
  n_action :: string
  n_enriched :: instant
  n_host :: string
  n_port :: int
  n_port_source :: string
  n_resolved :: instant
  n_pid :: int
  n_pid_since :: instant
  n_crashes :: int
  n_history :: "probe_sample list"
  n_ah_enabled :: bool
  n_ah_count :: int
  n_ah_last :: instant
  n_ah_down :: int
  n_ah_next :: instant

definition zero_snapshot :: snapshot where
  "zero_snapshot = \<lparr>n_phase = PhaseUnknown, n_probed = False, n_alive = False, n_cli_missing = False,
     n_binary_path = [], n_binary_source = [], n_probe_error = [], n_last_probe = 0, n_probe_ms = 0,
     n_last_alive = 0, n_health_ts = 0, n_health_ms = 0, n_agent = [], n_heartbeat = 0,
     n_sessions = 0, n_channels = 0, n_intent = IntentUnknown, n_action = [], n_enriched = 0,
     n_host = [], n_port = 0, n_port_source = [], n_resolved = 0, n_pid = 0, n_pid_since = 0,
     n_crashes = 0, n_history = [], n_ah_enabled = False, n_ah_count = 0, n_ah_last = 0,
     n_ah_down = 0, n_ah_next = 0\<rparr>"

subsection \<open>The phase\<close>

definition warmup_grace_period :: duration where "warmup_grace_period = seconds 15"

definition starting_action :: "string \<Rightarrow> bool" where
  "starting_action a \<longleftrightarrow> a \<in> set [''start'', ''restart'', ''fix'']"

definition compute_phase_with_grace ::
  "snapshot \<Rightarrow> string \<Rightarrow> instant \<Rightarrow> instant \<Rightarrow> duration \<Rightarrow> phase" where
  "compute_phase_with_grace s current_action last_start now grace =
     (if \<not> n_probed s then PhaseUnknown
      else if n_cli_missing s then PhaseMissing
      else if n_intent s = IntentStopped then PhaseStopped
      else if starting_action current_action then PhaseStarting
      else if n_alive s then PhaseRunning
      else if \<not> time_is_zero last_start \<and> time_sub now last_start < grace then PhaseStarting
      else PhaseError)"

definition compute_phase :: "snapshot \<Rightarrow> string \<Rightarrow> instant \<Rightarrow> instant \<Rightarrow> phase" where
  "compute_phase s a last_start now = compute_phase_with_grace s a last_start now warmup_grace_period"

subsection \<open>Autoheal\<close>

record autoheal_config =
  ah_enabled :: bool
  ah_threshold :: int
  ah_cooldown :: duration
  ah_trigger :: bool       \<comment> \<open>\<^verbatim>\<open>Trigger\<close> is not nil\<close>

definition with_autoheal :: "autoheal_config \<Rightarrow> autoheal_config" where
  \<comment> \<open>the configuration \<^verbatim>\<open>WithAutoheal\<close> installs\<close>
  "with_autoheal c = c
     \<lparr>ah_threshold := (if ah_threshold c \<le> 0 then 3 else ah_threshold c),
      ah_cooldown := (if ah_cooldown c \<le> 0 then minutes 5 else ah_cooldown c)\<rparr>"

definition should_autoheal :: "snapshot \<Rightarrow> autoheal_config \<Rightarrow> instant \<Rightarrow> bool" where
  "should_autoheal s c now =
     (if \<not> ah_enabled c then False
      else if n_alive s then False
      else if n_intent s = IntentStopped then False
      else if n_cli_missing s then False
      else if n_ah_down s < ah_threshold c then False
      else if \<not> time_is_zero (n_ah_next s) \<and> time_before now (n_ah_next s) then False
      else True)"

subsection \<open>Rate limit of the enrichment probe\<close>

definition enrichment_interval :: duration where "enrichment_interval = seconds 30"

definition needs_enrichment :: "snapshot \<Rightarrow> bool \<Rightarrow> instant \<Rightarrow> bool" where
  "needs_enrichment prev now_alive now =
     (if time_is_zero (n_enriched prev) then True
      else if now_alive \<and> \<not> n_alive prev then True
      else if \<not> now_alive then False
      else time_sub now (n_enriched prev) \<ge> enrichment_interval)"

definition probe_history_len :: nat where "probe_history_len = 20"

definition append_probe_sample :: "probe_sample list \<Rightarrow> probe_sample \<Rightarrow> probe_sample list" where
  "append_probe_sample history sample =
     (let out = history @ [sample]
      in if length out > probe_history_len then drop (length out - probe_history_len) out else out)"

subsection \<open>What the decisions mean\<close>

lemma compute_phase_running:
  "compute_phase s a ls now = PhaseRunning \<longleftrightarrow>
    n_probed s \<and> \<not> n_cli_missing s \<and> n_intent s \<noteq> IntentStopped \<and> \<not> starting_action a \<and> n_alive s"
  by (auto simp: compute_phase_def compute_phase_with_grace_def)

text \<open>
  The badge's alarm is exact. The phase is error precisely when a probe found the gateway
  down, the CLI is there, the operator has not asked for it to be stopped, no start, restart
  or fix is running, and the last start attempt, if any, is at least 15 seconds old; it is
  stopped only on the operator's word, whatever is observed.
\<close>
theorem phase_alarm_exact:
  "(compute_phase s a ls now = PhaseError \<longleftrightarrow>
      n_probed s \<and> \<not> n_alive s \<and> \<not> n_cli_missing s \<and> n_intent s \<noteq> IntentStopped
      \<and> a \<notin> {''start'', ''restart'', ''fix''} \<and> (ls = 0 \<or> seconds 15 \<le> now - ls))
   \<and> (compute_phase s a ls now = PhaseStopped \<longleftrightarrow>
      n_probed s \<and> \<not> n_cli_missing s \<and> n_intent s = IntentStopped)"
proof -
  have t: "time_sub now ls < seconds 15 \<longleftrightarrow> now - ls < seconds 15"
    by (rule time_sub_less_iff) (simp_all add: in_int64_def)
  show ?thesis
    unfolding compute_phase_def compute_phase_with_grace_def warmup_grace_period_def t
    by (auto simp: starting_action_def time_is_zero_def)
qed

lemma should_autoheal_iff:
  "should_autoheal s c now \<longleftrightarrow> ah_enabled c \<and> \<not> n_alive s \<and> n_intent s \<noteq> IntentStopped
     \<and> \<not> n_cli_missing s \<and> ah_threshold c \<le> n_ah_down s \<and> (n_ah_next s = 0 \<or> n_ah_next s \<le> now)"
  by (auto simp: should_autoheal_def time_is_zero_def time_before_def)

definition last_samples :: "'a list \<Rightarrow> 'a list" where
  "last_samples xs = drop (length xs - probe_history_len) xs"

lemma append_last_samples: "append_probe_sample (last_samples xs) x = last_samples (xs @ [x])"
proof (cases "length xs < probe_history_len")
  case False
  then have "Suc (length xs - probe_history_len) = Suc (length xs) - probe_history_len" by simp
  with False show ?thesis
    by (simp add: append_probe_sample_def last_samples_def probe_history_len_def Let_def drop_Suc
        tl_drop [symmetric])
qed (simp add: append_probe_sample_def last_samples_def Let_def)

end
