(* ===== verification/GatewayAddr.thy ===== *)
theory GatewayAddr
  imports Strconv
begin

section \<open>Running the openclaw CLI and finding the gateway (internal/openclaw/exec.go, gateway_addr.go)\<close>

text \<open>
  \<open>proc\<close> is what the environment decides about one \<^verbatim>\<open>exec\<close> of the CLI; \<open>run_cmd\<close> is
  \<^verbatim>\<open>Runner.runCmd\<close>. \<open>resolve_address\<close> is \<^verbatim>\<open>ResolveGatewayAddress\<close>; the document the CLI
  prints is decoded by the argument \<open>unmarshal\<close>.
\<close>

datatype wait_result = WaitOk | WaitExit | WaitError string
  \<comment> \<open>\<^verbatim>\<open>cmd.Run\<close> returns nil, an \<^verbatim>\<open>ExitError\<close>, or another error\<close>

record proc =
  p_on_path :: bool             \<comment> \<open>\<^verbatim>\<open>exec.LookPath\<close> succeeds\<close>
  p_deadline :: bool            \<comment> \<open>the timeout expired\<close>
  p_cancelled :: bool           \<comment> \<open>the caller's context was cancelled\<close>
  p_wait :: wait_result
  p_exit :: "int option"        \<comment> \<open>the exit code, when a process state exists\<close>
  p_stdout :: string
  p_stderr :: string
  p_duration :: duration

record cmd_result =
  x_argv :: "string list"
  x_stdout :: string
  x_stderr :: string
  x_exit :: int
  x_duration :: duration
  x_killed :: bool

datatype cmd_error = BinaryMissing | TimedOut "string list" duration | ContextCancelled
  | RunFailed "string list" string

definition run_cmd ::
  "string \<Rightarrow> proc \<Rightarrow> duration \<Rightarrow> string list \<Rightarrow> cmd_result option \<times> cmd_error option" where
  "run_cmd binary p timeout args =
     (let bin = (if binary = [] then ''openclaw'' else binary)
      in if \<not> p_on_path p \<and> binary = [] then (None, Some BinaryMissing)
         else let res = \<lparr>x_argv = bin # args, x_stdout = p_stdout p, x_stderr = p_stderr p,
                    x_exit = (case p_exit p of None \<Rightarrow> 0 | Some c \<Rightarrow> c), x_duration = p_duration p,
                    x_killed = False\<rparr>
              in if p_deadline p then (Some (res\<lparr>x_killed := True\<rparr>), Some (TimedOut args timeout))
                 else case p_wait p of
                   WaitOk \<Rightarrow> (Some res, None)
                 | WaitExit \<Rightarrow> (Some res, None)
                 | WaitError e \<Rightarrow>
                     (if p_cancelled p then (Some (res\<lparr>x_killed := True\<rparr>), Some ContextCancelled)
                      else (Some res, Some (RunFailed args e))))"

definition show_args :: "string list \<Rightarrow> string" where
  \<comment> \<open>\<^verbatim>\<open>%v\<close> of a slice of strings\<close>
  "show_args args = ''['' @ join_with '' '' args @ '']''"

fun cmd_error_text :: "cmd_error \<Rightarrow> string" where
  \<comment> \<open>the timeouts in the sources are whole seconds below a minute\<close>
  "cmd_error_text BinaryMissing = ''openclaw: binary not found on PATH''"
| "cmd_error_text (TimedOut args t) =
     ''openclaw '' @ show_args args @ '': timeout after '' @ show_int (t div 1000000000) @ ''s (killed)''"
| "cmd_error_text ContextCancelled = ''context canceled''"
| "cmd_error_text (RunFailed args e) = ''openclaw '' @ show_args args @ '': '' @ e"

definition trim_err :: "string \<Rightarrow> string" where
  "trim_err b = (if length b \<le> 400 then trim_space b else trim_space (drop (length b - 400) b))"

definition probe_timeout :: duration where "probe_timeout = seconds 12"

subsection \<open>The address cache\<close>

record gateway_address =
  g_host :: string
  g_port :: int
  g_source :: string
  g_pid :: int
  g_resolved :: instant

definition default_gateway_host :: string where "default_gateway_host = ''127.0.0.1''"
definition default_gateway_port :: int where "default_gateway_port = 18789"

definition seed_address :: gateway_address where
  "seed_address = \<lparr>g_host = default_gateway_host, g_port = default_gateway_port,
     g_source = ''default'', g_pid = 0, g_resolved = 0\<rparr>"

definition http_health_url :: "gateway_address \<Rightarrow> string" where
  "http_health_url g =
     (let h = (if g_host g = [] then default_gateway_host else g_host g);
          p = (if g_port g \<le> 0 then default_gateway_port else g_port g)
      in ''http://'' @ h @ '':'' @ show_int p @ ''/health'')"

record status_envelope =
  v_host :: string
  v_port :: int
  v_source :: string
  v_status :: string
  v_pid :: int

definition gateway_block :: "status_envelope \<Rightarrow> string \<times> json \<Rightarrow> status_envelope option" where
  "gateway_block e kv = (case kv of (k, v) \<Rightarrow>
     if equal_fold k ''bindHost'' then map_option (\<lambda>s. e\<lparr>v_host := s\<rparr>) (decode_string (v_host e) v)
     else if equal_fold k ''port'' then map_option (\<lambda>n. e\<lparr>v_port := n\<rparr>) (decode_int (v_port e) v)
     else if equal_fold k ''portSource'' then map_option (\<lambda>s. e\<lparr>v_source := s\<rparr>) (decode_string (v_source e) v)
     else Some e)"

definition runtime_block :: "status_envelope \<Rightarrow> string \<times> json \<Rightarrow> status_envelope option" where
  "runtime_block e kv = (case kv of (k, v) \<Rightarrow>
     if equal_fold k ''status'' then map_option (\<lambda>s. e\<lparr>v_status := s\<rparr>) (decode_string (v_status e) v)
     else if equal_fold k ''pid'' then map_option (\<lambda>n. e\<lparr>v_pid := n\<rparr>) (decode_int (v_pid e) v)
     else Some e)"

definition service_block :: "status_envelope \<Rightarrow> string \<times> json \<Rightarrow> status_envelope option" where
  "service_block e kv = (case kv of (k, v) \<Rightarrow>
     if equal_fold k ''runtime'' then decode_struct runtime_block e v else Some e)"

definition envelope_field :: "status_envelope \<Rightarrow> string \<times> json \<Rightarrow> status_envelope option" where
  "envelope_field e kv = (case kv of (k, v) \<Rightarrow>
     if equal_fold k ''gateway'' then decode_struct gateway_block e v
     else if equal_fold k ''service'' then decode_struct service_block e v
     else Some e)"

definition zero_envelope :: status_envelope where
  "zero_envelope = \<lparr>v_host = [], v_port = 0, v_source = [], v_status = [], v_pid = 0\<rparr>"

datatype resolve_error = CmdError cmd_error | StatusExit int string | BadStatusJson | BadPort int

definition resolve_address ::
  "(string \<Rightarrow> json option) \<Rightarrow> string \<Rightarrow> proc \<Rightarrow> instant \<Rightarrow> gateway_address
   \<Rightarrow> (resolve_error + gateway_address) \<times> gateway_address" where
  \<comment> \<open>the result and the cache afterwards\<close>
  "resolve_address unmarshal binary p now cache =
     (case run_cmd binary p probe_timeout [''gateway'', ''status'', ''--json''] of
        (_, Some e) \<Rightarrow> (Inl (CmdError e), cache)
      | (None, None) \<Rightarrow> (Inl BadStatusJson, cache)
      | (Some res, None) \<Rightarrow>
          if x_exit res \<noteq> 0 then (Inl (StatusExit (x_exit res) (trim_err (x_stderr res))), cache)
          else case Option.bind (unmarshal (x_stdout res)) (decode_struct envelope_field zero_envelope) of
            None \<Rightarrow> (Inl BadStatusJson, cache)
          | Some env \<Rightarrow>
              if v_port env \<le> 0 then (Inl (BadPort (v_port env)), cache)
              else let addr = \<lparr>g_host = (if v_host env = [] then default_gateway_host else v_host env),
                     g_port = v_port env,
                     g_source = (if v_source env = [] then ''service args'' else v_source env),
                     g_pid = (if v_status env = ''running'' then v_pid env else 0),
                     g_resolved = now\<rparr>
                   in (Inr addr, addr))"

fun resolve_all ::
  "(string \<Rightarrow> json option) \<Rightarrow> (string \<times> proc \<times> instant) list \<Rightarrow> gateway_address \<Rightarrow> gateway_address"
where
  \<comment> \<open>the cache after the runs of \<^verbatim>\<open>runAddressResolver\<close>\<close>
  "resolve_all um [] cache = cache"
| "resolve_all um ((b, p, now) # runs) cache = resolve_all um runs (snd (resolve_address um b p now cache))"

lemma run_cmd_result:
  "run_cmd b p t args = (None, e) \<Longrightarrow> e \<noteq> None"
  by (auto simp: run_cmd_def Let_def split: if_splits wait_result.splits)

lemma resolve_address_cache:
  "resolve_address um b p now cache = (r, cache') \<Longrightarrow>
   (case r of Inl _ \<Rightarrow> cache' = cache | Inr a \<Rightarrow> cache' = a \<and> 0 < g_port a \<and> g_host a \<noteq> [])"
  by (auto simp: resolve_address_def Let_def default_gateway_host_def not_le
      split: prod.splits option.splits if_splits)

text \<open>
  The address the probe is sent to is always usable. Starting from the seed, after any
  sequence of resolver runs, whatever the CLI prints, exits with or is killed for, the cache
  holds a host and a positive port, and a failed run leaves it as it was.
\<close>
theorem address_always_usable:
  "0 < g_port (resolve_all unmarshal runs seed_address)
    \<and> g_host (resolve_all unmarshal runs seed_address) \<noteq> []"
proof -
  have "0 < g_port (resolve_all unmarshal runs c) \<and> g_host (resolve_all unmarshal runs c) \<noteq> []"
    if "0 < g_port c \<and> g_host c \<noteq> []" for c
    using that
  proof (induction runs arbitrary: c)
    case (Cons r runs)
    obtain b p now where r: "r = (b, p, now)" by (cases r) auto
    obtain q c' where q: "resolve_address unmarshal b p now c = (q, c')" by fastforce
    have "0 < g_port c' \<and> g_host c' \<noteq> []"
      using resolve_address_cache [OF q] Cons.prems by (cases q) auto
    from Cons.IH [OF this] show ?case by (simp add: r q)
  qed simp
  then show ?thesis
    by (simp add: seed_address_def default_gateway_host_def default_gateway_port_def)
qed

definition status_json :: "string \<Rightarrow> int \<Rightarrow> json" where
  "status_json st pid = JObj [(''gateway'', JObj [(''port'', JNum 18790)]),
     (''service'', JObj [(''runtime'', JObj [(''status'', JStr st), (''pid'', JNum pid)])])]"

definition ok_proc :: "string \<Rightarrow> proc" where
  "ok_proc out = \<lparr>p_on_path = True, p_deadline = False, p_cancelled = False, p_wait = WaitOk,
     p_exit = Some 0, p_stdout = out, p_stderr = [], p_duration = millis 2000\<rparr>"

text \<open>
  A zero pid does overwrite the cached one. A single resolver run that sees the service
  stopped for a moment erases the pid that was observed, although the cache's comment rules
  that out.
\<close>
theorem zero_pid_overwrites:
  assumes "unmarshal out = Some (status_json ''stopped'' 4711)"
  shows "\<exists>a. resolve_address unmarshal ''oc'' (ok_proc out) now cache = (Inr a, a) \<and> g_pid a = 0"
  using assms
  by (simp add: resolve_address_def run_cmd_def ok_proc_def status_json_def envelope_field_def
      gateway_block_def service_block_def runtime_block_def zero_envelope_def equal_fold_def
      to_lower_def to_lower_char_def in_int64_def Let_def)

lemma zero_pid_overwrites_witness:
  "\<exists>a. resolve_address (\<lambda>_. Some (status_json ''stopped'' 4711)) ''oc'' (ok_proc ''{}'') 5
      (seed_address\<lparr>g_pid := 4711\<rparr>) = (Inr a, a) \<and> g_pid a = 0"
  by (rule zero_pid_overwrites) simp

end
