(* ===== verification/Discover.thy ===== *)
theory Discover
  imports GoStrings
begin

section \<open>Finding the openclaw executable (internal/openclaw/discover.go)\<close>

text \<open>
  \<open>host\<close> is what the lookups see: the environment variable, the override file, the result of
  \<^verbatim>\<open>exec.LookPath\<close>, the home directory, the listings of \<^verbatim>\<open>os.ReadDir\<close> (name and whether it
  is a directory) and \<^verbatim>\<open>os.Stat\<close> (whether it is a directory, and the mode).
\<close>

datatype discovery_source = SourceNone | SourceEnv | SourceOverride | SourcePath | SourceBrew
  | SourceUserBin | SourceNodeMgr

fun source_str :: "discovery_source \<Rightarrow> string" where
  "source_str SourceNone = ''none''"
| "source_str SourceEnv = ''env''"
| "source_str SourceOverride = ''override''"
| "source_str SourcePath = ''path''"
| "source_str SourceBrew = ''brew''"
| "source_str SourceUserBin = ''user-bin''"
| "source_str SourceNodeMgr = ''node-mgr''"

record host =
  env_bin :: string
  override_file :: "string \<Rightarrow> string option"
  look_path :: "string option"
  home_dir :: "string option"
  read_dir :: "string \<Rightarrow> (string \<times> bool) list option"
  stat :: "string \<Rightarrow> (bool \<times> int) option"
  windows :: bool

record discovery =
  d_path :: string
  d_source :: discovery_source

definition is_executable :: "host \<Rightarrow> string \<Rightarrow> bool" where
  "is_executable h p =
     (if p = [] then False
      else case stat h p of
        None \<Rightarrow> False
      | Some (is_dir, mode) \<Rightarrow>
          if is_dir then False else if windows h then True
          else and mode 73 \<noteq> 0)"   \<comment> \<open>0o111\<close>

fun first_line :: "string list \<Rightarrow> string" where
  "first_line [] = []"
| "first_line (l # ls) =
     (let line = trim_space l in if line = [] \<or> has_prefix line ''#'' then first_line ls else line)"

definition read_override :: "host \<Rightarrow> string \<Rightarrow> string" where
  "read_override h path =
     (case override_file h path of None \<Rightarrow> [] | Some raw \<Rightarrow> first_line (split_on (CHR 0x0A) raw))"

definition classify_path :: "string \<Rightarrow> discovery_source" where
  "classify_path p =
     (if has_prefix p ''/opt/homebrew/'' \<or> has_prefix p ''/usr/local/'' then SourceBrew
      else if contains_str p ''/.local/bin/'' then SourceUserBin
      else if contains_str p ''/.fnm/'' \<or> contains_str p ''/.nvm/'' \<or> contains_str p ''/.volta/''
        \<or> contains_str p ''/.asdf/'' \<or> contains_str p ''/.bun/'' \<or> contains_str p ''/.npm-global/''
      then SourceNodeMgr
      else SourcePath)"

definition version_candidates :: "host \<Rightarrow> string \<times> string list \<Rightarrow> string list" where
  \<comment> \<open>the listing of one version manager's root\<close>
  "version_candidates h rs =
     (case rs of (root, sufs) \<Rightarrow>
        (case read_dir h root of
           None \<Rightarrow> []
         | Some entries \<Rightarrow>
             concat (map (\<lambda>(name, is_dir). if is_dir then map (\<lambda>suf. path_join [root, name, suf]) sufs else [])
               entries)))"

definition bare_candidates :: "host \<Rightarrow> string list" where
  "bare_candidates h =
     (let fixed = (if windows h then [] else [''/opt/homebrew/bin/openclaw'', ''/usr/local/bin/openclaw''])
      in case home_dir h of
           None \<Rightarrow> fixed
         | Some home \<Rightarrow>
             if home = [] then fixed
             else fixed
               @ [path_join [home, ''.local'', ''bin'', ''openclaw''],
                  path_join [home, ''.bun'', ''bin'', ''openclaw''],
                  path_join [home, ''.volta'', ''bin'', ''openclaw''],
                  path_join [home, ''.npm-global'', ''bin'', ''openclaw'']]
               @ concat (map (version_candidates h)
                   [(path_join [home, ''.fnm'', ''node-versions''], [''installation/bin/openclaw'']),
                    (path_join [home, ''.nvm'', ''versions'', ''node''], [''bin/openclaw'']),
                    (path_join [home, ''.asdf'', ''installs'', ''nodejs''], [''bin/openclaw''])]))"

definition discover_tail :: "host \<Rightarrow> discovery" where
  \<comment> \<open>the last three strategies\<close>
  "discover_tail h =
     (case look_path h of
        Some p \<Rightarrow> \<lparr>d_path = p, d_source = classify_path p\<rparr>
      | None \<Rightarrow>
          (case List.find (is_executable h) (bare_candidates h) of
             Some c \<Rightarrow> \<lparr>d_path = c, d_source = classify_path c\<rparr>
           | None \<Rightarrow> \<lparr>d_path = [], d_source = SourceNone\<rparr>))"

definition discover :: "host \<Rightarrow> string \<Rightarrow> discovery" where
  "discover h state_dir =
     (let p = trim_space (env_bin h)
      in if p \<noteq> [] \<and> is_executable h p then \<lparr>d_path = p, d_source = SourceEnv\<rparr>
         else if state_dir \<noteq> [] then
           (let p = read_override h (path_join [state_dir, ''openclaw.path''])
            in if p \<noteq> [] \<and> is_executable h p then \<lparr>d_path = p, d_source = SourceOverride\<rparr>
               else discover_tail h)
         else discover_tail h)"

lemma classify_found: "classify_path p \<notin> {SourceNone, SourceEnv, SourceOverride}"
  by (simp add: classify_path_def)

lemma discover_sound:
  assumes "discover h dir = d" and "d_source d \<noteq> SourceNone"
  shows "is_executable h (d_path d) \<or> look_path h = Some (d_path d)"
  using assms
  by (auto simp: discover_def discover_tail_def Let_def find_Some_iff split: if_splits option.splits)

lemma discover_none:
  "d_source (discover h dir) = SourceNone \<Longrightarrow>
    look_path h = None \<and> (\<forall>c \<in> set (bare_candidates h). \<not> is_executable h c)"
  using classify_found
  by (fastforce simp: discover_def discover_tail_def Let_def find_None_iff split: if_splits option.splits)

text \<open>
  The operator's choice wins, and only runnable files are chosen. A path in the
  environment variable that is executable is used whatever else is installed; otherwise the
  override file decides; the result is an executable file or what the PATH lookup returned,
  and nothing is reported only when no candidate can be run.
\<close>
theorem discovery_order:
  "(let e = trim_space (env_bin h); ov = read_override h (path_join [dir, ''openclaw.path'']); d = discover h dir
    in (is_executable h e \<longrightarrow> d = \<lparr>d_path = e, d_source = SourceEnv\<rparr>)
     \<and> (\<not> is_executable h e \<and> dir \<noteq> [] \<and> is_executable h ov \<longrightarrow> d = \<lparr>d_path = ov, d_source = SourceOverride\<rparr>)
     \<and> (d_source d \<noteq> SourceNone \<longrightarrow> is_executable h (d_path d) \<or> look_path h = Some (d_path d))
     \<and> (d_source d = SourceNone \<longrightarrow> look_path h = None \<and> (\<forall>c \<in> set (bare_candidates h). \<not> is_executable h c)))"
proof -
  have ne: "\<not> is_executable h []" by (simp add: is_executable_def)
  have env: "discover h dir = \<lparr>d_path = trim_space (env_bin h), d_source = SourceEnv\<rparr>"
    if "is_executable h (trim_space (env_bin h))"
    using that ne by (cases "trim_space (env_bin h) = []") (simp_all add: discover_def)
  have ov: "discover h dir = \<lparr>d_path = p, d_source = SourceOverride\<rparr>"
    if "\<not> is_executable h (trim_space (env_bin h))" "dir \<noteq> []" "is_executable h p"
      "p = read_override h (path_join [dir, ''openclaw.path''])" for p
    using that ne by (cases "p = []") (simp_all add: discover_def)
  show ?thesis
    unfolding Let_def
    using env ov [OF _ _ _ refl] discover_sound [OF refl, of h dir] discover_none [of h dir] by blast
qed

definition demo_host :: host where
  "demo_host = \<lparr>env_bin = '' /opt/oc '', override_file = (\<lambda>_. None), look_path = Some ''/usr/bin/openclaw'',
     home_dir = None, read_dir = (\<lambda>_. None),
     stat = (\<lambda>p. if p = ''/opt/oc'' then Some (False, 493) else None), windows = False\<rparr>"

lemma discovery_order_witness:
  "is_executable demo_host (trim_space (env_bin demo_host)) \<and>
   discover demo_host ''/s'' = \<lparr>d_path = ''/opt/oc'', d_source = SourceEnv\<rparr>"
proof -
  have t: "trim_space (env_bin demo_host) = ''/opt/oc''"
    using trim_blanks(2) [of "''/opt/oc''"] by (simp add: demo_host_def graphic_def)
  moreover have "is_executable demo_host ''/opt/oc''" by code_simp
  ultimately show ?thesis using discovery_order [of demo_host "''/s''"] by (simp add: Let_def)
qed

end
