(* ===== verification/Poller.thy ===== *)
theory Poller
  imports Snapshot GatewayAddr Discover
begin

section \<open>Probing the gateway (internal/openclaw/status.go, poller.go, actionlog.go)\<close>

text \<open>
  \<open>manager\<close> is \<^verbatim>\<open>Manager\<close>. A probe has two halves: \<open>probe\<close> computes the next snapshot from
  the one read at its start, and \<open>commit\<close> merges it into the store under the lock; other
  operations may come between the two, as they do in the program. \<open>q_fast\<close> is the outcome of
  the HTTP request to /health, \<open>q_proc\<close> of the CLI (the variable
  \<^verbatim>\<open>probeFastDisabled\<close> is false, as it is outside tests), \<open>unmarshal\<close> decodes the documents.
\<close>

subsection \<open>One probe\<close>

datatype http_outcome = HttpError string | HttpReply int "string + bool"
  \<comment> \<open>status; the body: a decoding error, or the value of \<^verbatim>\<open>ok\<close>\<close>

record fast_result =
  f_ok :: bool
  f_duration :: duration
  f_error :: string

definition probe_fast :: "http_outcome \<Rightarrow> duration \<Rightarrow> fast_result" where
  "probe_fast r d =
     (case r of
        HttpError e \<Rightarrow> \<lparr>f_ok = False, f_duration = d, f_error = e\<rparr>
      | HttpReply status body \<Rightarrow>
          if status < 200 \<or> status \<ge> 300
          then \<lparr>f_ok = False, f_duration = d, f_error = ''http '' @ show_int status\<rparr>
          else case body of
            Inl e \<Rightarrow> \<lparr>f_ok = False, f_duration = d, f_error = ''parse /health: '' @ e\<rparr>
          | Inr ok \<Rightarrow>
              if \<not> ok then \<lparr>f_ok = False, f_duration = d, f_error = ''gateway /health reports ok=false''\<rparr>
              else \<lparr>f_ok = True, f_duration = d, f_error = []\<rparr>)"

record health =
  y_ok :: bool
  y_ts :: int
  y_ms :: int
  y_agent :: string
  y_heartbeat :: int
  y_sessions :: int
  y_channels :: "string list"

definition sessions_block :: "health \<Rightarrow> string \<times> json \<Rightarrow> health option" where
  "sessions_block h kv = (case kv of (k, v) \<Rightarrow>
     if equal_fold k ''count'' then map_option (\<lambda>n. h\<lparr>y_sessions := n\<rparr>) (decode_int (y_sessions h) v)
     else Some h)"

fun decode_keys :: "string list \<Rightarrow> json \<Rightarrow> string list option" where
  \<comment> \<open>the keys of a \<^verbatim>\<open>map[string]any\<close>; a later object adds to the map\<close>
  "decode_keys old JNull = Some []"
| "decode_keys old (JObj kvs) = Some (remdups (old @ map fst kvs))"
| "decode_keys old _ = None"

definition health_field :: "health \<Rightarrow> string \<times> json \<Rightarrow> health option" where
  "health_field h kv = (case kv of (k, v) \<Rightarrow>
     if equal_fold k ''ok'' then map_option (\<lambda>b. h\<lparr>y_ok := b\<rparr>) (decode_bool (y_ok h) v)
     else if equal_fold k ''ts'' then map_option (\<lambda>n. h\<lparr>y_ts := n\<rparr>) (decode_int (y_ts h) v)
     else if equal_fold k ''durationMs'' then map_option (\<lambda>n. h\<lparr>y_ms := n\<rparr>) (decode_int (y_ms h) v)
     else if equal_fold k ''defaultAgentId'' then map_option (\<lambda>s. h\<lparr>y_agent := s\<rparr>) (decode_string (y_agent h) v)
     else if equal_fold k ''heartbeatSeconds'' then map_option (\<lambda>n. h\<lparr>y_heartbeat := n\<rparr>) (decode_int (y_heartbeat h) v)
     else if equal_fold k ''sessions'' then decode_struct sessions_block h v
     else if equal_fold k ''channels'' then map_option (\<lambda>c. h\<lparr>y_channels := c\<rparr>) (decode_keys (y_channels h) v)
     else Some h)"

definition zero_health :: health where
  "zero_health = \<lparr>y_ok = False, y_ts = 0, y_ms = 0, y_agent = [], y_heartbeat = 0, y_sessions = 0,
     y_channels = []\<rparr>"

definition millis_of :: "duration \<Rightarrow> int" where "millis_of d = d sdiv 1000000"

datatype cli_role = CliEnrichOnly | CliAuthoritative

definition verdict :: "cli_role \<Rightarrow> bool \<Rightarrow> string \<Rightarrow> snapshot \<Rightarrow> snapshot" where
  \<comment> \<open>the writes the code guards by \<^verbatim>\<open>role == cliAuthoritative\<close>\<close>
  "verdict role alive e s =
     (if role = CliAuthoritative then s\<lparr>n_alive := alive, n_probe_error := e\<rparr> else s)"

definition probe_enrich_cli ::
  "(string \<Rightarrow> json option) \<Rightarrow> string \<Rightarrow> proc \<Rightarrow> snapshot \<Rightarrow> instant \<Rightarrow> cli_role \<Rightarrow> snapshot" where
  "probe_enrich_cli unmarshal binary p s now role =
     (case run_cmd binary p probe_timeout [''health'', ''--json''] of
        (res, Some BinaryMissing) \<Rightarrow>
          (let s = s\<lparr>n_cli_missing := True\<rparr>
           in if role = CliAuthoritative
              then s\<lparr>n_alive := False, n_probe_error := ''openclaw binary not found on PATH'', n_probe_ms := 0\<rparr>
              else s)
      | (res, e) \<Rightarrow>
          (let s = s\<lparr>n_cli_missing := False\<rparr>;
               s = (case res of Some r \<Rightarrow> if role = CliAuthoritative then s\<lparr>n_probe_ms := millis_of (x_duration r)\<rparr> else s
                    | None \<Rightarrow> s)
           in case (res, e) of
                (_, Some e) \<Rightarrow> verdict role False (cmd_error_text e) s
              | (None, None) \<Rightarrow> s
              | (Some r, None) \<Rightarrow>
                  if x_exit r \<noteq> 0
                  then verdict role False (''exit '' @ show_int (x_exit r) @ '': '' @ trim_err (x_stderr r)) s
                  else case Option.bind (unmarshal (x_stdout r)) (decode_struct health_field zero_health) of
                    None \<Rightarrow> verdict role False ''parse health json'' s
                  | Some h \<Rightarrow>
                      if \<not> y_ok h then verdict role False ''gateway reports ok=false'' s
                      else (let s = verdict role True [] s;
                                s = (if role = CliAuthoritative then s\<lparr>n_last_alive := now\<rparr> else s)
                            in s\<lparr>n_health_ts := y_ts h, n_health_ms := y_ms h, n_agent := y_agent h,
                                 n_heartbeat := y_heartbeat h, n_sessions := y_sessions h,
                                 n_channels := int (length (y_channels h)), n_enriched := now\<rparr>)))"

record probe_env =
  q_now :: instant             \<comment> \<open>the clock when the probe starts\<close>
  q_commit :: instant          \<comment> \<open>the clock before the store is locked\<close>
  q_fast :: http_outcome
  q_duration :: duration
  q_proc :: proc
  q_disc :: discovery          \<comment> \<open>what \<^verbatim>\<open>resolveRunner\<close> found; its path is the runner's binary\<close>

definition probe ::
  "(string \<Rightarrow> json option) \<Rightarrow> gateway_address \<Rightarrow> probe_env \<Rightarrow> snapshot \<Rightarrow> snapshot" where
  "probe unmarshal addr q prev =
     (let next = prev\<lparr>n_probed := True, n_last_probe := q_now q, n_host := g_host addr,
            n_port := g_port addr, n_port_source := g_source addr, n_resolved := g_resolved addr,
            n_pid := g_pid addr\<rparr>;
          fast = probe_fast (q_fast q) (q_duration q);
          next = (if f_ok fast
                  then next\<lparr>n_alive := True, n_probe_error := [], n_probe_ms := millis_of (f_duration fast),
                            n_last_alive := q_now q\<rparr>
                  else next\<lparr>n_alive := False, n_probe_error := f_error fast,
                            n_probe_ms := millis_of (f_duration fast)\<rparr>)
      in if needs_enrichment prev (n_alive next) (q_now q)
         then probe_enrich_cli unmarshal (d_path (q_disc q)) (q_proc q) next (q_now q) CliEnrichOnly
         else next)"

text \<open>When the CLI is the authority, its every outcome decides.\<close>

lemma authoritative_verdict:
  "n_alive (probe_enrich_cli um b p s now CliAuthoritative) \<longleftrightarrow>
     (\<exists>r h. run_cmd b p probe_timeout [''health'', ''--json''] = (Some r, None) \<and> x_exit r = 0
        \<and> Option.bind (um (x_stdout r)) (decode_struct health_field zero_health) = Some h \<and> y_ok h)
     \<or> (run_cmd b p probe_timeout [''health'', ''--json''] = (None, None) \<and> n_alive s)"
  by (auto simp: probe_enrich_cli_def verdict_def Let_def split: prod.splits option.splits cmd_error.splits)

subsection \<open>The manager\<close>

datatype step_outcome = NoOutcome | OutcomeOK | OutcomeTimeout | OutcomeFailed | OutcomeSkipped

record step_event =
  se_step :: string
  se_phase :: string
  se_outcome :: step_outcome
  se_command :: string
  se_ms :: int
  se_exit :: int
  se_stdout :: string
  se_stderr :: string
  se_note :: string

record action_log =
  l_name :: string
  l_running :: bool
  l_outcome :: string
  l_started :: instant
  l_finished :: instant
  l_events :: "step_event list"

record manager =
  g_store :: snapshot
  g_action :: string           \<comment> \<open>\<^verbatim>\<open>currentAction\<close>; empty for a nil pointer\<close>
  g_last_start :: int          \<comment> \<open>\<^verbatim>\<open>lastStartAttemptAt\<close>, nanoseconds since 1970\<close>
  g_log :: action_log
  g_autoheal :: autoheal_config
  g_addr :: gateway_address    \<comment> \<open>the package's address cache\<close>
  g_triggers :: "instant list" \<comment> \<open>when autoheal fired\<close>

definition empty_log :: action_log where
  "empty_log = \<lparr>l_name = [], l_running = False, l_outcome = [], l_started = 0, l_finished = 0, l_events = []\<rparr>"

definition new_manager :: "autoheal_config \<Rightarrow> manager" where
  "new_manager c = \<lparr>g_store = zero_snapshot, g_action = [], g_last_start = 0, g_log = empty_log,
     g_autoheal = with_autoheal c, g_addr = seed_address, g_triggers = []\<rparr>"

definition get :: "manager \<Rightarrow> snapshot" where
  "get m = (g_store m)\<lparr>n_action := g_action m\<rparr>"

definition set_intent :: "intent \<Rightarrow> manager \<Rightarrow> manager" where
  "set_intent i m = m\<lparr>g_store := (g_store m)\<lparr>n_intent := i\<rparr>\<rparr>"

definition reset_action_log :: "string \<Rightarrow> instant \<Rightarrow> manager \<Rightarrow> manager" where
  "reset_action_log name now m =
     m\<lparr>g_log := \<lparr>l_name = name, l_running = True, l_outcome = [], l_started = now, l_finished = 0, l_events = []\<rparr>\<rparr>"

definition set_current_action :: "string \<Rightarrow> instant \<Rightarrow> manager \<Rightarrow> manager" where
  "set_current_action name now m =
     (if name = [] then m\<lparr>g_action := []\<rparr> else reset_action_log name now (m\<lparr>g_action := name\<rparr>))"

definition clear_current_action :: "manager \<Rightarrow> manager" where
  "clear_current_action m = m\<lparr>g_action := []\<rparr>"

definition action_log_max_events :: nat where "action_log_max_events = 256"

definition record_action_event :: "step_event \<Rightarrow> manager \<Rightarrow> manager" where
  "record_action_event ev m =
     (if l_name (g_log m) = [] then m
      else if length (l_events (g_log m)) \<ge> action_log_max_events then m
      else m\<lparr>g_log := (g_log m)\<lparr>l_events := l_events (g_log m) @ [ev]\<rparr>\<rparr>)"

definition finalize_action_log :: "string \<Rightarrow> instant \<Rightarrow> manager \<Rightarrow> manager" where
  "finalize_action_log outcome now m =
     (if l_name (g_log m) = [] then m
      else m\<lparr>g_log := (g_log m)\<lparr>l_running := False, l_outcome := outcome, l_finished := now\<rparr>\<rparr>)"

definition unix_epoch :: instant where "unix_epoch = seconds 62135596800"

definition stamp_start_attempt :: "instant \<Rightarrow> manager \<Rightarrow> manager" where
  "stamp_start_attempt now m = m\<lparr>g_last_start := wrap64 (now - unix_epoch)\<rparr>"

definition last_start_attempt :: "manager \<Rightarrow> instant" where
  "last_start_attempt m = (if g_last_start m = 0 then 0 else g_last_start m + unix_epoch)"

subsection \<open>The commit\<close>

definition merge :: "snapshot \<Rightarrow> snapshot \<Rightarrow> probe_env \<Rightarrow> string \<Rightarrow> instant \<Rightarrow> autoheal_config \<Rightarrow> snapshot" where
  \<comment> \<open>the closure of \<^verbatim>\<open>ProbeNow\<close> up to the autoheal decision: \<open>s\<close> is the stored snapshot, \<open>next\<close>
    the probe's\<close>
  "merge s next q cur_action last_start cfg =
     (let next = next\<lparr>n_binary_path := d_path (q_disc q), n_binary_source := source_str (d_source (q_disc q))\<rparr>;
          sample = \<lparr>ps_at = n_last_probe next, ps_alive = n_alive next, ps_ms = n_probe_ms next\<rparr>;
          t = next\<lparr>n_intent := n_intent s,
                n_crashes := (if n_probed s \<and> n_alive s \<and> \<not> n_alive next then n_crashes s + 1 else n_crashes s),
                n_pid_since := (if n_pid next \<noteq> 0 \<and> n_pid next \<noteq> n_pid s then q_commit q else n_pid_since s),
                n_history := append_probe_sample (n_history s) sample,
                n_ah_count := n_ah_count s, n_ah_last := n_ah_last s, n_ah_next := n_ah_next s,
                n_ah_enabled := ah_enabled cfg, n_action := cur_action,
                n_ah_down := (if cur_action \<noteq> [] then 0 else if n_alive next then 0 else n_ah_down s + 1)\<rparr>
      in t\<lparr>n_phase := compute_phase t cur_action last_start (q_commit q)\<rparr>)"

definition commit :: "snapshot \<Rightarrow> probe_env \<Rightarrow> manager \<Rightarrow> manager" where
  "commit next q m =
     (let t = merge (g_store m) next q (g_action m) (last_start_attempt m) (g_autoheal m)
      in if g_action m = [] \<and> should_autoheal t (g_autoheal m) (q_commit q)
         then m\<lparr>g_store := t\<lparr>n_ah_count := n_ah_count t + 1, n_ah_last := q_commit q,
                    n_ah_next := time_add (q_commit q) (ah_cooldown (g_autoheal m)), n_ah_down := 0\<rparr>,
                g_triggers := g_triggers m @ [q_commit q]\<rparr>
         else m\<lparr>g_store := t\<rparr>)"

definition probe_now :: "(string \<Rightarrow> json option) \<Rightarrow> probe_env \<Rightarrow> manager \<Rightarrow> manager" where
  \<comment> \<open>\<^verbatim>\<open>ProbeNow\<close> with nothing in between\<close>
  "probe_now unmarshal q m = commit (probe unmarshal (g_addr m) q (g_store m)) q m"

definition poll_delay :: "duration \<Rightarrow> manager \<Rightarrow> duration" where
  \<comment> \<open>the interval \<^verbatim>\<open>Start\<close> waits after a probe\<close>
  "poll_delay interval m = (if n_alive (g_store m) then interval else seconds 2)"

definition resolve_once :: "(string \<Rightarrow> json option) \<Rightarrow> string \<Rightarrow> proc \<Rightarrow> instant \<Rightarrow> manager \<Rightarrow> manager" where
  "resolve_once unmarshal binary p now m =
     (if binary = [] then m
      else m\<lparr>g_addr := snd (resolve_address unmarshal binary p now (g_addr m))\<rparr>)"

subsection \<open>Interleavings\<close>

text \<open>
  \<open>op\<close> is one atomic step of the process: the second half of a probe that started from some
  earlier snapshot and address, or one of the writes of the HTTP handlers.
\<close>

datatype op = Probe gateway_address snapshot probe_env | Intend intent | Begin string instant | Finish
  | Stamp instant | LogEvent step_event | CloseLog string instant
  | Resolve string proc instant

fun apply_op :: "(string \<Rightarrow> json option) \<Rightarrow> manager \<Rightarrow> op \<Rightarrow> manager" where
  "apply_op um m (Probe addr prev q) = commit (probe um addr q prev) q m"
| "apply_op um m (Intend i) = set_intent i m"
| "apply_op um m (Begin a t) = set_current_action a t m"
| "apply_op um m Finish = clear_current_action m"
| "apply_op um m (Stamp t) = stamp_start_attempt t m"
| "apply_op um m (LogEvent e) = record_action_event e m"
| "apply_op um m (CloseLog out t) = finalize_action_log out t m"
| "apply_op um m (Resolve b p t) = resolve_once um b p t m"

definition run_ops :: "(string \<Rightarrow> json option) \<Rightarrow> manager \<Rightarrow> op list \<Rightarrow> manager" where
  "run_ops um m ops = foldl (apply_op um) m ops"

lemma run_ops_snoc: "run_ops um m (ops @ [x]) = apply_op um (run_ops um m ops) x"
  by (simp add: run_ops_def)

lemmas handler_defs = set_intent_def set_current_action_def reset_action_log_def
  clear_current_action_def stamp_start_attempt_def record_action_event_def finalize_action_log_def
  resolve_once_def

definition http_ok :: "probe_env \<Rightarrow> bool" where
  "http_ok q \<longleftrightarrow> (case q_fast q of HttpReply st (Inr True) \<Rightarrow> 200 \<le> st \<and> st < 300 | _ \<Rightarrow> False)"

lemma probe_fast_ok: "f_ok (probe_fast (q_fast q) d) = http_ok q"
  by (auto simp: probe_fast_def http_ok_def split: http_outcome.splits sum.splits bool.splits)

lemma enrich_frame:
  "n_alive (probe_enrich_cli um b p s now CliEnrichOnly) = n_alive s"
  "n_probed (probe_enrich_cli um b p s now CliEnrichOnly) = n_probed s"
  "n_last_probe (probe_enrich_cli um b p s now CliEnrichOnly) = n_last_probe s"
  "n_probe_ms (probe_enrich_cli um b p s now CliEnrichOnly) = n_probe_ms s"
  "n_pid (probe_enrich_cli um b p s now CliEnrichOnly) = n_pid s"
  by (auto simp: probe_enrich_cli_def verdict_def Let_def split: prod.splits option.splits cmd_error.splits)

lemma probe_facts:
  "n_alive (probe um addr q prev) = http_ok q" "n_probed (probe um addr q prev)"
  "n_pid (probe um addr q prev) = g_pid addr"
  by (simp_all add: probe_def Let_def enrich_frame probe_fast_ok)

lemma merge_facts:
  "n_alive (merge s next q a ls cfg) = n_alive next"
  "n_probed (merge s next q a ls cfg) = n_probed next"
  "n_cli_missing (merge s next q a ls cfg) = n_cli_missing next"
  "n_intent (merge s next q a ls cfg) = n_intent s"
  "n_ah_next (merge s next q a ls cfg) = n_ah_next s"
  "n_ah_count (merge s next q a ls cfg) = n_ah_count s"
  "n_ah_down (merge s next q a ls cfg) =
     (if a \<noteq> [] then 0 else if n_alive next then 0 else n_ah_down s + 1)"
  "n_crashes (merge s next q a ls cfg) =
     (if n_probed s \<and> n_alive s \<and> \<not> n_alive next then n_crashes s + 1 else n_crashes s)"
  "n_history (merge s next q a ls cfg) = append_probe_sample (n_history s)
     \<lparr>ps_at = n_last_probe next, ps_alive = n_alive next, ps_ms = n_probe_ms next\<rparr>"
  by (simp_all add: merge_def Let_def)

lemma probe_sample_facts:
  "n_last_probe (probe um addr q prev) = q_now q"
  "n_probe_ms (probe um addr q prev) = millis_of (q_duration q)"
  by (simp_all add: probe_def Let_def enrich_frame) (auto simp: probe_fast_def split: http_outcome.splits sum.splits)

lemma commit_store:
  "g_autoheal (commit n q m) = g_autoheal m" "g_action (commit n q m) = g_action m"
  "g_log (commit n q m) = g_log m" "g_addr (commit n q m) = g_addr m"
  "n_alive (g_store (commit n q m)) = n_alive n" "n_probed (g_store (commit n q m)) = n_probed n"
  "n_intent (g_store (commit n q m)) = n_intent (g_store m)"
  "n_crashes (g_store (commit n q m)) =
     (if n_probed (g_store m) \<and> n_alive (g_store m) \<and> \<not> n_alive n then n_crashes (g_store m) + 1
      else n_crashes (g_store m))"
  "n_history (g_store (commit n q m)) = append_probe_sample (n_history (g_store m))
     \<lparr>ps_at = n_last_probe n, ps_alive = n_alive n, ps_ms = n_probe_ms n\<rparr>"
  by (simp_all add: commit_def Let_def merge_facts)

text \<open>
  The operator's last word stands. Whatever probes were in flight, with whatever stale
  snapshot they started, the stored intent after any interleaving is the one the last
  SetIntent wrote.
\<close>
theorem last_intent_wins:
  "n_intent (g_store (run_ops um m ops)) =
    last (n_intent (g_store m) # concat (map (\<lambda>x. case x of Intend i \<Rightarrow> [i] | _ \<Rightarrow> []) ops))"
proof (induction ops rule: rev_induct)
  case (snoc x ops)
  then show ?case
    by (cases x) (auto simp: run_ops_snoc commit_store handler_defs Let_def)
qed (simp add: run_ops_def)

subsection \<open>Crash counting and history\<close>

fun sample_of :: "op \<Rightarrow> probe_sample list" where
  "sample_of (Probe addr prev q) = [\<lparr>ps_at = q_now q, ps_alive = http_ok q, ps_ms = millis_of (q_duration q)\<rparr>]"
| "sample_of _ = []"

definition samples :: "op list \<Rightarrow> probe_sample list" where
  "samples ops = concat (map sample_of ops)"

definition falls :: "bool list \<Rightarrow> int" where
  \<comment> \<open>how often a true is followed by a false\<close>
  "falls bs = int (length (filter (\<lambda>(a, b). a \<and> \<not> b) (zip bs (tl bs))))"

lemma zip_tl_snoc: "xs \<noteq> [] \<Longrightarrow> zip (xs @ [y]) (tl (xs @ [y])) = zip xs (tl xs) @ [(last xs, y)]"
proof (induction xs)
  case (Cons x xs)
  then show ?case by (cases xs) auto
qed simp

lemma falls_snoc:
  "falls (bs @ [b]) = falls bs + (if bs \<noteq> [] \<and> last bs \<and> \<not> b then 1 else 0)"
proof (cases "bs = []")
  case False
  then show ?thesis unfolding falls_def zip_tl_snoc [OF False] by simp
qed (simp add: falls_def)

lemma poller_trace:
  "n_history (g_store (run_ops um (new_manager cfg) ops)) = last_samples (samples ops)
   \<and> n_crashes (g_store (run_ops um (new_manager cfg) ops)) = falls (map ps_alive (samples ops))
   \<and> (n_probed (g_store (run_ops um (new_manager cfg) ops)) \<longleftrightarrow> samples ops \<noteq> [])
   \<and> (samples ops \<noteq> [] \<longrightarrow> n_alive (g_store (run_ops um (new_manager cfg) ops)) = ps_alive (last (samples ops)))"
proof (induction ops rule: rev_induct)
  case Nil
  show ?case
    by (simp add: run_ops_def new_manager_def zero_snapshot_def samples_def last_samples_def falls_def)
next
  case (snoc x ops)
  show ?case
  proof (cases "\<exists>addr prev q. x = Probe addr prev q")
    case True
    then obtain addr prev q where x: "x = Probe addr prev q" by blast
    let ?s = "\<lparr>ps_at = q_now q, ps_alive = http_ok q, ps_ms = millis_of (q_duration q)\<rparr>"
    have sa: "samples (ops @ [Probe addr prev q]) = samples ops @ [?s]" by (simp add: samples_def)
    show ?thesis
      unfolding x run_ops_snoc sa using snoc
      by (auto simp: commit_store probe_facts probe_sample_facts append_last_samples falls_snoc
          last_map)
  next
    case False
    then have sa: "samples (ops @ [x]) = samples ops" by (cases x) (simp_all add: samples_def)
    from False snoc show ?thesis
      unfolding sa run_ops_snoc by (cases x) (simp_all add: handler_defs Let_def)
  qed
qed

text \<open>
  The crash counter and the sparkline are exact. Over any interleaving of probes with the
  handlers' writes, the counter is the number of times an answered health request was
  followed by an unanswered one, and the history holds the last twenty samples, in order; the
  CLI's enrichment never changes the verdict.
\<close>
theorem poller_counts_exactly:
  "n_crashes (g_store (run_ops um (new_manager cfg) ops)) = falls (map ps_alive (samples ops))
   \<and> n_history (g_store (run_ops um (new_manager cfg) ops)) = last_samples (samples ops)"
  using poller_trace by blast

subsection \<open>Autoheal is restrained\<close>

lemma commit_autoheal:
  "g_triggers (commit n q m) = g_triggers m @ (if g_action m = [] \<and> should_autoheal
       (merge (g_store m) n q (g_action m) (last_start_attempt m) (g_autoheal m)) (g_autoheal m) (q_commit q)
     then [q_commit q] else [])"
  by (auto simp: commit_def Let_def)

definition cooling :: "manager \<Rightarrow> bool" where
  \<comment> \<open>the cooldown bookkeeping agrees with the triggers\<close>
  "cooling m \<longleftrightarrow> (let s = g_store m; ts = g_triggers m; d = ah_cooldown (g_autoheal m) in
     successively (\<lambda>a b. a + d \<le> b) ts \<and> (\<forall>t \<in> set ts. 0 \<le> t)
     \<and> (if ts = [] then n_ah_next s = 0 else n_ah_next s = last ts + d))"

lemma successively_snoc:
  "successively P (xs @ [y]) \<longleftrightarrow> successively P xs \<and> (xs = [] \<or> P (last xs) y)"
  by (simp add: successively_append_iff)

lemma commit_cooling:
  assumes "cooling m" "0 \<le> q_commit q" "0 < ah_cooldown (g_autoheal m)"
  shows "cooling (commit n q m)"
proof (cases "g_action m = [] \<and> should_autoheal
    (merge (g_store m) n q (g_action m) (last_start_attempt m) (g_autoheal m)) (g_autoheal m) (q_commit q)")
  case True
  then have e: "n_ah_next (g_store m) = 0 \<or> n_ah_next (g_store m) \<le> q_commit q"
    by (simp add: should_autoheal_iff merge_facts)
  show ?thesis
  proof (cases "g_triggers m = []")
    case none: True
    with True assms show ?thesis
      by (auto simp: cooling_def commit_def Let_def time_add_def merge_facts)
  next
    case some: False
    have l0: "0 \<le> last (g_triggers m)"
      using assms(1) last_in_set [OF some] by (auto simp: cooling_def Let_def)
    have n: "n_ah_next (g_store m) = last (g_triggers m) + ah_cooldown (g_autoheal m)"
      using assms(1) some by (simp add: cooling_def Let_def)
    from l0 n assms(3) have "n_ah_next (g_store m) \<noteq> 0" by linarith
    with e n have "last (g_triggers m) + ah_cooldown (g_autoheal m) \<le> q_commit q" by simp
    moreover have a: "g_action m = []" using True by simp
    moreover have "should_autoheal (merge (g_store m) n q [] (last_start_attempt m) (g_autoheal m))
        (g_autoheal m) (q_commit q)" using True a by simp
    ultimately show ?thesis using some assms
      by (simp add: cooling_def commit_def Let_def time_add_def successively_snoc)
  qed
next
  case False
  with assms(1) show ?thesis
    by (auto simp: cooling_def commit_def Let_def merge_facts)
qed

lemma run_cooling:
  assumes "\<forall>addr prev q. Probe addr prev q \<in> set ops \<longrightarrow> 0 \<le> q_commit q"
  shows "cooling (run_ops um (new_manager cfg) ops)
    \<and> g_autoheal (run_ops um (new_manager cfg) ops) = with_autoheal cfg"
  using assms
proof (induction ops rule: rev_induct)
  case Nil
  show ?case by (simp add: run_ops_def new_manager_def cooling_def zero_snapshot_def)
next
  case (snoc x ops)
  then have i: "cooling (run_ops um (new_manager cfg) ops)"
    "g_autoheal (run_ops um (new_manager cfg) ops) = with_autoheal cfg" by auto
  have d: "0 < ah_cooldown (with_autoheal cfg)" by (simp add: with_autoheal_def)
  show ?case
  proof (cases x)
    case (Probe addr prev q)
    then have "0 \<le> q_commit q" using snoc.prems by auto
    with commit_cooling [OF i(1)] i d Probe show ?thesis
      by (simp add: run_ops_snoc commit_store)
  qed (use i in \<open>simp_all add: run_ops_snoc handler_defs cooling_def Let_def\<close>)
qed

text \<open>
  C30: autoheal cannot run wild. Over any interleaving of concurrent probes with the
  operator's actions, two recoveries are never started closer together than the cooldown
  (five minutes unless configured).
\<close>
theorem autoheal_cooldown:
  assumes "\<forall>addr prev q. Probe addr prev q \<in> set ops \<longrightarrow> 0 \<le> q_commit q"
  shows "successively (\<lambda>a b. a + ah_cooldown (with_autoheal cfg) \<le> b)
    (g_triggers (run_ops um (new_manager cfg) ops))"
  using run_cooling [OF assms, of um cfg] by (auto simp: cooling_def Let_def)

fun verdicts :: "(string \<Rightarrow> json option) \<Rightarrow> manager \<Rightarrow> op list \<Rightarrow> (bool \<times> bool) list" where
  \<comment> \<open>of every probe: was the gateway up, was an action in flight\<close>
  "verdicts um m [] = []"
| "verdicts um m (x # xs) =
     (case x of Probe addr prev q \<Rightarrow> [(http_ok q, g_action m \<noteq> [])] | _ \<Rightarrow> [])
     @ verdicts um (apply_op um m x) xs"

lemma verdicts_append: "verdicts um m (xs @ ys) = verdicts um m xs @ verdicts um (run_ops um m xs) ys"
  by (induction xs arbitrary: m) (simp_all add: run_ops_def)

definition down_streak :: "(bool \<times> bool) list \<Rightarrow> int" where
  "down_streak vs = int (length (takeWhile (\<lambda>(up, busy). \<not> up \<and> \<not> busy) (rev vs)))"

lemma down_streak_snoc:
  "down_streak (vs @ [(up, busy)]) = (if up \<or> busy then 0 else down_streak vs + 1)"
  by (simp add: down_streak_def)

lemma ah_down_nonneg: "0 \<le> n_ah_down (g_store (run_ops um (new_manager cfg) ops))"
proof (induction ops rule: rev_induct)
  case (snoc y ys)
  then show ?case
    by (cases y) (auto simp: run_ops_snoc commit_def merge_facts handler_defs Let_def)
qed (simp add: run_ops_def new_manager_def zero_snapshot_def)

lemma ah_down_streak:
  "n_ah_down (g_store (run_ops um (new_manager cfg) ops)) \<le> down_streak (verdicts um (new_manager cfg) ops)"
proof (induction ops rule: rev_induct)
  case Nil
  show ?case by (simp add: run_ops_def new_manager_def zero_snapshot_def down_streak_def)
next
  case (snoc x ops)
  have nn: "0 \<le> down_streak vs" for vs by (simp add: down_streak_def)
  show ?case
  proof (cases x)
    case (Probe addr prev q)
    let ?m = "run_ops um (new_manager cfg) ops"
    have c: "n_ah_down (g_store (commit n q m)) \<le> (if g_action m \<noteq> [] \<or> n_alive n then 0 else n_ah_down (g_store m) + 1)"
      if "0 \<le> n_ah_down (g_store m)" for n m
      using that by (auto simp: commit_def Let_def merge_facts)
    have z: "0 \<le> n_ah_down (g_store (run_ops um (new_manager cfg) ops))" by (rule ah_down_nonneg)
    show ?thesis
      using snoc nn c [OF z, of "probe um addr q prev"] unfolding Probe
      by (auto simp: run_ops_snoc verdicts_append down_streak_snoc probe_facts split: if_splits)
  qed (use snoc in \<open>simp_all add: run_ops_snoc verdicts_append handler_defs Let_def\<close>)
qed

text \<open>
  C31: autoheal starts a recovery only on solid evidence. When a probe triggers it, autoheal
  is enabled, the gateway did not answer, the CLI is installed, the operator has not asked
  for the gateway to be stopped, no action is in flight, and at least the configured number
  of the latest probes in a row found the gateway down with no action in flight.
\<close>
theorem autoheal_needs_evidence:
  assumes "g_triggers (run_ops um (new_manager cfg) (ops @ [x])) \<noteq> g_triggers (run_ops um (new_manager cfg) ops)"
  shows "\<exists>addr prev q. x = Probe addr prev q \<and> \<not> http_ok q
    \<and> ah_enabled cfg \<and> n_intent (g_store (run_ops um (new_manager cfg) ops)) \<noteq> IntentStopped
    \<and> g_action (run_ops um (new_manager cfg) ops) = []
    \<and> ah_threshold (with_autoheal cfg) \<le> down_streak (verdicts um (new_manager cfg) (ops @ [x]))"
proof -
  let ?m = "run_ops um (new_manager cfg) ops"
  have cfg: "g_autoheal ?m = with_autoheal cfg"
  proof (induction ops rule: rev_induct)
    case (snoc y ys)
    then show ?case by (cases y) (simp_all add: run_ops_snoc commit_store handler_defs Let_def)
  qed (simp add: run_ops_def new_manager_def)
  from assms obtain addr prev q where x: "x = Probe addr prev q"
    by (cases x) (auto simp: run_ops_snoc handler_defs Let_def split: if_splits)
  with assms have "g_action ?m = []" and sh: "should_autoheal
      (merge (g_store ?m) (probe um addr q prev) q (g_action ?m) (last_start_attempt ?m) (g_autoheal ?m))
      (g_autoheal ?m) (q_commit q)"
    by (auto simp: run_ops_snoc commit_autoheal split: if_splits)
  with ah_down_streak [of um cfg ops] x show ?thesis
    by (auto simp: should_autoheal_iff merge_facts probe_facts cfg verdicts_append down_streak_snoc
        with_autoheal_def)
qed

definition down_probe :: "instant \<Rightarrow> op" where
  "down_probe t = Probe seed_address zero_snapshot \<lparr>q_now = t, q_commit = t, q_fast = HttpError ''refused'',
     q_duration = millis 1, q_proc = ok_proc [],
     q_disc = \<lparr>d_path = ''oc'', d_source = SourcePath\<rparr>\<rparr>"

definition demo_autoheal :: autoheal_config where
  "demo_autoheal = \<lparr>ah_enabled = True, ah_threshold = 2, ah_cooldown = 0, ah_trigger = True\<rparr>"

lemma down_probe_effect:
  "commit (probe um addr q prev) q m = m\<lparr>g_store := g_store (commit (probe um addr q prev) q m),
     g_triggers := g_triggers m @ (if g_action m = [] \<and> should_autoheal
       (merge (g_store m) (probe um addr q prev) q (g_action m) (last_start_attempt m) (g_autoheal m))
       (g_autoheal m) (q_commit q) then [q_commit q] else [])\<rparr>"
  by (auto simp: commit_def Let_def)

lemma demo_down_run:
  "g_triggers (run_ops (\<lambda>_. None) (new_manager demo_autoheal)
     [down_probe (seconds 10), down_probe (seconds 12)]) = [seconds 12]"
  by code_simp

lemma demo_down_first:
  "g_triggers (run_ops (\<lambda>_. None) (new_manager demo_autoheal) [down_probe (seconds 10)]) = []"
  by code_simp

lemma autoheal_cooldown_witness:
  "g_triggers (run_ops (\<lambda>_. None) (new_manager demo_autoheal)
     [down_probe (seconds 10), down_probe (seconds 12)]) = [seconds 12] \<and>
   successively (\<lambda>a b. a + minutes 5 \<le> b) (g_triggers (run_ops (\<lambda>_. None) (new_manager demo_autoheal)
     [down_probe (seconds 10), down_probe (seconds 12)]))"
  using autoheal_cooldown [of "[down_probe (seconds 10), down_probe (seconds 12)]" demo_autoheal "\<lambda>_. None"]
    demo_down_run
  by (simp add: down_probe_def demo_autoheal_def with_autoheal_def)

lemma autoheal_needs_evidence_witness:
  "g_triggers (run_ops (\<lambda>_. None) (new_manager demo_autoheal)
     ([down_probe (seconds 10)] @ [down_probe (seconds 12)])) = [seconds 12] \<and>
   2 \<le> down_streak (verdicts (\<lambda>_. None) (new_manager demo_autoheal)
     ([down_probe (seconds 10)] @ [down_probe (seconds 12)]))"
proof -
  have t: "ah_threshold (with_autoheal demo_autoheal) = 2"
    by (simp add: with_autoheal_def demo_autoheal_def)
  have r: "g_triggers (run_ops (\<lambda>_. None) (new_manager demo_autoheal)
      ([down_probe (seconds 10)] @ [down_probe (seconds 12)])) = [seconds 12]"
    using demo_down_run by (simp only: append_Cons append_Nil)
  then have "g_triggers (run_ops (\<lambda>_. None) (new_manager demo_autoheal)
      ([down_probe (seconds 10)] @ [down_probe (seconds 12)]))
    \<noteq> g_triggers (run_ops (\<lambda>_. None) (new_manager demo_autoheal) [down_probe (seconds 10)])"
    by (simp only: demo_down_first list.distinct not_False_eq_True)
  from autoheal_needs_evidence [OF this] r t show ?thesis by (simp only: t) blast
qed

subsection \<open>Two deviations from the comments\<close>

text \<open>
  The pid's age does not survive a momentary zero: when the service is seen stopped for one
  probe, the time since which the same pid is known is set anew by the next.
\<close>

lemma pid_since_reset:
  assumes "n_pid (g_store m) = 7" and "g_pid up = 7" and "g_pid gone = 0"
  shows "n_pid_since (g_store (run_ops um m [Probe gone p1 q1, Probe up p2 q2])) = q_commit q2"
  using assms by (simp add: run_ops_def commit_def merge_def Let_def probe_facts)

text \<open>The phase a client reads right after a stop is the one of the last probe.\<close>

lemma phase_lags_intent:
  "n_phase (get (set_intent IntentStopped m)) = n_phase (g_store m)"
  by (simp add: get_def set_intent_def)

end
