(* ===== verification/Actions.thy ===== *)
theory Actions
  imports Poller
begin

section \<open>Operator actions and the Fix cascade (internal/openclaw/action.go, cascade.go; internal/agent/handlers_openclaw.go)\<close>

text \<open>
  An action runs while the poller probes and other requests arrive. \<open>prog\<close> is the code of an
  action as a sequence of atomic operations of the manager; \<open>Read\<close> continues with the manager
  found at that moment, so a branch sees whatever the others wrote. \<open>exec\<close> runs such a program
  against a schedule: the operations of the others, grouped by the gap they fall in. The
  channel to the HTTP handler carries exactly the events the log is given.
\<close>

subsection \<open>Vocabulary (action.go)\<close>

definition valid_action :: "string \<Rightarrow> bool" where
  "valid_action name \<longleftrightarrow> name \<in> set [''start'', ''stop'', ''restart'', ''doctor'']"

definition action_timeout :: "string \<Rightarrow> duration" where
  "action_timeout a =
     (if a = ''start'' \<or> a = ''restart'' then seconds 20
      else if a = ''stop'' then seconds 10
      else if a = ''doctor'' then seconds 30
      else seconds 15)"

definition action_argv :: "string \<Rightarrow> string list" where
  "action_argv a =
     (if a = ''start'' then [''gateway'', ''start'']
      else if a = ''stop'' then [''gateway'', ''stop'']
      else if a = ''restart'' then [''gateway'', ''restart'']
      else if a = ''doctor'' then [''doctor'']
      else [])"

definition action_step_id :: "string \<Rightarrow> string" where
  "action_step_id a = ''action-'' @ a"

fun join_loop :: "string \<Rightarrow> nat \<Rightarrow> string list \<Rightarrow> string" where
  "join_loop out i [] = out"
| "join_loop out i (a # as) = join_loop ((if i > 0 then out @ '' '' else out) @ a) (i + 1) as"

definition join_argv :: "string list \<Rightarrow> string" where
  "join_argv argv = join_loop [] 0 argv"

lemma join_loop_append: "join_loop out (Suc i) as = out @ concat (map (\<lambda>a. CHR '' '' # a) as)"
  by (induction as arbitrary: out i) auto

lemma join_argv_eq: "join_argv as = join_with '' '' as"
proof -
  have j: "join_with '' '' (a # as) = a @ concat (map (\<lambda>a. CHR '' '' # a) as)" for a as
    by (induction as arbitrary: a) simp_all
  show ?thesis unfolding join_argv_def by (cases as) (simp_all add: join_loop_append j)
qed

fun step_outcome_str :: "step_outcome \<Rightarrow> string" where
  "step_outcome_str NoOutcome = []"
| "step_outcome_str OutcomeOK = ''ok''"
| "step_outcome_str OutcomeTimeout = ''timeout''"
| "step_outcome_str OutcomeFailed = ''failed''"
| "step_outcome_str OutcomeSkipped = ''skipped''"

subsection \<open>Programs and their executions\<close>

datatype prog = Halt | Do op prog | Read "manager \<Rightarrow> prog"

definition dos :: "op list \<Rightarrow> prog \<Rightarrow> prog" where "dos xs p = foldr Do xs p"

definition gap :: "op list list \<Rightarrow> op list" where "gap sched = (case sched of [] \<Rightarrow> [] | g # _ \<Rightarrow> g)"

primrec exec :: "(string \<Rightarrow> json option) \<Rightarrow> prog \<Rightarrow> op list list \<Rightarrow> manager \<Rightarrow> (bool \<times> op) list" where
  \<comment> \<open>all operations in the order they happen; True marks the program's own\<close>
  "exec um Halt = (\<lambda>sched m. map (Pair False) (gap sched))"
| "exec um (Do x p) = (\<lambda>sched m.
     map (Pair False) (gap sched) @ (True, x) # exec um p (tl sched) (apply_op um (run_ops um m (gap sched)) x))"
| "exec um (Read f) = (\<lambda>sched m.
     map (Pair False) (gap sched) @ exec um (f (run_ops um m (gap sched))) (tl sched) (run_ops um m (gap sched)))"

definition own :: "(bool \<times> op) list \<Rightarrow> op list" where "own tr = map snd (filter fst tr)"

definition outcome_of :: "(string \<Rightarrow> json option) \<Rightarrow> manager \<Rightarrow> (bool \<times> op) list \<Rightarrow> manager" where
  "outcome_of um m tr = run_ops um m (map snd tr)"

inductive path :: "prog \<Rightarrow> op list \<Rightarrow> bool" where
  halt: "path Halt []"
| do_op: "path p l \<Longrightarrow> path (Do x p) (x # l)"
| read_state: "path (f m) l \<Longrightarrow> path (Read f) l"

inductive_simps path_Halt [simp]: "path Halt l"
inductive_simps path_Do [simp]: "path (Do x p) l"
inductive_simps path_Read [simp]: "path (Read f) l"

lemma path_dos [simp]: "path (dos xs p) l \<longleftrightarrow> (\<exists>l'. l = xs @ l' \<and> path p l')"
  by (induction xs arbitrary: l) (auto simp: dos_def)

lemma exec_path: "path p (own (exec um p sched m))"
proof (induction p arbitrary: sched m)
  case (Read f)
  have "own (exec um (Read f) sched m) =
      own (exec um (f (run_ops um m (gap sched))) (tl sched) (run_ops um m (gap sched)))"
    by (simp add: own_def)
  then show ?case using Read.IH [OF rangeI] by (metis path.read_state)
qed (simp_all add: own_def)

lemma gap_all: "list_all (list_all P) sched \<Longrightarrow> list_all P (gap sched) \<and> list_all (list_all P) (tl sched)"
  by (cases sched) (simp_all add: gap_def)

lemma exec_others:
  "list_all (list_all P) sched \<Longrightarrow> list_all (\<lambda>y. fst y \<or> P (snd y)) (exec um p sched m)"
proof (induction p arbitrary: sched m)
  case (Read f)
  then show ?case using gap_all [OF Read.prems] by (simp add: list.pred_map comp_def)
qed (use gap_all in \<open>auto simp: list.pred_map comp_def\<close>)

subsection \<open>One CLI invocation (runStep, runSystemStep, the body of RunAction)\<close>

record cli_env =
  i_binary :: string     \<comment> \<open>what \<open>resolveRunner\<close> returns at that moment\<close>
  i_proc :: proc

definition start_event :: "string \<Rightarrow> string \<Rightarrow> string \<Rightarrow> step_event" where
  "start_event sid cmd note = \<lparr>se_step = sid, se_phase = ''start'', se_outcome = NoOutcome, se_command = cmd,
     se_ms = 0, se_exit = 0, se_stdout = [], se_stderr = [], se_note = note\<rparr>"

definition bare_end :: "string \<Rightarrow> step_outcome \<Rightarrow> string \<Rightarrow> string \<Rightarrow> step_event" where
  "bare_end sid out cmd note = \<lparr>se_step = sid, se_phase = ''end'', se_outcome = out, se_command = cmd,
     se_ms = 0, se_exit = 0, se_stdout = [], se_stderr = [], se_note = note\<rparr>"

definition judge :: "cmd_result option \<times> cmd_error option \<Rightarrow> step_outcome \<times> string" where
  "judge r =
     (case r of
        (res, Some e) \<Rightarrow>
          ((case res of Some x \<Rightarrow> if x_killed x then OutcomeTimeout else OutcomeFailed | None \<Rightarrow> OutcomeFailed),
           cmd_error_text e)
      | (Some x, None) \<Rightarrow> (if x_exit x \<noteq> 0 then OutcomeFailed else OutcomeOK, [])
      | (None, None) \<Rightarrow> (OutcomeOK, []))"

definition end_event :: "string \<Rightarrow> string \<Rightarrow> cmd_result option \<times> cmd_error option \<Rightarrow> step_event" where
  "end_event sid cmd r =
     (let (out, note) = judge r; e = bare_end sid out cmd note
      in case fst r of
           None \<Rightarrow> e
         | Some x \<Rightarrow> e\<lparr>se_ms := millis_of (x_duration x), se_exit := x_exit x,
             se_stdout := trim_err (x_stdout x), se_stderr := trim_err (x_stderr x)\<rparr>)"

definition run_step :: "string \<Rightarrow> duration \<Rightarrow> string list \<Rightarrow> cli_env \<Rightarrow> op list" where
  "run_step sid timeout args c =
     (let cmd = join_argv (''openclaw'' # args)
      in [LogEvent (start_event sid cmd []),
          LogEvent (end_event sid cmd (run_cmd (i_binary c) (i_proc c) timeout args))])"

definition run_system_step :: "string \<Rightarrow> duration \<Rightarrow> string list \<Rightarrow> proc \<Rightarrow> op list" where
  "run_system_step sid timeout argv p =
     (let cmd = join_argv argv
      in [LogEvent (start_event sid cmd []),
          LogEvent (end_event sid cmd (run_cmd (hd argv) p timeout (tl argv)))])"

definition probe_op :: "gateway_address \<times> snapshot \<times> probe_env \<Rightarrow> op" where
  \<comment> \<open>the commit of a \<open>ProbeNow\<close> that read this address and snapshot when it started\<close>
  "probe_op aq = (case aq of (addr, prev, q) \<Rightarrow> Probe addr prev q)"

subsection \<open>RunAction\<close>

record action_env =
  a_begin :: instant
  a_cli :: cli_env
  a_stamp :: instant
  a_probe :: "gateway_address \<times> snapshot \<times> probe_env"
  a_close :: instant

definition unknown_note :: "string \<Rightarrow> string" where
  "unknown_note a = ''unknown action \"'' @ a @ ''\"''"

definition action_result :: "string \<Rightarrow> action_env \<Rightarrow> cmd_result option \<times> cmd_error option" where
  "action_result a env =
     run_cmd (i_binary (a_cli env)) (i_proc (a_cli env)) (action_timeout a) (action_argv a)"

definition run_action :: "string \<Rightarrow> action_env \<Rightarrow> prog" where
  "run_action a env =
     Do (Begin a (a_begin env))
      (if \<not> valid_action a
       then dos [LogEvent (bare_end (action_step_id a) OutcomeFailed [] (unknown_note a)),
                 CloseLog ''failed'' (a_close env), Finish] Halt
       else let out = fst (judge (action_result a env))
            in dos (run_step (action_step_id a) (action_timeout a) (action_argv a) (a_cli env)
                 @ (if a = ''start'' \<or> a = ''restart'' then [Stamp (a_stamp env)] else [])
                 @ [probe_op (a_probe env),
                    CloseLog (if out \<noteq> NoOutcome \<and> out \<noteq> OutcomeOK then step_outcome_str out else ''ok'') (a_close env),
                    Finish]) Halt)"

subsection \<open>Cascade\<close>

definition step_doctor :: string where "step_doctor = ''t1-doctor''"
definition step_gateway_restart :: string where "step_gateway_restart = ''t2-gateway-restart''"
definition step_os_restart :: string where "step_os_restart = ''t3-os-restart''"

definition doctor_timeout :: duration where "doctor_timeout = seconds 30"
definition gateway_timeout :: duration where "gateway_timeout = seconds 15"
definition os_restart_timeout :: duration where "os_restart_timeout = seconds 10"

definition os_restart_command :: "string \<Rightarrow> int \<Rightarrow> string list option \<times> string" where
  \<comment> \<open>of the value of \<open>runtime.GOOS\<close> and the user id\<close>
  "os_restart_command goos uid =
     (if goos = ''darwin''
      then (Some [''launchctl'', ''kickstart'', ''-k'', ''gui/'' @ show_int uid @ ''/ai.openclaw.gateway''], [])
      else if goos = ''linux''
      then (Some [''systemctl'', ''--user'', ''restart'', ''openclaw-gateway.service''], [])
      else (None, ''T3 OS restart not implemented on '' @ goos))"

record cascade_env =
  k_begin :: instant
  k_cli1 :: cli_env
  k_probe1 :: "gateway_address \<times> snapshot \<times> probe_env"
  k_cli2 :: cli_env
  k_probe2 :: "gateway_address \<times> snapshot \<times> probe_env"
  k_goos :: string
  k_uid :: int
  k_proc3 :: proc
  k_probe3 :: "gateway_address \<times> snapshot \<times> probe_env"
  k_stamp :: instant
  k_close :: instant

definition finalize_fix_log :: "cascade_env \<Rightarrow> prog" where
  "finalize_fix_log env =
     Read (\<lambda>m. dos [CloseLog (if n_alive (get m) then ''ok'' else ''failed'') (k_close env), Finish] Halt)"

definition healthy_after :: "gateway_address \<times> snapshot \<times> probe_env \<Rightarrow> prog \<Rightarrow> prog \<Rightarrow> prog" where
  \<comment> \<open>\<open>ProbeNow\<close> returns the stored snapshot\<close>
  "healthy_after aq yes no = Do (probe_op aq) (Read (\<lambda>m. if n_alive (g_store m) then yes else no))"

definition cascade_t3 :: "cascade_env \<Rightarrow> prog" where
  "cascade_t3 env =
     (case os_restart_command (k_goos env) (k_uid env) of
        (None, note) \<Rightarrow>
          dos [LogEvent (start_event step_os_restart [] note),
               LogEvent (bare_end step_os_restart OutcomeSkipped [] note)] (finalize_fix_log env)
      | (Some argv, _) \<Rightarrow>
          dos (run_system_step step_os_restart os_restart_timeout argv (k_proc3 env)
               @ [Stamp (k_stamp env), probe_op (k_probe3 env)]) (finalize_fix_log env))"

definition cascade :: "cascade_env \<Rightarrow> prog" where
  "cascade env =
     Do (Begin ''fix'' (k_begin env))
      (dos (run_step step_doctor doctor_timeout [''doctor'', ''--fix''] (k_cli1 env))
        (healthy_after (k_probe1 env)
          (Do (Stamp (k_stamp env)) (finalize_fix_log env))
          (dos (run_step step_gateway_restart gateway_timeout [''gateway'', ''restart''] (k_cli2 env))
            (healthy_after (k_probe2 env)
              (Do (Stamp (k_stamp env)) (finalize_fix_log env))
              (cascade_t3 env)))))"

subsection \<open>What the others cannot touch\<close>

fun background :: "op \<Rightarrow> bool" where
  \<comment> \<open>what runs beside an action when no other action is started\<close>
  "background (Probe addr prev q) = True"
| "background (Intend i) = True"
| "background (Resolve b p t) = True"
| "background x = False"

definition slot :: "manager \<Rightarrow> string \<times> action_log" where "slot m = (g_action m, g_log m)"

definition with_slot :: "string \<times> action_log \<Rightarrow> manager" where
  "with_slot v = (new_manager \<lparr>ah_enabled = False, ah_threshold = 0, ah_cooldown = 0, ah_trigger = False\<rparr>)
     \<lparr>g_action := fst v, g_log := snd v\<rparr>"

definition slot_op :: "(string \<Rightarrow> json option) \<Rightarrow> string \<times> action_log \<Rightarrow> op \<Rightarrow> string \<times> action_log" where
  "slot_op um v x = slot (apply_op um (with_slot v) x)"

lemma slot_apply: "slot (apply_op um m x) = slot_op um (slot m) x"
  by (cases x) (simp_all add: slot_op_def slot_def with_slot_def commit_store handler_defs Let_def)

lemma slot_background: "background x \<Longrightarrow> slot_op um v x = v"
  by (cases x) (simp_all add: slot_op_def slot_def with_slot_def commit_store handler_defs Let_def)

lemma slot_ops:
  "slot_op um v (Begin a t) = (if a = [] then ([], snd v) else
     (a, \<lparr>l_name = a, l_running = True, l_outcome = [], l_started = t, l_finished = 0, l_events = []\<rparr>))"
  "slot_op um v Finish = ([], snd v)"
  "slot_op um v (Stamp t) = v"
  "slot_op um v (LogEvent e) = (fst v, if l_name (snd v) = [] \<or> 256 \<le> length (l_events (snd v)) then snd v
     else (snd v)\<lparr>l_events := l_events (snd v) @ [e]\<rparr>)"
  "slot_op um v (CloseLog out t) = (fst v, if l_name (snd v) = [] then snd v
     else (snd v)\<lparr>l_running := False, l_outcome := out, l_finished := t\<rparr>)"
  by (simp_all add: slot_op_def slot_def with_slot_def handler_defs action_log_max_events_def)

lemma slot_run: "slot (run_ops um m xs) = foldl (slot_op um) (slot m) (filter (\<lambda>x. \<not> background x) xs)"
  by (induction xs rule: rev_induct) (auto simp: run_ops_snoc slot_apply slot_background run_ops_def)

lemma slot_exec:
  assumes "\<forall>g \<in> set sched. \<forall>x \<in> set g. background x"
  shows "slot (outcome_of um m (exec um p sched m)) =
    foldl (slot_op um) (slot m) (filter (\<lambda>x. \<not> background x) (own (exec um p sched m)))"
proof -
  have f: "filter (\<lambda>x. \<not> background x) (map snd tr) = filter (\<lambda>x. \<not> background x) (map snd (filter fst tr))"
    if "list_all (\<lambda>y. fst y \<or> background (snd y)) tr" for tr :: "(bool \<times> op) list"
    using that by (induction tr) auto
  have "list_all (list_all background) sched" using assms by (simp add: list_all_iff)
  from f [OF exec_others [OF this]] show ?thesis
    unfolding outcome_of_def slot_run own_def by simp
qed

lemma background_probe_op [simp]: "background (probe_op aq)"
  by (cases aq) (simp add: probe_op_def)

lemmas slot_eval = slot_ops run_step_def run_system_step_def Let_def

definition event_ids :: "action_log \<Rightarrow> string list" where "event_ids l = map se_step (l_events l)"

lemma action_path_slot:
  assumes "path (run_action a env) l" "valid_action a"
  shows "foldl (slot_op um) v (filter (\<lambda>x. \<not> background x) l) =
    ([], \<lparr>l_name = a, l_running = False,
          l_outcome = (let out = fst (judge (action_result a env)) in
            if out \<noteq> NoOutcome \<and> out \<noteq> OutcomeOK then step_outcome_str out else ''ok''),
          l_started = a_begin env, l_finished = a_close env,
          l_events = [start_event (action_step_id a) (join_argv (''openclaw'' # action_argv a)) [],
            end_event (action_step_id a) (join_argv (''openclaw'' # action_argv a)) (action_result a env)]\<rparr>)"
proof -
  have ne: "a \<noteq> []" using assms(2) by (auto simp: valid_action_def)
  show ?thesis
    using assms ne by (auto simp: run_action_def slot_eval action_result_def)
qed

subsection \<open>The HTTP handlers (internal/agent/handlers_openclaw.go)\<close>

definition intent_for_action :: "string \<Rightarrow> intent" where
  "intent_for_action a =
     (if a = ''stop'' then IntentStopped
      else if a = ''start'' \<or> a = ''restart'' then IntentRunning
      else IntentUnknown)"

definition handle_action :: "bool \<Rightarrow> string \<Rightarrow> action_env \<Rightarrow> int \<times> op list \<times> prog" where
  \<comment> \<open>\<open>handleOpenclawAction\<close>: the status, what the handler itself writes, the goroutine it starts\<close>
  "handle_action enabled name env =
     (if \<not> enabled then (503, [], Halt)
      else if \<not> valid_action name then (400, [], Halt)
      else (200, (let i = intent_for_action name in if i \<noteq> IntentUnknown then [Intend i] else []),
            run_action name env))"

definition handle_fix :: "bool \<Rightarrow> cascade_env \<Rightarrow> int \<times> op list \<times> prog" where
  "handle_fix enabled env =
     (if \<not> enabled then (503, [], Halt) else (200, [Intend IntentRunning], cascade env))"

definition action_final_outcome :: "step_outcome \<Rightarrow> string" where
  "action_final_outcome c = (if c = NoOutcome \<or> c = OutcomeOK then step_outcome_str OutcomeOK else step_outcome_str c)"

definition final_outcome :: "bool \<Rightarrow> bool \<Rightarrow> string" where
  "final_outcome alive expected_alive = (if alive = expected_alive then ''ok'' else ''failed'')"

fun cli_outcome :: "step_outcome \<Rightarrow> step_event list \<Rightarrow> step_outcome" where
  "cli_outcome c [] = c"
| "cli_outcome c (ev # evs) =
     cli_outcome (if se_phase ev = ''end'' \<and> se_outcome ev \<noteq> NoOutcome then se_outcome ev else c) evs"

definition stream_action :: "nat option \<Rightarrow> step_event list \<Rightarrow> step_event list \<times> string option" where
  \<comment> \<open>what the client reads: all events and the final outcome, or the first \<open>k\<close> when it leaves\<close>
  "stream_action leaves evs =
     (case leaves of None \<Rightarrow> (evs, Some (action_final_outcome (cli_outcome NoOutcome evs)))
      | Some k \<Rightarrow> (take k evs, None))"

fun logged :: "op list \<Rightarrow> step_event list" where
  \<comment> \<open>the events an action sends on its channel\<close>
  "logged [] = []"
| "logged (LogEvent e # xs) = e # logged xs"
| "logged (x # xs) = logged xs"

lemma judge_real: "fst (judge r) \<noteq> NoOutcome"
  by (auto simp: judge_def split: prod.splits option.splits)

lemma end_event_facts:
  "se_phase (end_event i c r) = ''end''" "se_outcome (end_event i c r) = fst (judge r)"
  "se_step (end_event i c r) = i"
  by (auto simp: end_event_def bare_end_def Let_def split: prod.splits option.splits)

lemma start_event_facts:
  "se_phase (start_event i c n) = ''start''" "se_outcome (start_event i c n) = NoOutcome"
  "se_step (start_event i c n) = i"
  by (simp_all add: start_event_def)

lemma logged_append [simp]: "logged (xs @ ys) = logged xs @ logged ys"
  by (induction xs rule: logged.induct) simp_all

lemma logged_probe_op [simp]: "logged (probe_op aq # xs) = logged xs"
  by (cases aq) (simp add: probe_op_def)

lemma action_path_logged:
  assumes "path (run_action a env) l" "valid_action a"
  shows "logged l = [start_event (action_step_id a) (join_argv (''openclaw'' # action_argv a)) [],
            end_event (action_step_id a) (join_argv (''openclaw'' # action_argv a)) (action_result a env)]"
  using assms by (auto simp: run_action_def run_step_def Let_def action_result_def)


subsection \<open>The cascade\<close>

lemma cascade_path_slot:
  assumes "path (cascade env) l"
  shows "let v' = foldl (slot_op um) v (filter (\<lambda>x. \<not> background x) l) in
    fst v' = [] \<and> l_name (snd v') = ''fix'' \<and> \<not> l_running (snd v') \<and> l_outcome (snd v') \<in> {''ok'', ''failed''}
    \<and> l_events (snd v') = logged l
    \<and> (\<exists>k \<in> {2, 4, 6}. map se_step (logged l) = take k
        [step_doctor, step_doctor, step_gateway_restart, step_gateway_restart, step_os_restart, step_os_restart])"
  using assms
  by (auto simp: cascade_def healthy_after_def cascade_t3_def finalize_fix_log_def slot_eval
      start_event_facts end_event_facts bare_end_def split: if_splits option.splits prod.splits)

text \<open>
  The Fix cascade always settles. Whatever else happens beside it, the cascade started by
  a Fix request ends with the in-flight slot free and its log closed as ok or failed; the log
  holds exactly the streamed events, which are those of one, two or all three tiers, in order.
\<close>
theorem cascade_settles:
  assumes "handle_fix enabled env = (200, pre, p)" and "\<forall>g \<in> set sched. \<forall>x \<in> set g. background x"
  shows "let tr = exec um p sched (run_ops um m pre); m' = outcome_of um (run_ops um m pre) tr in
    g_action m' = [] \<and> l_name (g_log m') = ''fix'' \<and> \<not> l_running (g_log m')
    \<and> l_outcome (g_log m') \<in> {''ok'', ''failed''} \<and> l_events (g_log m') = logged (own tr)
    \<and> (\<exists>k \<in> {2, 4, 6}. map se_step (logged (own tr)) = take k
        [step_doctor, step_doctor, step_gateway_restart, step_gateway_restart, step_os_restart, step_os_restart])"
proof -
  have p: "p = cascade env" using assms(1) by (auto simp: handle_fix_def split: if_splits)
  let ?m = "run_ops um m pre"
  note path = exec_path [of "cascade env" um sched ?m]
  note slot = slot_exec [OF assms(2), of um ?m "cascade env"]
  have a: "g_action m' = fst (slot m')" and l: "g_log m' = snd (slot m')" for m' by (simp_all add: slot_def)
  show ?thesis
    using cascade_path_slot [OF path, where v = "slot ?m" and um = um]
    unfolding p Let_def a l slot .
qed

definition probe_answers :: "gateway_address \<times> snapshot \<times> probe_env \<Rightarrow> bool" where
  "probe_answers aq = http_ok (snd (snd aq))"

lemma probe_op_alive: "n_alive (g_store (apply_op um m (probe_op aq))) = probe_answers aq"
  by (cases aq) (simp add: probe_op_def probe_answers_def commit_store probe_facts)

lemma handlers_keep_store:
  "g_store (apply_op um m (LogEvent e)) = g_store m" "g_store (apply_op um m (CloseLog out t)) = g_store m"
  "g_store (apply_op um m Finish) = g_store m" "g_store (apply_op um m (Stamp t)) = g_store m"
  by (simp_all add: handler_defs)

lemma exec_alone:
  "gap [] = []" "tl [] = []" "run_ops um m [] = m"
  by (simp_all add: gap_def run_ops_def)

lemma exec_dos: "exec um (dos xs p) [] m = map (Pair True) xs @ exec um p [] (run_ops um m xs)"
  by (induction xs arbitrary: m) (simp_all add: dos_def exec_alone run_ops_def)

lemma own_simps:
  "own [] = []" "own ((True, x) # tr) = x # own tr" "own (map (Pair True) xs @ tr) = xs @ own tr"
  by (induction xs) (simp_all add: own_def)

lemma get_alive [simp]: "n_alive (get m) = n_alive (g_store m)"
  by (simp add: get_def)

lemma run_ops_Cons: "run_ops um m (x # xs) = run_ops um (apply_op um m x) xs"
  by (simp add: run_ops_def)

definition cascade_repaired :: "cascade_env \<Rightarrow> bool" where
  "cascade_repaired env \<longleftrightarrow> probe_answers (k_probe1 env) \<or> probe_answers (k_probe2 env)
     \<or> (k_goos env \<in> {''darwin'', ''linux''} \<and> probe_answers (k_probe3 env))"

definition tiers_run :: "cascade_env \<Rightarrow> nat" where
  "tiers_run env = (if probe_answers (k_probe1 env) then 1 else if probe_answers (k_probe2 env) then 2 else 3)"

text \<open>
  Tiers run only when needed. With nothing else in between, the second tier runs exactly
  when the probe after the first is unanswered, the third exactly when both are; and the
  cascade reports success exactly when one of its own probes was answered.
\<close>
theorem cascade_early_exit:
  "let tr = exec um (cascade env) [] m; l = g_log (outcome_of um m tr) in
    map se_step (logged (own tr)) = take (2 * tiers_run env)
      [step_doctor, step_doctor, step_gateway_restart, step_gateway_restart, step_os_restart, step_os_restart]
    \<and> l_outcome l = (if cascade_repaired env then ''ok'' else ''failed'')"
proof -
  have sched: "\<forall>g \<in> set ([] :: op list list). \<forall>x \<in> set g. background x" by simp
  note slot = slot_exec [OF sched, of um m "cascade env"]
  have l: "g_log (outcome_of um m tr) = snd (slot (outcome_of um m tr))" for tr by (simp add: slot_def)
  show ?thesis
    unfolding Let_def l slot
    by (cases "probe_answers (k_probe1 env)"; cases "probe_answers (k_probe2 env)")
      (auto simp: cascade_def healthy_after_def cascade_t3_def finalize_fix_log_def os_restart_command_def
        exec_alone exec_dos own_simps probe_op_alive handlers_keep_store run_ops_Cons slot_eval
        cascade_repaired_def tiers_run_def start_event_facts end_event_facts bare_end_def
        simp del: apply_op.simps)
qed

subsection \<open>Autoheal and actions\<close>

fun no_slot_change :: "op \<Rightarrow> bool" where
  "no_slot_change (Begin a t) = False"
| "no_slot_change Finish = False"
| "no_slot_change x = True"

text \<open>
  C33: autoheal stands down. From the moment an action is announced until a finished action
  frees the slot, no probe, however many and however late they were started, triggers a
  recovery.
\<close>
theorem autoheal_stands_down:
  assumes "a \<noteq> []" and "list_all no_slot_change mid"
  shows "g_triggers (run_ops um m (Begin a t # mid)) = g_triggers m
    \<and> g_action (run_ops um m (Begin a t # mid)) = a"
  using assms(2)
proof (induction mid rule: rev_induct)
  case Nil
  then show ?case using assms(1) by (simp add: run_ops_def handler_defs)
next
  case (snoc x mid)
  then have i: "g_triggers (run_ops um m (Begin a t # mid)) = g_triggers m"
    "g_action (run_ops um m (Begin a t # mid)) = a" by simp_all
  have s: "run_ops um m (Begin a t # mid @ [x]) = apply_op um (run_ops um m (Begin a t # mid)) x"
    using run_ops_snoc [of um m "Begin a t # mid"] by simp
  show ?case
    unfolding s using i assms(1) snoc.prems
    by (cases x) (simp_all add: commit_autoheal commit_store handler_defs Let_def)
qed

text \<open>
  The guard knows one action only. When a second action starts before a first one ends,
  the end of the first frees the slot and closes the log of the second with the first one's
  outcome, while the second is still running.
\<close>
theorem overlapping_actions:
  assumes "b \<noteq> []"
  shows "let m' = run_ops um m ([Begin a t1, Begin b t2, CloseLog out t3, Finish]) in
    g_action m' = [] \<and> l_name (g_log m') = b \<and> \<not> l_running (g_log m') \<and> l_outcome (g_log m') = out"
  using assms by (simp add: run_ops_def handler_defs Let_def)

text \<open>And then autoheal can start a recovery beside the action still running.\<close>

lemma overlap_autoheals:
  "g_triggers (run_ops (\<lambda>_. None) (new_manager demo_autoheal)
     [Intend IntentRunning, Begin ''start'' (seconds 1), Begin ''restart'' (seconds 2),
      CloseLog ''ok'' (seconds 3), Finish, down_probe (seconds 10), down_probe (seconds 12)]) = [seconds 12]"
  by code_simp

subsection \<open>Concrete runs\<close>

definition demo_up :: "gateway_address \<times> snapshot \<times> probe_env" where
  "demo_up = (seed_address, zero_snapshot, \<lparr>q_now = seconds 9, q_commit = seconds 9,
     q_fast = HttpReply 200 (Inr True), q_duration = millis 1, q_proc = ok_proc [],
     q_disc = \<lparr>d_path = ''oc'', d_source = SourcePath\<rparr>\<rparr>)"

definition demo_action :: action_env where
  "demo_action = \<lparr>a_begin = seconds 1, a_cli = \<lparr>i_binary = ''oc'', i_proc = (ok_proc [])\<lparr>p_exit := Some 1\<rparr>\<rparr>,
     a_stamp = seconds 8, a_probe = demo_up, a_close = seconds 10\<rparr>"

definition demo_cascade :: cascade_env where
  "demo_cascade = \<lparr>k_begin = seconds 1, k_cli1 = a_cli demo_action, k_probe1 = demo_up,
     k_cli2 = a_cli demo_action, k_probe2 = demo_up, k_goos = ''linux'', k_uid = 501, k_proc3 = ok_proc [],
     k_probe3 = demo_up, k_stamp = seconds 8, k_close = seconds 10\<rparr>"

lemma demo_judge: "fst (judge (action_result ''restart'' demo_action)) = OutcomeFailed"
  by code_simp


lemma cascade_settles_witness:
  "g_action (outcome_of (\<lambda>_. None) (run_ops (\<lambda>_. None) (new_manager demo_autoheal) [Intend IntentRunning])
     (exec (\<lambda>_. None) (cascade demo_cascade) [[], [down_probe (seconds 3)]]
       (run_ops (\<lambda>_. None) (new_manager demo_autoheal) [Intend IntentRunning]))) = []"
proof -
  have h: "handle_fix True demo_cascade = (200, [Intend IntentRunning], cascade demo_cascade)"
    by (simp add: handle_fix_def)
  have b: "\<forall>g \<in> set [[], [down_probe (seconds 3)]]. \<forall>x \<in> set g. background x"
    by (simp add: down_probe_def)
  show ?thesis
    using cascade_settles [OF h b, of "\<lambda>_. None" "new_manager demo_autoheal"]
    by (simp only: Let_def)
qed

lemma autoheal_stands_down_witness:
  "g_triggers (run_ops (\<lambda>_. None) (new_manager demo_autoheal)
     (Begin ''start'' 1 # [down_probe (seconds 10), down_probe (seconds 12)])) = []"
  using autoheal_stands_down [of "''start''" "[down_probe (seconds 10), down_probe (seconds 12)]"
      "\<lambda>_. None" "new_manager demo_autoheal" 1]
  by (simp add: down_probe_def new_manager_def)

lemma overlapping_actions_witness:
  "g_action (run_ops (\<lambda>_. None) (new_manager demo_autoheal)
     ([Begin ''start'' 1, Begin ''stop'' 2, CloseLog ''ok'' 3, Finish])) = []"
  using overlapping_actions [of "''stop''" "\<lambda>_. None" "new_manager demo_autoheal" "''start''" 1 2 "''ok''" 3]
  by (simp only: Let_def) simp

end
