(* ===== verification/Auth.thy ===== *)
theory Auth
  imports FileSys Strconv
begin

section \<open>Who may call the worker (internal/agent/auth.go)\<close>

text \<open>
  \<open>bearer\<close> is \<open>bearerMiddleware\<close>, \<open>public_handler\<close> the wrapping the server does; a verdict is
  either that the request reaches the mux or the reason of the 401. \<open>is_loopback\<close> reads the
  peer's address as packages \<open>net\<close> and \<open>netip\<close> do. \<open>load_or_create_token\<close> is
  \<open>LoadOrCreateToken\<close> on the file system; \<open>random\<close> is what \<open>crypto/rand\<close> returned.
\<close>

subsection \<open>Addresses (net.SplitHostPort, net.ParseIP)\<close>

definition split_host_port :: "string \<Rightarrow> string option" where
  \<comment> \<open>the host; None for an error\<close>
  "split_host_port s =
     (if CHR '':'' \<notin> set s then None
      else if prefix ''['' s then
        (let inner = takeWhile (\<lambda>c. c \<noteq> CHR '']'') (tl s); rest = dropWhile (\<lambda>c. c \<noteq> CHR '']'') (tl s)
         in case rest of
              _ # c # port \<Rightarrow>
                if c \<noteq> CHR '':'' \<or> CHR '':'' \<in> set port then None
                else if CHR ''['' \<in> set (tl s) \<or> CHR '']'' \<in> set port then None
                else Some inner
            | _ \<Rightarrow> None)
      else (let port = rev (takeWhile (\<lambda>c. c \<noteq> CHR '':'') (rev s));
                host = take (length s - length port - 1) s
            in if CHR '':'' \<in> set host then None
               else if CHR ''['' \<in> set s \<or> CHR '']'' \<in> set s then None
               else Some host))"

definition ip4_field :: "string \<Rightarrow> int option" where
  "ip4_field d =
     (if d = [] \<or> (length d > 1 \<and> hd d = CHR ''0'') then None
      else case parse_digits 0 d of None \<Rightarrow> None | Some n \<Rightarrow> if n > 255 then None else Some n)"

definition parse_ip4 :: "string \<Rightarrow> (int \<times> int \<times> int \<times> int) option" where
  "parse_ip4 s =
     (case map ip4_field (split_on (CHR ''.'') s) of
        [Some a, Some b, Some c, Some d] \<Rightarrow> Some (a, b, c, d)
      | _ \<Rightarrow> None)"

definition hex_digit :: "char \<Rightarrow> int option" where
  "hex_digit c =
     (let n = of_char c :: int
      in if 48 \<le> n \<and> n \<le> 57 then Some (n - 48)
         else if 97 \<le> n \<and> n \<le> 102 then Some (n - 87)
         else if 65 \<le> n \<and> n \<le> 70 then Some (n - 55)
         else None)"

fun hex_value :: "int \<Rightarrow> string \<Rightarrow> int option" where
  "hex_value acc [] = Some acc"
| "hex_value acc (c # cs) = (case hex_digit c of None \<Rightarrow> None | Some d \<Rightarrow> hex_value (acc * 16 + d) cs)"

definition hex_group :: "string \<Rightarrow> int option" where
  "hex_group g = (if g = [] \<or> length g > 4 then None else hex_value 0 g)"

fun ip6_groups :: "bool \<Rightarrow> string list \<Rightarrow> int list option" where
  \<comment> \<open>the 16-bit groups; the last text may be dotted when the flag is set\<close>
  "ip6_groups v4 [] = Some []"
| "ip6_groups v4 (g # gs) =
     (if v4 \<and> gs = [] \<and> CHR ''.'' \<in> set g
      then map_option (\<lambda>(a, b, c, d). [a * 256 + b, c * 256 + d]) (parse_ip4 g)
      else case (hex_group g, ip6_groups v4 gs) of (Some n, Some ns) \<Rightarrow> Some (n # ns) | _ \<Rightarrow> None)"

fun cut_ellipsis :: "string \<Rightarrow> (string \<times> string) option" where
  \<comment> \<open>around the first double colon\<close>
  "cut_ellipsis [] = None"
| "cut_ellipsis (c # cs) =
     (if c = CHR '':'' \<and> prefix '':'' cs then Some ([], tl cs)
      else map_option (\<lambda>(a, b). (c # a, b)) (cut_ellipsis cs))"

definition colon_fields :: "string \<Rightarrow> string list" where
  "colon_fields s = (if s = [] then [] else split_on (CHR '':'') s)"

definition parse_ip6 :: "string \<Rightarrow> int list option" where
  "parse_ip6 s =
     (case cut_ellipsis s of
        None \<Rightarrow>
          (case ip6_groups True (split_on (CHR '':'') s) of
             Some ns \<Rightarrow> if length ns = 8 then Some ns else None
           | None \<Rightarrow> None)
      | Some (l, r) \<Rightarrow>
          (case (ip6_groups False (colon_fields l), ip6_groups True (colon_fields r)) of
             (Some a, Some b) \<Rightarrow>
               if length a + length b < 8 then Some (a @ replicate (8 - (length a + length b)) 0 @ b) else None
           | _ \<Rightarrow> None))"

definition ip_is_loopback :: "string \<Rightarrow> bool" where
  \<comment> \<open>\<open>net.ParseIP\<close> of the text, then \<open>IsLoopback\<close>; a zone makes the text no address\<close>
  "ip_is_loopback s =
     (case dropWhile (\<lambda>c. c \<noteq> CHR ''.'' \<and> c \<noteq> CHR '':'' \<and> c \<noteq> CHR ''%'') s of
        [] \<Rightarrow> False
      | k # _ \<Rightarrow>
          if k = CHR ''.'' then (case parse_ip4 s of Some (a, _) \<Rightarrow> a = 127 | None \<Rightarrow> False)
          else if k = CHR ''%'' then False
          else (case parse_ip6 s of
                  None \<Rightarrow> False
                | Some ns \<Rightarrow>
                    if take 6 ns = [0, 0, 0, 0, 0, 65535] then ns ! 6 div 256 = 127
                    else ns = [0, 0, 0, 0, 0, 0, 0, 1]))"

definition is_loopback :: "string \<Rightarrow> bool" where
  "is_loopback remote = ip_is_loopback (case split_host_port remote of None \<Rightarrow> remote | Some host \<Rightarrow> host)"

lemma loopback_examples:
  "map is_loopback [''127.0.0.1:5'', ''[::1]:80'', ''[::ffff:127.0.0.1]:9'', ''127.0.0.1'', ''10.0.0.2:80'',
     ''[fe80::1%lo]:7'', ''[::2]:1'', ''127.0.0.1.evil:1'', ''0127.0.0.1:1'', '''']
   = [True, True, True, True, False, False, False, False, False, False]"
  by code_simp

subsection \<open>Tokens\<close>

record token =
  tk_value :: string
  tk_path :: string
  tk_generated :: bool

definition token_len :: nat where "token_len = 32"

definition hex_char :: "int \<Rightarrow> char" where
  "hex_char n = char_of (nat (if n < 10 then n + 48 else n + 87))"

definition hex_encode :: "string \<Rightarrow> string" where
  "hex_encode bs = concat (map (\<lambda>b. [hex_char (of_char b div 16), hex_char (of_char b mod 16)]) bs)"

datatype auth_error = AuthRead os_error | AuthRandom | AuthMkdir os_error | AuthWrite os_error

fun raw_bytes :: "(json \<Rightarrow> string) \<Rightarrow> content \<Rightarrow> string" where
  "raw_bytes render (Text s) = s"
| "raw_bytes render (Doc j) = render j"

definition create_token :: "string \<Rightarrow> string \<Rightarrow> string option \<Rightarrow> fsys \<Rightarrow> (auth_error + token) \<times> fsys" where
  \<comment> \<open>from the call of \<open>rand.Read\<close> on\<close>
  "create_token dir path random f =
     (case random of
        None \<Rightarrow> (Inl AuthRandom, f)
      | Some buf \<Rightarrow>
          (let val = hex_encode buf; tok = \<lparr>tk_value = val, tk_path = path, tk_generated = True\<rparr>
           in if path = [] then (Inr tok, f)
              else case os_mkdir_all dir f of
                (Inl e, f) \<Rightarrow> (Inl (AuthMkdir e), f)
              | (Inr _, f) \<Rightarrow>
                  (case os_write_file path (Text (val @ [CHR 0x0A])) f of
                     (Inl e, f) \<Rightarrow> (Inl (AuthWrite e), f)
                   | (Inr _, f) \<Rightarrow> (Inr tok, f))))"

definition load_or_create_token ::
  "(json \<Rightarrow> string) \<Rightarrow> string \<Rightarrow> string \<Rightarrow> string option \<Rightarrow> fsys \<Rightarrow> (auth_error + token) \<times> fsys" where
  \<comment> \<open>the second argument is the environment variable\<close>
  "load_or_create_token render env dir random f =
     (let v = trim_space env
      in if v \<noteq> [] then (Inr \<lparr>tk_value = v, tk_path = [], tk_generated = False\<rparr>, f)
         else if dir = [] then create_token dir [] random f
         else let path = path_join [dir, ''token'']
              in case os_read_file path f of
                (Inr c, f) \<Rightarrow>
                  (let s = trim_space (raw_bytes render c)
                   in if s \<noteq> [] then (Inr \<lparr>tk_value = s, tk_path = path, tk_generated = False\<rparr>, f)
                      else create_token dir path random f)
              | (Inl e, f) \<Rightarrow> (if e = NotExist then create_token dir path random f else (Inl (AuthRead e), f)))"

definition fingerprint :: "token \<Rightarrow> string" where
  "fingerprint t = (if length (tk_value t) < 8 then [] else take 8 (tk_value t))"

text \<open>A string of printable ASCII characters is its own trimmed form.\<close>

lemma trim_line:
  assumes "s \<noteq> []" "\<forall>c \<in> set s. graphic c"
  shows "trim_space (s @ [CHR 0x0A]) = s" "trim_space s = s"
proof -
  have h: "graphic (hd (s @ t))" "graphic (hd (rev s))" for t
    using assms by (cases s, auto, cases "rev s", auto simp: hd_rev)
  have "strip_left space_runes (s @ t) = s @ t" for t using strip_graphic(1) h assms(1) by simp
  from this [of "[CHR 0x0A]"] this [of "[]"]
  show "trim_space (s @ [CHR 0x0A]) = s" "trim_space s = s"
    using strip_graphic(2) [of "rev s"] h(2) assms(1) by (simp_all add: trim_space_def strip_newline)
qed

lemma hex_char_graphic: "0 \<le> n \<Longrightarrow> n < 16 \<Longrightarrow> graphic (hex_char n)"
  by (auto simp: graphic_def hex_char_def)

lemma hex_encode_graphic: "\<forall>c \<in> set (hex_encode bs). graphic c"
proof -
  have b: "0 \<le> (of_char b :: int)" "(of_char b :: int) < 256" for b
    using pos_mod_bound [of 256 "of_char b :: int"] pos_mod_sign [of 256 "of_char b :: int"] by simp_all
  have d: "0 \<le> (of_char b :: int) div 16" "(of_char b :: int) div 16 < 16" for b
    using b [of b] by presburger+
  show ?thesis using d by (auto simp: hex_encode_def intro!: hex_char_graphic)
qed


text \<open>
  The token survives a restart. When a boot generated a token and could store it, the
  next boot, whatever its random source returns, loads that same token from the same path.
\<close>
theorem token_survives_restart:
  assumes "load_or_create_token render env dir random f = (Inr tok, f')" and "tk_generated tok"
    and "trim_space env = []" and "dir \<noteq> []" and "random \<noteq> Some []" and "faults f' = []"
  shows "load_or_create_token render env dir random' f' = (Inr (tok\<lparr>tk_generated := False\<rparr>), f')"
proof -
  let ?p = "path_join [dir, ''token'']"
  have pne: "?p \<noteq> []"
    using assms(4) by (auto simp: path_join_def clean_def Let_def split: if_splits)
  from assms(1-4) obtain f0 where c: "create_token dir ?p random f0 = (Inr tok, f')"
    by (auto simp: load_or_create_token_def Let_def split: prod.splits sum.splits if_splits)
  with pne obtain buf f1 f2 where r: "random = Some buf"
    and w: "os_write_file ?p (Text (hex_encode buf @ [CHR 0x0A])) f1 = (Inr (), f')"
    and t: "tok = \<lparr>tk_value = hex_encode buf, tk_path = ?p, tk_generated = True\<rparr>"
    by (auto simp: create_token_def Let_def split: option.splits prod.splits sum.splits)
  from os_write_file_E [of ?p "Text (hex_encode buf @ [CHR 0x0A])" f1] w
  have n: "nodes f' ?p = Some (File (Text (hex_encode buf @ [CHR 0x0A])))" by force
  have "hex_encode buf \<noteq> []" using r assms(5) by (cases buf) (auto simp: hex_encode_def)
  moreover from this have "trim_space (hex_encode buf @ [CHR 0x0A]) = hex_encode buf"
    using trim_line(1) hex_encode_graphic by blast
  ultimately show ?thesis
    using assms(3,4,6) n t
    by (simp add: load_or_create_token_def os_read_file_def Let_def)
qed

definition empty_fs :: fsys where "empty_fs = \<lparr>nodes = Map.empty, faults = []\<rparr>"

lemma token_survives_restart_witness:
  "\<exists>tok f'. load_or_create_token (\<lambda>_. []) [] ''/s'' (Some ''ab'') empty_fs = (Inr tok, f')
     \<and> tk_value tok = ''6162''
     \<and> load_or_create_token (\<lambda>_. []) [] ''/s'' (Some ''zz'') f' = (Inr (tok\<lparr>tk_generated := False\<rparr>), f')"
proof -
  let ?c = "Text (hex_encode ''ab'' @ [CHR 0x0A])"
  let ?f = "put_node ''/s/token'' (Some (File ?c)) (put_node ''/s'' (Some Dir) empty_fs)"
  have p: "path_join [''/s'', ''token''] = ''/s/token''" by code_simp
  have h: "hex_encode ''ab'' = ''6162''" by code_simp
  have l: "load_or_create_token (\<lambda>_. []) [] ''/s'' (Some ''ab'') empty_fs =
      (Inr \<lparr>tk_value = hex_encode ''ab'', tk_path = ''/s/token'', tk_generated = True\<rparr>, ?f)"
    by (simp add: load_or_create_token_def create_token_def p empty_fs_def os_read_file_def
        os_mkdir_all_def os_write_file_def Let_def)
  have "faults ?f = []" by (simp add: empty_fs_def)
  then have "load_or_create_token (\<lambda>_. []) [] ''/s'' (Some ''zz'') ?f =
      (Inr (\<lparr>tk_value = hex_encode ''ab'', tk_path = ''/s/token'', tk_generated = True\<rparr>\<lparr>tk_generated := False\<rparr>), ?f)"
    by (intro token_survives_restart [OF l]) simp_all
  with l h show ?thesis by (intro exI conjI) auto
qed

subsection \<open>The middleware\<close>

record request =
  q_method :: string
  q_path :: string
  q_remote :: string
  q_authorization :: string     \<comment> \<open>the header, empty when it is absent\<close>

datatype gate = Pass | Unauthorized string

definition bearer :: "string \<Rightarrow> string list \<Rightarrow> request \<Rightarrow> gate" where
  "bearer want public r =
     (if q_path r \<in> set public \<or> is_loopback (q_remote r) then Pass
      else if \<not> has_prefix (q_path r) ''/api/'' then Pass
      else case cut_prefix (q_authorization r) ''Bearer '' of
        None \<Rightarrow> Unauthorized ''missing bearer token''
      | Some got \<Rightarrow> if got \<noteq> want then Unauthorized ''bearer token rejected'' else Pass)"

definition public_handler :: "token \<Rightarrow> request \<Rightarrow> gate" where
  "public_handler tok r = (if tk_value tok = [] then Pass else bearer (tk_value tok) [''/api/health''] r)"

definition routes :: "(string \<times> string) list" where
  \<comment> \<open>the patterns of \<open>routes\<close>, the embedded UI's \<open>GET /\<close> apart\<close>
  "routes = [(''GET'', ''/api/health''), (''GET'', ''/api/version''), (''GET'', ''/api/history''),
     (''GET'', ''/api/blacklist''), (''POST'', ''/api/blacklist''), (''POST'', ''/api/updates/check''),
     (''POST'', ''/api/updates/install''), (''GET'', ''/api/settings/channel''),
     (''POST'', ''/api/settings/channel''), (''GET'', ''/api/openclaw/status''),
     (''GET'', ''/api/openclaw/action/log''), (''POST'', ''/api/openclaw/fix''),
     (''POST'', ''/api/openclaw/action'')]"

definition ip4_text :: "int \<Rightarrow> int \<Rightarrow> int \<Rightarrow> int \<Rightarrow> string" where
  "ip4_text a b c d = join_with ''.'' (map show_int [a, b, c, d])"

definition octet :: "int \<Rightarrow> bool" where "octet n \<longleftrightarrow> 0 \<le> n \<and> n < 256"

lemma digit_not_sep:
  assumes "digit_value c \<noteq> None"
  shows "c \<notin> set ''.:[]%''"
proof
  assume "c \<in> set ''.:[]%''"
  then have "digit_value c = None" by (auto simp: digit_value_def)
  with assms show False by simp
qed

lemma ip4_field_show:
  assumes "octet n"
  shows "ip4_field (show_int n) = Some n" "\<forall>c \<in> set (show_int n). c \<notin> set ''.:[]%''" "show_int n \<noteq> []"
proof -
  have i: "in_int64 n" and s: "show_int n = magnitude n" and n: "abs n = n" "n \<le> 255"
    using assms by (auto simp: octet_def in_int64_def show_int_def)
  have p: "parse_unsigned (magnitude n) = Some n" using parse_magnitude [OF i] n by simp
  then show "show_int n \<noteq> []" unfolding s by (auto simp: parse_unsigned_def)
  moreover have "\<not> (length (magnitude n) > 1 \<and> hd (magnitude n) = CHR ''0'')"
    using hd_dropWhile [of "\<lambda>c. c = CHR ''0''" "digits 19 (abs n)"] by (auto simp: magnitude_def Let_def)
  ultimately show "ip4_field (show_int n) = Some n"
    using p n unfolding s by (simp add: ip4_field_def parse_unsigned_def split: if_splits)
  show "\<forall>c \<in> set (show_int n). c \<notin> set ''.:[]%''"
    unfolding s using magnitude_digits digit_not_sep by blast
qed

lemma split_plain_host:
  assumes "\<forall>c \<in> set h. c \<notin> set '':[]''" "\<forall>c \<in> set p. c \<notin> set '':[]''" "h \<noteq> []"
  shows "split_host_port (h @ CHR '':'' # p) = Some h"
proof -
  have t: "takeWhile (\<lambda>c. c \<noteq> CHR '':'') (rev (h @ CHR '':'' # p)) = rev p"
    using assms(2) by (subst rev_append) (auto simp: takeWhile_append)
  have "\<not> prefix ''['' (h @ CHR '':'' # p)" using assms(1,3) by (cases h) auto
  then show ?thesis
    using assms unfolding split_host_port_def t by auto
qed

lemma ip4_text_chars:
  assumes "octet a" "octet b" "octet c" "octet d"
  shows "ip4_text a b c d = show_int a @ CHR ''.'' # join_with ''.'' (map show_int [b, c, d])"
    "\<forall>x \<in> set (ip4_text a b c d). x \<notin> set '':[]%''" "ip4_text a b c d \<noteq> []"
    "parse_ip4 (ip4_text a b c d) = Some (a, b, c, d)"
proof -
  show "ip4_text a b c d = show_int a @ CHR ''.'' # join_with ''.'' (map show_int [b, c, d])"
    by (simp add: ip4_text_def)
  show "\<forall>x \<in> set (ip4_text a b c d). x \<notin> set '':[]%''" "ip4_text a b c d \<noteq> []"
    using ip4_field_show assms by (auto simp: ip4_text_def)
  have "\<forall>x \<in> set (map show_int [a, b, c, d]). CHR ''.'' \<notin> set x"
    using ip4_field_show(2) assms by auto
  then have "split_on (CHR ''.'') (ip4_text a b c d) = map show_int [a, b, c, d]"
    unfolding ip4_text_def by (intro split_on_join) auto
  then show "parse_ip4 (ip4_text a b c d) = Some (a, b, c, d)"
    using ip4_field_show(1) assms by (simp add: parse_ip4_def)
qed

lemma loopback_ip4:
  assumes "octet a" "octet b" "octet c" "octet d" "0 \<le> port"
  shows "is_loopback (ip4_text a b c d @ CHR '':'' # show_int port) \<longleftrightarrow> a = 127"
proof -
  note t = ip4_text_chars [OF assms(1-4)]
  have "\<forall>x \<in> set (show_int port). x \<notin> set '':[]''"
    using magnitude_digits digit_not_sep assms(5) by (fastforce simp: show_int_def)
  then have h: "split_host_port (ip4_text a b c d @ CHR '':'' # show_int port) = Some (ip4_text a b c d)"
    using t(2,3) by (intro split_plain_host) auto
  have "dropWhile (\<lambda>x. x \<noteq> CHR ''.'' \<and> x \<noteq> CHR '':'' \<and> x \<noteq> CHR ''%'') (show_int a @ CHR ''.'' # r) = CHR ''.'' # r" for r
    using ip4_field_show(2) [OF assms(1)] by (subst dropWhile_append2) auto
  then show ?thesis
    unfolding is_loopback_def h ip_is_loopback_def using t(1,4) by simp
qed

text \<open>
  C38: a remote caller needs the token. With a token configured, a request from any IPv4 peer
  outside 127.0.0.0/8 on any route of the API but the health check reaches its handler only
  when it carries exactly that token; without it the answer is 401.
\<close>
theorem remote_needs_token:
  assumes "tk_value tok \<noteq> []" and "octet a" "octet b" "octet c" "octet d" and "a \<noteq> 127" and "0 \<le> port"
    and "q_remote r = ip4_text a b c d @ CHR '':'' # show_int port"
    and "q_path r \<in> snd ` set routes" and "q_path r \<noteq> ''/api/health''"
  shows "public_handler tok r =
    (if q_authorization r = ''Bearer '' @ tk_value tok then Pass
     else Unauthorized (if has_prefix (q_authorization r) ''Bearer '' then ''bearer token rejected''
       else ''missing bearer token''))"
proof -
  have api: "has_prefix (q_path r) ''/api/''"
    using assms(9) by (auto simp: routes_def has_prefix_def)
  have l: "\<not> is_loopback (q_remote r)" using loopback_ip4 [OF assms(2-5,7)] assms(6,8) by simp
  have c: "cut_prefix s ''Bearer '' = (if has_prefix s ''Bearer '' then Some (drop 7 s) else None)" for s
    by (simp add: cut_prefix_def has_prefix_def eval_nat_numeral)
  have e: "has_prefix s ''Bearer '' \<Longrightarrow> drop 7 s = t \<longleftrightarrow> s = ''Bearer '' @ t" for s t
    by (auto simp: has_prefix_def prefix_def)
  show ?thesis
    using assms(1,10) api l e [of "q_authorization r" "tk_value tok"]
    by (auto simp: public_handler_def bearer_def c has_prefix_def)
qed

lemma remote_needs_token_witness:
  "public_handler \<lparr>tk_value = ''6162'', tk_path = [], tk_generated = False\<rparr>
     \<lparr>q_method = ''POST'', q_path = ''/api/openclaw/fix'', q_remote = ''10.0.0.2:80'', q_authorization = ''Bearer 62''\<rparr>
   = Unauthorized ''bearer token rejected''"
proof -
  have a: "''10.0.0.2:80'' = ip4_text 10 0 0 2 @ CHR '':'' # show_int 80" by code_simp
  show ?thesis
    by (subst remote_needs_token [of _ 10 0 0 2 80])
      (use a in \<open>simp_all add: octet_def routes_def has_prefix_def\<close>)
qed

text \<open>
  With no token configured the mux is served bare: the comment on \<open>Token\<close> calls that a hard
  error for clients that are not on the loopback.
\<close>

lemma empty_token_is_open: "tk_value tok = [] \<Longrightarrow> public_handler tok r = Pass"
  by (simp add: public_handler_def)

end
