(* ===== verification/Channel.thy ===== *)
theory Channel
  imports Auth
begin

section \<open>The update channel (internal/agent/channel.go, handlers_channel.go)\<close>

text \<open>
  \<open>validate_channel\<close> and the three operations on the preference file. The handlers take the
  decoded request; \<open>restart\<close> tells whether \<open>RequestRestart\<close> is set, and the last component of
  a reply whether it is called.
\<close>

datatype channel_error = UnknownChannel | StateDirUnknown | ChannelMkdir os_error
  | ChannelWrite os_error | ChannelRename os_error | ChannelRead os_error

definition channel_file_name :: string where "channel_file_name = ''channel''"
definition channel_stable :: string where "channel_stable = ''stable''"
definition channel_beta :: string where "channel_beta = ''beta''"

definition validate_channel :: "string \<Rightarrow> channel_error + string" where
  "validate_channel name =
     (let n = to_lower (trim_space name)
      in if n = channel_stable \<or> n = channel_beta then Inr n else Inl UnknownChannel)"

definition read_preference :: "(json \<Rightarrow> string) \<Rightarrow> string \<Rightarrow> fsys \<Rightarrow> (channel_error + string) \<times> fsys" where
  "read_preference render dir f =
     (if dir = [] then (Inr [], f)
      else case os_read_file (path_join [dir, channel_file_name]) f of
        (Inl e, f) \<Rightarrow> (if e = NotExist then Inr [] else Inl (ChannelRead e), f)
      | (Inr c, f) \<Rightarrow>
          (case validate_channel (raw_bytes render c) of Inl _ \<Rightarrow> (Inr [], f) | Inr n \<Rightarrow> (Inr n, f)))"

definition write_preference :: "string \<Rightarrow> string \<Rightarrow> fsys \<Rightarrow> (channel_error + string) \<times> fsys" where
  "write_preference dir name f =
     (if dir = [] then (Inl StateDirUnknown, f)
      else case validate_channel name of
        Inl e \<Rightarrow> (Inl e, f)
      | Inr n \<Rightarrow>
     (case os_mkdir_all dir f of
        (Inl e, f) \<Rightarrow> (Inl (ChannelMkdir e), f)
      | (Inr _, f) \<Rightarrow>
     (let final = path_join [dir, channel_file_name]; tmp = final @ ''.tmp''
      in case os_write_file tmp (Text (n @ [CHR 0x0A])) f of
        (Inl e, f) \<Rightarrow> (Inl (ChannelWrite e), f)
      | (Inr _, f) \<Rightarrow>
     (case os_rename tmp final f of
        (Inl e, f) \<Rightarrow> (Inl (ChannelRename e), snd (os_remove tmp f))
      | (Inr _, f) \<Rightarrow> (Inr n, f)))))"

definition resolve_channel ::
  "(json \<Rightarrow> string) \<Rightarrow> string \<Rightarrow> string \<Rightarrow> string \<Rightarrow> fsys \<Rightarrow> (string \<times> string) \<times> fsys" where
  "resolve_channel render dir env fallback f =
     (let (pref, f) = (if dir \<noteq> [] then read_preference render dir f else (Inr [], f))
      in case pref of
           Inr (c # cs) \<Rightarrow> ((c # cs, ''preference-file''), f)
         | _ \<Rightarrow>
             (case (if env \<noteq> [] then validate_channel env else Inl UnknownChannel) of
                Inr v \<Rightarrow> ((v, ''env''), f)
              | Inl _ \<Rightarrow> ((if fallback = [] then channel_stable else fallback, ''default''), f)))"

lemma validate_range: "validate_channel s = Inr n \<Longrightarrow> n = channel_stable \<or> n = channel_beta"
  by (auto simp: validate_channel_def Let_def split: if_splits)

lemma validate_line:
  assumes "n = channel_stable \<or> n = channel_beta"
  shows "validate_channel (n @ [CHR 0x0A]) = Inr n"
proof -
  have "trim_space (n @ [CHR 0x0A]) = n"
    using assms by (intro trim_line) (auto simp: channel_stable_def channel_beta_def graphic_def)
  then show ?thesis
    using assms by (auto simp: validate_channel_def Let_def channel_stable_def channel_beta_def
        to_lower_def to_lower_char_def)
qed

lemma tmp_ne: "final @ ''.tmp'' \<noteq> (final :: string)" by simp

lemma write_preference_E:
  assumes "write_preference dir name f = (r, f')"
  shows "(\<exists>e. r = Inl e \<and> (\<forall>q. q \<noteq> dir \<and> q \<noteq> path_join [dir, channel_file_name] @ ''.tmp'' \<longrightarrow> nodes f' q = nodes f q))
    \<or> (\<exists>n. r = Inr n \<and> validate_channel name = Inr n
        \<and> nodes f' (path_join [dir, channel_file_name]) = Some (File (Text (n @ [CHR 0x0A]))))"
proof (cases "dir = [] \<or> (\<exists>e. validate_channel name = Inl e)")
  case True
  then have "(\<exists>e. r = Inl e) \<and> f' = f"
  proof
    assume "dir = []"
    with assms show ?thesis by (auto simp: write_preference_def)
  next
    assume "\<exists>e. validate_channel name = Inl e"
    then obtain e where "validate_channel name = Inl e" by blast
    with assms have "r = (if dir = [] then Inl StateDirUnknown else Inl e)" "f' = f"
      by (simp_all add: write_preference_def split: if_splits)
    then show ?thesis by simp
  qed
  then show ?thesis by simp
next
  case False
  then obtain n where v: "validate_channel name = Inr n" and d: "dir \<noteq> []"
    by (cases "validate_channel name") auto
  let ?final = "path_join [dir, channel_file_name]"
  let ?tmp = "?final @ ''.tmp''" and ?c = "Text (n @ [CHR 0x0A])"
  show ?thesis
  proof (rule os_mkdir_all_E [of dir f])
    fix f1 e assume m: "os_mkdir_all dir f = (Inl e, f1)" "nodes f1 = nodes f"
    with assms v d show ?thesis by (auto simp: write_preference_def)
  next
    fix f1 assume m: "os_mkdir_all dir f = (Inr (), f1)" "nodes f1 = (nodes f)(dir \<mapsto> Dir)"
    show ?thesis
    proof (rule os_write_file_E [of ?tmp ?c f1])
      fix f2 e assume w: "os_write_file ?tmp ?c f1 = (Inl e, f2)" "nodes f2 = nodes f1"
      with assms v d m show ?thesis by (auto simp: write_preference_def Let_def)
    next
      fix f2 assume w: "os_write_file ?tmp ?c f1 = (Inr (), f2)" "nodes f2 = (nodes f1)(?tmp \<mapsto> File ?c)"
      have t: "nodes f2 ?tmp = Some (File ?c)" using w by simp
      show ?thesis
      proof (rule os_rename_file_E [OF t, of ?final])
        fix f3 e assume rn: "os_rename ?tmp ?final f2 = (Inl e, f3)" "nodes f3 = nodes f2"
        have "f' = snd (os_remove ?tmp f3)" "\<exists>e. r = Inl e"
          using assms v d m w rn by (auto simp: write_preference_def Let_def)
        then show ?thesis using os_outside(1) m w rn by auto
      next
        fix f3 assume rn: "os_rename ?tmp ?final f2 = (Inr (), f3)"
          "nodes f3 = (nodes f2)(?final \<mapsto> File ?c, ?tmp := None)"
        have "f' = f3" "r = Inr n"
          using assms v d m w rn by (auto simp: write_preference_def Let_def)
        then show ?thesis using v rn by simp
      qed simp_all
    qed
  qed
qed

text \<open>
  A channel pick is all or nothing. Whatever calls fail, a write that reports success
  has stored the pick, and the next boot that can read the file resolves to it, whatever the
  environment says; a write that reports an error leaves the stored preference as it was.
\<close>
theorem channel_pick_sticks:
  assumes "write_preference dir name f = (r, f')" and "dir \<noteq> path_join [dir, channel_file_name]"
  shows "case r of
      Inl e \<Rightarrow> nodes f' (path_join [dir, channel_file_name]) = nodes f (path_join [dir, channel_file_name])
    | Inr n \<Rightarrow> n \<in> {channel_stable, channel_beta}
        \<and> (faults f' = [] \<longrightarrow> fst (resolve_channel render dir env fallback f') = (n, ''preference-file''))"
proof (cases r)
  case (Inl e)
  with write_preference_E [OF assms(1)] assms(2) show ?thesis by (auto simp: tmp_ne)
next
  case (Inr n)
  with write_preference_E [OF assms(1)] have v: "n = channel_stable \<or> n = channel_beta"
    and n: "nodes f' (path_join [dir, channel_file_name]) = Some (File (Text (n @ [CHR 0x0A])))"
    using validate_range by auto
  have d: "dir \<noteq> []" using Inr assms(1) by (auto simp: write_preference_def)
  have "n \<noteq> []" using v by (auto simp: channel_stable_def channel_beta_def)
  then show ?thesis
    using Inr v d n validate_line [OF v]
    by (cases n) (auto simp: resolve_channel_def read_preference_def os_read_file_def)
qed

lemma channel_pick_sticks_witness:
  "\<exists>f'. write_preference ''/s'' '' Beta '' empty_fs = (Inr ''beta'', f')
     \<and> fst (resolve_channel (\<lambda>_. []) ''/s'' ''stable'' [] f') = (''beta'', ''preference-file'')"
proof -
  have p: "path_join [''/s'', channel_file_name] = ''/s/channel''" by code_simp
  have "trim_space '' Beta '' = ''Beta''" using trim_blanks(2) [of "''Beta''"] by (simp add: graphic_def)
  moreover have "to_lower ''Beta'' = ''beta''" by code_simp
  ultimately have v: "validate_channel '' Beta '' = Inr ''beta''"
    by (simp add: validate_channel_def channel_stable_def channel_beta_def)
  obtain f' where w: "write_preference ''/s'' '' Beta '' empty_fs = (Inr ''beta'', f')" and c: "faults f' = []"
    by (simp add: write_preference_def p v empty_fs_def os_mkdir_all_def os_write_file_def os_rename_def Let_def)
  have "''/s'' \<noteq> path_join [''/s'', channel_file_name]" by (simp add: p)
  from channel_pick_sticks [OF w this, of "\<lambda>_. []" "''stable''" "[]"] w c show ?thesis by auto
qed

subsection \<open>The handlers\<close>

record channel_view =
  h_active :: string
  h_preference :: string
  h_restart_required :: bool
  h_restart_requested :: bool

definition active_channel :: "string \<Rightarrow> string" where
  "active_channel cfg = (if cfg = [] then channel_stable else cfg)"

definition handle_channel_get :: "(json \<Rightarrow> string) \<Rightarrow> string \<Rightarrow> string \<Rightarrow> fsys \<Rightarrow> channel_view \<times> fsys" where
  "handle_channel_get render cfg dir f =
     (let active = active_channel cfg;
          (p, f) = (if dir \<noteq> [] then read_preference render dir f else (Inr [], f));
          pref = (case p of Inr p \<Rightarrow> p | Inl _ \<Rightarrow> [])
      in (\<lparr>h_active = active, h_preference = pref, h_restart_required = (pref \<noteq> [] \<and> pref \<noteq> active),
           h_restart_requested = False\<rparr>, f))"

datatype channel_reply = ChannelRefused int | ChannelSet channel_view

definition handle_channel_set ::
  "string \<Rightarrow> string \<Rightarrow> bool \<Rightarrow> (string \<times> bool) option \<Rightarrow> fsys \<Rightarrow> channel_reply \<times> bool \<times> fsys" where
  \<comment> \<open>of the configured channel, the state directory, whether a restart hook is set, and the
    request (channel, restart), None when the body is not a valid document\<close>
  "handle_channel_set cfg dir hook req f =
     (if dir = [] then (ChannelRefused 503, False, f)
      else case req of
        None \<Rightarrow> (ChannelRefused 400, False, f)
      | Some (ch, restart) \<Rightarrow>
          (case write_preference dir ch f of
             (Inl e, f) \<Rightarrow> (ChannelRefused (if e = UnknownChannel then 400 else 500), False, f)
           | (Inr pref, f) \<Rightarrow>
               (let active = active_channel cfg;
                    required = (pref \<noteq> active);
                    requested = (restart \<and> required \<and> hook)
                in (ChannelSet \<lparr>h_active = active, h_preference = pref, h_restart_required = required,
                      h_restart_requested = requested\<rparr>, requested, f))))"

text \<open>The worker restarts only for a stored pick that differs from the active channel.\<close>

lemma channel_restart_justified:
  assumes "handle_channel_set cfg dir hook req f = (reply, True, f')"
  shows "\<exists>ch v. req = Some (ch, True) \<and> hook \<and> reply = ChannelSet v \<and> h_preference v \<noteq> h_active v
    \<and> write_preference dir ch f = (Inr (h_preference v), f')"
proof -
  obtain ch restart where r: "dir \<noteq> []" "req = Some (ch, restart)"
    using assms by (cases "dir = []"; cases req) (auto simp: handle_channel_set_def)
  obtain w f1 where w: "write_preference dir ch f = (w, f1)" by fastforce
  show ?thesis
  proof (cases w)
    case (Inl e)
    with assms r w show ?thesis by (simp add: handle_channel_set_def)
  next
    case (Inr pref)
    with assms r w have "restart" "hook" "pref \<noteq> active_channel cfg" "f' = f1"
      "reply = ChannelSet \<lparr>h_active = active_channel cfg, h_preference = pref, h_restart_required = True,
         h_restart_requested = True\<rparr>"
      by (auto simp: handle_channel_set_def Let_def)
    with r w Inr show ?thesis by auto
  qed
qed

end
