(* ===== verification/Api.thy ===== *)
theory Api
  imports Channel Ledger SelfUpdate
begin

section \<open>The worker's API (internal/agent: server.go, handlers.go, blacklist.go)\<close>

text \<open>
  A handler is a function from the server, the decoded request and the file system to its reply
  (status and payload), the hooks it calls and the new file system. \<^verbatim>\<open>err.Error()\<close> is kept as the
  error value itself (\<open>api_note\<close>). The manifest client and the installer are those of \<open>Updater\<close>
  and \<open>SelfUpdate\<close>; their arguments for third-party code and the network are gathered in \<open>world\<close>.
\<close>

subsection \<open>The server\<close>

record 'k api_config =
  ac_addr :: string
  ac_root :: string
  ac_state :: string
  ac_channel :: string
  ac_base_url :: string
  ac_key :: "'k option"       \<comment> \<open>\<^verbatim>\<open>UpdatePubKey\<close>, \<open>None\<close> when its ID is 0\<close>
  ac_supervisor :: string
  ac_rollback :: bool         \<comment> \<open>\<^verbatim>\<open>RequestRollback\<close> is set\<close>
  ac_restart :: bool          \<comment> \<open>\<^verbatim>\<open>RequestRestart\<close> is set\<close>
  ac_interval :: duration
  ac_first :: duration

datatype api_note = NoNote | TextNote string | CheckNote check_error | ApplyNote apply_error

record update_check =
  u_current :: string
  u_latest :: string
  u_available :: bool
  u_channel :: string
  u_source :: string
  u_published :: string
  u_notes :: string
  u_code :: string
  u_note :: api_note

record 'k server =
  sv_cfg :: "'k api_config"
  sv_updater :: "'k client option"
  sv_check :: "(update_check \<times> instant) option"   \<comment> \<open>\<^verbatim>\<open>bgCheck\<close> and \<^verbatim>\<open>bgCheckAt\<close>\<close>

definition default_addr :: string where "default_addr = ''127.0.0.1:17080''"

definition new_server :: "'k \<Rightarrow> 'k api_config \<Rightarrow> 'k server" where
  \<comment> \<open>of the embedded development key and the configuration\<close>
  "new_server dev cfg =
     (let cfg = (if ac_addr cfg = [] then cfg\<lparr>ac_addr := default_addr\<rparr> else cfg);
          cfg = (if ac_channel cfg = [] then cfg\<lparr>ac_channel := default_channel\<rparr> else cfg)
      in \<lparr>sv_cfg = cfg,
          sv_updater =
            (if ac_base_url cfg = [] then None
             else Some (new_client (ac_base_url cfg) (ac_channel cfg)
                    (case ac_key cfg of None \<Rightarrow> dev | Some k \<Rightarrow> k))),
          sv_check = None\<rparr>)"

definition current_version_label :: "string \<Rightarrow> string \<Rightarrow> string" where
  \<comment> \<open>of the environment's label and \<^verbatim>\<open>version.Version\<close>\<close>
  "current_version_label env compiled = (if env \<noteq> [] then env else compiled)"

record version_response =
  vr_version :: string
  vr_label :: string
  vr_commit :: string
  vr_build_time :: string
  vr_go :: string
  vr_full :: string
  vr_supervisor :: string
  vr_root :: string
  vr_channel :: string

record build_info =
  b_version :: string
  b_commit :: string
  b_time :: string
  b_go :: string

definition version_full :: "build_info \<Rightarrow> string" where
  "version_full b = b_version b @ '' ('' @ b_commit b @ '', '' @ b_time b @ '', '' @ b_go b @ '')''"

definition handle_version :: "build_info \<Rightarrow> string \<Rightarrow> 'k server \<Rightarrow> int \<times> version_response" where
  "handle_version b env s =
     (200, \<lparr>vr_version = b_version b, vr_label = current_version_label env (b_version b),
        vr_commit = b_commit b, vr_build_time = b_time b, vr_go = b_go b, vr_full = version_full b,
        vr_supervisor = ac_supervisor (sv_cfg s), vr_root = ac_root (sv_cfg s),
        vr_channel = ac_channel (sv_cfg s)\<rparr>)"

record health_response =
  hr_ok :: bool
  hr_service :: string
  hr_uptime :: int
  hr_time :: string

definition handle_health :: "instant \<Rightarrow> instant \<Rightarrow> int \<times> health_response" where
  \<comment> \<open>of the start of the server and the clock\<close>
  "handle_health started now =
     (200, \<lparr>hr_ok = True, hr_service = ''clawmast'', hr_uptime = time_sub now started sdiv 1000000,
        hr_time = rfc3339_nano now\<rparr>)"

datatype ui_source = UiDisk string | UiEmbedded | UiNone

definition build_ui_handler :: "string \<Rightarrow> bool \<Rightarrow> bool \<Rightarrow> ui_source" where
  \<comment> \<open>of \<^verbatim>\<open>CLAWMAST_DEV_DIST_DIR\<close>, whether it names a directory, whether the embedded tree opens\<close>
  "build_ui_handler dir is_dir embedded =
     (if dir \<noteq> [] \<and> is_dir then UiDisk dir else if embedded then UiEmbedded else UiNone)"

subsection \<open>The blacklist\<close>

definition api_blacklist_path :: "'k server \<Rightarrow> string option" where
  "api_blacklist_path s =
     (if ac_root (sv_cfg s) = [] then None
      else Some (path_join [ac_root (sv_cfg s), ''state'', ''blacklist.json'']))"

record bl_view =
  bv_path :: string
  bv_count :: int
  bv_entries :: "(string \<times> string \<times> string) list"   \<comment> \<open>version, instant as text, reason\<close>

definition to_blacklist_response :: "string \<Rightarrow> bl_entry list \<Rightarrow> bl_view" where
  "to_blacklist_response path es =
     (let dto = map (\<lambda>e. (bl_version e, rfc3339_nano (bl_time e), bl_reason e)) es
      in \<lparr>bv_path = path, bv_count = int (length dto), bv_entries = dto\<rparr>)"

datatype bl_reply = BlRefused int | BlFailed bl_error | BlList bl_view
  | BlMarked bl_view string string bool   \<comment> \<open>version, reason, whether a rollback was requested\<close>

definition bl_status :: "bl_reply \<Rightarrow> int" where
  "bl_status r = (case r of BlRefused n \<Rightarrow> n | BlFailed _ \<Rightarrow> 500 | BlList _ \<Rightarrow> 200 | BlMarked _ _ _ _ \<Rightarrow> 202)"

definition handle_blacklist_list :: "'k server \<Rightarrow> fsys \<Rightarrow> bl_reply \<times> fsys" where
  "handle_blacklist_list s f =
     (case api_blacklist_path s of
        None \<Rightarrow> (BlRefused 503, f)
      | Some path \<Rightarrow>
          (case load path f of
             (Inl e, f) \<Rightarrow> (BlFailed e, f)
           | (Inr es, f) \<Rightarrow> (BlList (to_blacklist_response path es), f)))"

datatype add_body = NoBody | EmptyBody | BrokenBody | AddBody json
  \<comment> \<open>what the decoder finds in the first 4 KiB: nothing, a text that is no document, a document\<close>

definition add_field :: "string \<times> string \<Rightarrow> string \<times> json \<Rightarrow> (string \<times> string) option" where
  "add_field r kv = (case kv of (k, v) \<Rightarrow>
     if equal_fold k ''version'' then map_option (\<lambda>x. (x, snd r)) (decode_string (fst r) v)
     else if equal_fold k ''reason'' then map_option (\<lambda>x. (fst r, x)) (decode_string (snd r) v)
     else Some r)"

definition decode_add :: "add_body \<Rightarrow> (string \<times> string) option" where
  \<comment> \<open>version and reason of the request\<close>
  "decode_add b =
     (case b of NoBody \<Rightarrow> Some ([], []) | EmptyBody \<Rightarrow> Some ([], []) | BrokenBody \<Rightarrow> None
      | AddBody j \<Rightarrow> decode_struct add_field ([], []) j)"

definition handle_blacklist_add ::
  "'k server \<Rightarrow> string \<Rightarrow> add_body \<Rightarrow> instant \<Rightarrow> fsys \<Rightarrow> bl_reply \<times> bool \<times> fsys" where
  \<comment> \<open>the second argument is the running version's label; the flag of the result says that
    \<^verbatim>\<open>RequestRollback\<close> is called\<close>
  "handle_blacklist_add s label body now f =
     (case api_blacklist_path s of
        None \<Rightarrow> (BlRefused 503, False, f)
      | Some path \<Rightarrow>
     (case decode_add body of
        None \<Rightarrow> (BlRefused 400, False, f)
      | Some (v, r) \<Rightarrow>
          (let target = (if v = [] then label else v);
               reason = (if r = [] then ''user-marked-bad'' else r)
           in if target = [] then (BlRefused 400, False, f)
              else case add path \<lparr>bl_version = target, bl_time = 0, bl_reason = reason\<rparr> now f of
                (Inl e, f) \<Rightarrow> (BlFailed e, False, f)
              | (Inr es, f) \<Rightarrow>
                  (let rollback = (target = label \<and> ac_rollback (sv_cfg s))
                   in (BlMarked (to_blacklist_response path es) target reason rollback, rollback, f)))))"

subsection \<open>History\<close>

definition history_limit :: "string \<Rightarrow> int" where
  \<comment> \<open>of the query parameter, empty when it is missing\<close>
  "history_limit raw =
     (if raw = [] then 50
      else case parse_int raw of
        None \<Rightarrow> 50
      | Some n \<Rightarrow> if n > 0 then (if n > 500 then 500 else n) else 50)"

record hist_view =
  hv_time :: string
  hv_event :: string
  hv_version :: string
  hv_exit :: "int option"
  hv_reason :: string

definition hist_dto :: "read_entry \<Rightarrow> hist_view" where
  "hist_dto e = \<lparr>hv_time = rfc3339_nano (r_time e), hv_event = r_event e, hv_version = r_version e,
     hv_exit = r_exit e, hv_reason = r_reason e\<rparr>"

record hist_page =
  hp_path :: string
  hp_count :: int
  hp_entries :: "hist_view list"

datatype hist_reply = HistRefused | HistFailed read_error | HistPage hist_page

definition handle_history :: "'k server \<Rightarrow> string \<Rightarrow> (string \<Rightarrow> hledger option) \<Rightarrow> hist_reply" where
  \<comment> \<open>of the limit parameter and the ledger files on disk\<close>
  "handle_history s raw files =
     (if ac_root (sv_cfg s) = [] then HistRefused
      else let path = path_join [ac_root (sv_cfg s), ''state'', ''history.json'']
           in case read_tail (history_limit raw) False (files path) of
                Inl e \<Rightarrow> HistFailed e
              | Inr es \<Rightarrow> HistPage \<lparr>hp_path = path, hp_count = int (length (map hist_dto es)),
                  hp_entries = map hist_dto es\<rparr>)"

subsection \<open>Updates\<close>

record 'k world =
  w_parse_url :: "string \<Rightarrow> string option"
  w_verify :: "'k \<Rightarrow> string \<Rightarrow> string \<Rightarrow> bool"
  w_unmarshal :: "string \<Rightarrow> json option"
  w_net :: "string \<Rightarrow> reply"
  w_untar :: "string \<Rightarrow> tar_stream option"
  w_sha256 :: "string \<Rightarrow> string"
  w_download :: "string \<Rightarrow> download_reply option"
  w_goos :: string
  w_goarch :: string

definition check_in :: "'k world \<Rightarrow> 'k client \<Rightarrow> check_error + manifest" where
  "check_in w = check (w_parse_url w) (w_verify w) (w_unmarshal w) (w_net w)"

fun classify_updater_error :: "check_error \<Rightarrow> string" where
  "classify_updater_error BadSignature = ''bad-signature''"
| "classify_updater_error ChannelMismatch = ''channel-mismatch''"
| "classify_updater_error (FetchError ManifestMissing) = ''manifest-missing''"
| "classify_updater_error (FetchError TooBig) = ''manifest-too-big''"
| "classify_updater_error BadUrl = ''bad-url''"
| "classify_updater_error _ = ''unreachable''"

definition rfc3339_seconds :: "instant \<Rightarrow> string" where
  \<comment> \<open>\<^verbatim>\<open>Format(time.RFC3339)\<close>\<close>
  "rfc3339_seconds t = rfc3339_nano (t div 1000000000 * 1000000000)"

definition unset_url_note :: "string \<Rightarrow> api_note" where
  "unset_url_note what = TextNote (''CLAWMAST_UPDATE_URL is unset; set it to the channel base URL ''
     @ ''(for example https://update.clawmast.com/stable) to enable '' @ what @ ''.'')"

definition run_update_check :: "'k world \<Rightarrow> string \<Rightarrow> 'k server \<Rightarrow> update_check" where
  "run_update_check w current s =
     (case sv_updater s of
        None \<Rightarrow> \<lparr>u_current = current, u_latest = current, u_available = False,
          u_channel = ac_channel (sv_cfg s), u_source = ''not-configured'', u_published = [],
          u_notes = [], u_code = [], u_note = unset_url_note ''update checks''\<rparr>
      | Some c \<Rightarrow>
          (case check_in w c of
             Inl e \<Rightarrow> \<lparr>u_current = current, u_latest = current, u_available = False,
               u_channel = ac_channel (sv_cfg s), u_source = ''error'', u_published = [],
               u_notes = [], u_code = classify_updater_error e, u_note = CheckNote e\<rparr>
           | Inr m \<Rightarrow> \<lparr>u_current = current, u_latest = f_version m,
               u_available = (f_version m \<noteq> current), u_channel = f_channel m,
               u_source = ''signed-manifest'', u_published = rfc3339_seconds (f_published m),
               u_notes = f_notes m, u_code = [], u_note = NoNote\<rparr>))"

fun classify_selfupdate_error :: "apply_error \<Rightarrow> string \<times> int" where
  "classify_selfupdate_error (Download BadSha256) = (''bad-sha256'', 502)"
| "classify_selfupdate_error (Download SizeMismatch) = (''size-mismatch'', 502)"
| "classify_selfupdate_error (Download BadGzip) = (''bad-tarball'', 502)"
| "classify_selfupdate_error (Download (BadTar (BadTarball why))) = (''bad-tarball'', 502)"
| "classify_selfupdate_error NoArtifactForHost = (''no-artifact'', 409)"
| "classify_selfupdate_error AlreadyInstalled = (''already-installed'', 409)"
| "classify_selfupdate_error _ = (''install-failed'', 500)"

record install_reply =
  i_status :: int
  i_ok :: bool
  i_version :: string
  i_previous :: string
  i_current_after :: string
  i_previous_after :: string
  i_bytes :: int
  i_restart :: bool
  i_code :: string
  i_note :: api_note

definition install_refused :: "int \<Rightarrow> string \<Rightarrow> api_note \<Rightarrow> install_reply" where
  "install_refused st c n = \<lparr>i_status = st, i_ok = False, i_version = [], i_previous = [],
     i_current_after = [], i_previous_after = [], i_bytes = 0, i_restart = False, i_code = c, i_note = n\<rparr>"

definition handle_update_install ::
  "'k world \<Rightarrow> string \<Rightarrow> instant \<Rightarrow> 'k server \<Rightarrow> fsys \<Rightarrow> install_reply \<times> bool \<times> fsys" where
  \<comment> \<open>the flag says that \<^verbatim>\<open>RequestRestart\<close> is scheduled\<close>
  "handle_update_install w label now s f =
     (case sv_updater s of
        None \<Rightarrow> (install_refused 503 ''not-configured'' (unset_url_note ''auto-update''), False, f)
      | Some c \<Rightarrow>
     (if ac_root (sv_cfg s) = []
      then (install_refused 503 ''install-root-unknown'' (TextNote ''install root unknown; /api/updates/install is supervisor-scoped''), False, f)
      else if \<not> ac_restart (sv_cfg s)
      then (install_refused 503 ''restart-unavailable'' 
       (TextNote (''worker was started without a restart hook; refuse to rotate current ''
          @ ''without a path back to a running version'')), False, f)
      else case check_in w c of
        Inl e \<Rightarrow> (install_refused 502 (classify_updater_error e) (CheckNote e), False, f)
      | Inr m \<Rightarrow>
     (case apply_update (w_untar w) (w_sha256 w) (w_download w) (w_goos w) (w_goarch w)
             \<lparr>p_root = ac_root (sv_cfg s), p_current = label, p_manifest = Some m\<rparr> now f of
        (Inl e, f) \<Rightarrow>
          (install_refused (snd (classify_selfupdate_error e)) (fst (classify_selfupdate_error e))
             (ApplyNote e), False, f)
      | (Inr r, f) \<Rightarrow>
          (\<lparr>i_status = 200, i_ok = True, i_version = f_version m, i_previous = label,
            i_current_after = r_after r, i_previous_after = r_previous r, i_bytes = r_bytes r,
            i_restart = True, i_code = [], i_note = NoNote\<rparr>, True, f))))"

subsection \<open>Checks in the background\<close>

datatype bg_event = BgDone | BgTick instant "string \<Rightarrow> reply" instant
  \<comment> \<open>the context is cancelled; the timer's branch at an instant, with the network during the
    check and the instant at which the outcome is recorded\<close>

definition record_background_check :: "update_check \<Rightarrow> instant \<Rightarrow> 'k server \<Rightarrow> 'k server" where
  "record_background_check r now s = s\<lparr>sv_check := Some (r, now)\<rparr>"

definition last_background_check :: "'k server \<Rightarrow> update_check option \<times> instant" where
  "last_background_check s = (case sv_check s of None \<Rightarrow> (None, 0) | Some (r, t) \<Rightarrow> (Some r, t))"

fun background_loop :: "'k world \<Rightarrow> string \<Rightarrow> instant \<Rightarrow> bg_event list \<Rightarrow> 'k server \<Rightarrow> 'k server" where
  \<comment> \<open>a tick before the timer is due is not taken\<close>
  "background_loop w label due [] s = s"
| "background_loop w label due (BgDone # es) s = s"
| "background_loop w label due (BgTick t net e # es) s =
     (if t < due then background_loop w label due es s
      else background_loop w label (time_add (max t e) (ac_interval (sv_cfg s))) es
             (record_background_check (run_update_check (w\<lparr>w_net := net\<rparr>) label s) (max t e) s))"

definition run_background_checks :: "'k world \<Rightarrow> string \<Rightarrow> instant \<Rightarrow> bg_event list \<Rightarrow> 'k server \<Rightarrow> 'k server" where
  "run_background_checks w label now es s =
     (if ac_interval (sv_cfg s) \<le> 0 then s
      else let delay = (if ac_first (sv_cfg s) \<le> 0 then ac_interval (sv_cfg s) else ac_first (sv_cfg s))
           in background_loop w label (time_add now delay) es s)"

subsection \<open>Marking a version as bad\<close>

text \<open>
  C27: what the operator is told about the blacklist is so. When POST /api/blacklist reports the
  version as marked, the file on disk lists it with the reported reason and the shown entries
  are the file's; in every other case the file is what it was. A rollback is requested exactly
  for the running version with a hook set, and only together with that report.
\<close>
theorem marked_as_reported:
  assumes "handle_blacklist_add s label body now f = (reply, hook, f')"
    and "api_blacklist_path s = Some p" and "nodes f p \<noteq> Some Dir" and "dir_of p \<noteq> p"
    and "nodes f (tmp_of p) \<noteq> Some Dir"
  shows "case reply of
      BlMarked view v reason requested \<Rightarrow> v \<noteq> [] \<and> reason \<noteq> [] \<and> hook = requested
        \<and> (requested \<longleftrightarrow> v = label \<and> ac_rollback (sv_cfg s))
        \<and> (\<exists>es. nodes f' p = Some (File (Doc (JArr (map encode_entry es)))) \<and> contains es v
             \<and> \<lparr>bl_version = v, bl_time = now, bl_reason = reason\<rparr> \<in> set es
             \<and> view = to_blacklist_response p es)
    | _ \<Rightarrow> \<not> hook \<and> nodes f' p = nodes f p"
proof -
  consider (refused) n where "reply = BlRefused n" "\<not> hook" "f' = f"
    | (decided) v r where "decode_add body = Some (v, r)" "(if v = [] then label else v) \<noteq> []"
    using assms(1,2) by (cases "decode_add body") (auto simp: handle_blacklist_add_def Let_def split: if_splits)
  then show ?thesis
  proof cases
    case decided
    define V where "V = (if v = [] then label else v)"
    define R where "R = (if r = [] then ''user-marked-bad'' else r)"
    have ne: "V \<noteq> []" "R \<noteq> []" using decided(2) by (simp_all add: V_def R_def)
    obtain a g where a: "add p \<lparr>bl_version = V, bl_time = 0, bl_reason = R\<rparr> now f = (a, g)" by fastforce
    note eff = add_effect [OF a assms(3-5)]
    have h: "handle_blacklist_add s label body now f =
        (case a of Inl e \<Rightarrow> (BlFailed e, False, g)
         | Inr es \<Rightarrow> (BlMarked (to_blacklist_response p es) V R (V = label \<and> ac_rollback (sv_cfg s)),
             V = label \<and> ac_rollback (sv_cfg s), g))"
      using assms(2) decided a unfolding V_def R_def
      by (cases a) (auto simp: handle_blacklist_add_def Let_def)
    show ?thesis
    proof (cases a)
      case (Inl err)
      with assms(1) h have "reply = BlFailed err" "\<not> hook" "f' = g" by auto
      with eff Inl show ?thesis by simp
    next
      case (Inr es)
      let ?roll = "V = label \<and> ac_rollback (sv_cfg s)"
      have r: "reply = BlMarked (to_blacklist_response p es) V R ?roll" "hook = ?roll" "f' = g"
        using assms(1) h Inr by auto
      from eff Inr have "nodes g p = Some (File (Doc (JArr (map encode_entry es)))) \<and> contains es V
        \<and> \<lparr>bl_version = V, bl_time = now, bl_reason = R\<rparr> \<in> set es" by (simp add: time_is_zero_def)
      with ne show ?thesis unfolding r bl_reply.case by blast
    qed
  qed simp
qed

definition demo_api :: "int api_config" where
  "demo_api = \<lparr>ac_addr = [], ac_root = ''/r'', ac_state = ''/r/state'', ac_channel = [],
     ac_base_url = ''https://h/'', ac_key = None, ac_supervisor = ''s'', ac_rollback = True, ac_restart = True,
     ac_interval = seconds 21600, ac_first = seconds 60\<rparr>"

lemma demo_api_paths: "path_join [''/r'', ''state'', ''blacklist.json''] = ''/r/state/blacklist.json''"
  by code_simp

lemma demo_marked:
  "\<exists>view f'. handle_blacklist_add (new_server 7 demo_api) ''v2'' EmptyBody (seconds 9) ok_fs
     = (BlMarked view ''v2'' ''user-marked-bad'' True, True, f')"
proof -
  have l: "load ''/r/state/blacklist.json'' ok_fs =
      (Inr [\<lparr>bl_version = ''v1'', bl_time = 7, bl_reason = ''x''\<rparr>], ok_fs)"
    by (rule load_clean) (simp_all add: ok_fs_def)
  obtain es f' where "add ''/r/state/blacklist.json''
      \<lparr>bl_version = ''v2'', bl_time = 0, bl_reason = ''user-marked-bad''\<rparr> (seconds 9) ok_fs = (Inr es, f')"
    using add_clean [of ok_fs _ _ "\<lparr>bl_version = ''v2'', bl_time = 0, bl_reason = ''user-marked-bad''\<rparr>"
        _ "seconds 9", OF _ l]
    by (auto simp: ok_fs_def demo_dir demo_tmp time_is_zero_def time_encodable_def upsert_def)
  then show ?thesis
    by (simp add: handle_blacklist_add_def api_blacklist_path_def new_server_def demo_api_def
        demo_api_paths decode_add_def Let_def)
qed

lemma marked_as_reported_witness:
  "\<exists>view f' es. handle_blacklist_add (new_server 7 demo_api) ''v2'' EmptyBody (seconds 9) ok_fs
     = (BlMarked view ''v2'' ''user-marked-bad'' True, True, f')
   \<and> nodes f' ''/r/state/blacklist.json'' = Some (File (Doc (JArr (map encode_entry es))))
   \<and> contains es ''v2''"
proof -
  obtain view f' where h: "handle_blacklist_add (new_server 7 demo_api) ''v2'' EmptyBody (seconds 9) ok_fs
     = (BlMarked view ''v2'' ''user-marked-bad'' True, True, f')" using demo_marked by blast
  have p: "api_blacklist_path (new_server 7 demo_api) = Some ''/r/state/blacklist.json''"
    by (simp add: api_blacklist_path_def new_server_def demo_api_def demo_api_paths)
  from marked_as_reported [OF h p] h show ?thesis by (auto simp: ok_fs_def demo_dir demo_tmp)
qed

text \<open>The hook only decides about the rollback: without one the version is still written down.\<close>

lemma nil_rollback_still_writes:
  "map_prod bl_status (map_prod id (\<lambda>f. nodes f p)) (handle_blacklist_add s label body now f) =
   map_prod bl_status (map_prod (\<lambda>b. b \<and> ac_rollback (sv_cfg s)) (\<lambda>f. nodes f p))
     (handle_blacklist_add (s\<lparr>sv_cfg := (sv_cfg s)\<lparr>ac_rollback := True\<rparr>\<rparr>) label body now f)"
  by (auto simp: handle_blacklist_add_def api_blacklist_path_def bl_status_def Let_def
      split: option.split prod.split sum.split)

subsection \<open>What the history shows\<close>

lemma history_limit_range: "1 \<le> history_limit raw" "history_limit raw \<le> 500"
  by (auto simp: history_limit_def split: option.split)

lemma history_limit_examples:
  "map history_limit [[], ''7'', ''0'', ''-3'', ''x'', ''501'', ''99999999999999999999''] = [50, 7, 50, 50, 50, 500, 50]"
  by code_simp

text \<open>
  The operator sees what the supervisor wrote. Whatever limit is asked for, the page of
  GET /api/history holds the newest entries of the ledger, in order and field by field, at
  least one and at most 500 of them if there are as many, after any appends of the supervisor.
\<close>
theorem history_shows_newest:
  assumes "ac_root (sv_cfg s) \<noteq> []" and "\<forall>e \<in> set es. writable e" and "h_tail g = None"
    and "decode_all False g = Inr old"
    and "files (path_join [ac_root (sv_cfg s), ''state'', ''history.json'']) = Some (append_all now es g)"
  shows "\<exists>p k. handle_history s raw files = HistPage p \<and> 1 \<le> k \<and> k \<le> 500
    \<and> hp_entries p = map hist_dto (drop (length old + length es - k) (old @ map seen es))
    \<and> hp_count p = int (length (hp_entries p)) \<and> hp_count p \<le> 500"
proof -
  define k where "k = nat (history_limit raw)"
  have k: "history_limit raw = int k" "1 \<le> k" "k \<le> 500"
    using history_limit_range [of raw] by (auto simp: k_def)
  then have "read_tail (history_limit raw) False (Some (append_all now es g)) =
      Inr (drop (length old + length es - k) (old @ map seen es))"
    using ledger_roundtrip [OF assms(2-4), of k now] by simp
  with assms(1,5) k show ?thesis
    by (intro exI [of _ "\<lparr>hp_path = path_join [ac_root (sv_cfg s), ''state'', ''history.json''],
        hp_count = int (length (drop (length old + length es - k) (old @ map seen es))),
        hp_entries = map hist_dto (drop (length old + length es - k) (old @ map seen es))\<rparr>"] exI [of _ k])
      (simp add: handle_history_def Let_def)
qed

lemma history_shows_newest_witness:
  "\<exists>p. handle_history (new_server 7 demo_api) ''1'' (\<lambda>_. Some (append_all 5
     [\<lparr>h_time = 7, h_event = EvSpawn, h_version = ''v1'', h_exit = None, h_reason = []\<rparr>,
      \<lparr>h_time = 9, h_event = EvCrash, h_version = ''v1'', h_exit = Some 3, h_reason = ''x''\<rparr>]
     \<lparr>h_lines = [], h_tail = None\<rparr>)) = HistPage p \<and> hp_count p \<le> 500"
  using history_shows_newest [of "new_server 7 demo_api"
      "[\<lparr>h_time = 7, h_event = EvSpawn, h_version = ''v1'', h_exit = None, h_reason = []\<rparr>,
        \<lparr>h_time = 9, h_event = EvCrash, h_version = ''v1'', h_exit = Some 3, h_reason = ''x''\<rparr>]"
      "\<lparr>h_lines = [], h_tail = None\<rparr>" "[]" "\<lambda>_. Some (append_all 5
        [\<lparr>h_time = 7, h_event = EvSpawn, h_version = ''v1'', h_exit = None, h_reason = []\<rparr>,
         \<lparr>h_time = 9, h_event = EvCrash, h_version = ''v1'', h_exit = Some 3, h_reason = ''x''\<rparr>]
        \<lparr>h_lines = [], h_tail = None\<rparr>)" 5 "''1''"]
  by (auto simp: new_server_def demo_api_def writable_def time_is_zero_def time_encodable_def
      in_int64_def decode_all_def)

subsection \<open>Installing through the API\<close>

lemma updater_codes: "classify_updater_error e \<noteq> []" "classify_updater_error e \<noteq> ''install-failed''"
  by (cases e rule: classify_updater_error.cases; simp)+

lemma selfupdate_codes:
  "fst (classify_selfupdate_error e) \<noteq> []" "snd (classify_selfupdate_error e) \<in> {409, 500, 502}"
  by (cases e rule: classify_selfupdate_error.cases; simp)+

lemma check_signed:
  assumes "check_in w c = Inr m"
  shows "\<exists>bytes sig j. w_verify w (pub_key c) bytes sig \<and> w_unmarshal w bytes = Some j
    \<and> decode_manifest j = Some m"
  using assms
  by (auto simp: check_in_def check_def bind_eq_Some_conv split: sum.splits if_splits option.splits)
    blast

lemma install_cases:
  assumes "handle_update_install w label now s f = (rep, restart, f')"
  obtains (refused) "\<not> restart" "\<not> i_ok rep" "\<not> i_restart rep" "i_code rep \<noteq> []"
      "i_status rep \<in> {409, 500, 502, 503}"
    | (installed) c m r where "restart" "sv_updater s = Some c" "check_in w c = Inr m" "ac_root (sv_cfg s) \<noteq> []"
      "apply_update (w_untar w) (w_sha256 w) (w_download w) (w_goos w) (w_goarch w)
         \<lparr>p_root = ac_root (sv_cfg s), p_current = label, p_manifest = Some m\<rparr> now f = (Inr r, f')"
      "rep = \<lparr>i_status = 200, i_ok = True, i_version = f_version m, i_previous = label,
         i_current_after = r_after r, i_previous_after = r_previous r, i_bytes = r_bytes r,
         i_restart = True, i_code = [], i_note = NoNote\<rparr>"
proof -
  note S = selfupdate_codes and U = updater_codes(1)
  show thesis
  proof (cases "sv_updater s")
    case None
    with assms show thesis
      by (intro refused) (auto simp: handle_update_install_def install_refused_def)
  next
    case (Some c)
    show thesis
    proof (cases "ac_root (sv_cfg s) = [] \<or> \<not> ac_restart (sv_cfg s)")
      case True
      with assms Some show thesis
        by (intro refused) (auto simp: handle_update_install_def install_refused_def split: if_splits)
    next
      case False
      show thesis
      proof (cases "check_in w c")
        case (Inl e)
        with assms Some False U show thesis
          by (intro refused) (auto simp: handle_update_install_def install_refused_def)
      next
        case (Inr m)
        obtain a g where a: "apply_update (w_untar w) (w_sha256 w) (w_download w) (w_goos w) (w_goarch w)
            \<lparr>p_root = ac_root (sv_cfg s), p_current = label, p_manifest = Some m\<rparr> now f = (a, g)" by fastforce
        show thesis
        proof (cases a)
          case (Inl e)
          with assms Some False Inr a have "rep = install_refused (snd (classify_selfupdate_error e))
              (fst (classify_selfupdate_error e)) (ApplyNote e)" "\<not> restart"
            by (auto simp: handle_update_install_def)
          with S [of e] show thesis by (intro refused) (auto simp: install_refused_def)
        next
          case (Inr r)
          with assms Some False \<open>check_in w c = Inr m\<close> a show thesis
            by (intro installed [of c m r]) (auto simp: handle_update_install_def)
        qed
      qed
    qed
  qed
qed


definition demo_world :: "int world" where
  "demo_world = \<lparr>w_parse_url = (\<lambda>_. Some ''https''),
     w_verify = (\<lambda>k b s. k = 7 \<and> b = ''M'' \<and> s = ''S''),
     w_unmarshal = (\<lambda>b. if b = ''M'' then Some demo_manifest_json else None), w_net = demo_net,
     w_untar = (\<lambda>_. Some demo_archive), w_sha256 = (\<lambda>_. replicate 64 (CHR ''A'')),
     w_download = demo_http, w_goos = ''linux'', w_goarch = ''amd64''\<rparr>"

lemma demo_checked: "sv_updater (new_server 7 demo_api) = Some (new_client ''https://h/'' ''stable'' 7)"
  "check_in demo_world (new_client ''https://h/'' ''stable'' 7) = Inr demo_manifest"
proof -
  show "sv_updater (new_server 7 demo_api) = Some (new_client ''https://h/'' ''stable'' 7)"
    by (simp add: new_server_def demo_api_def default_channel_def)
  have u: "urls (\<lambda>_. Some ''https'') (new_client ''https://h/'' ''stable'' (7::int)) =
      Inr (''https://h/stable/manifest.json'', ''https://h/stable/manifest.json.minisig'')"
    by (simp add: urls_def new_client_def default_channel_def trim_right_byte_def)
  show "check_in demo_world (new_client ''https://h/'' ''stable'' 7) = Inr demo_manifest"
    unfolding check_in_def check_def
    by (simp add: demo_world_def u fetch_def demo_net_def max_manifest_bytes_def demo_manifest_decodes
        demo_manifest_valid) (simp add: demo_manifest_def new_client_def)
qed

lemma demo_installed:
  "\<exists>rep f'. handle_update_install demo_world ''v1'' (seconds 100) (new_server 7 demo_api) one_version_fs
     = (rep, True, f')"
proof -
  obtain res f' where a: "apply_update (\<lambda>_. Some demo_archive) (\<lambda>_. replicate 64 (CHR ''A'')) demo_http
    ''linux'' ''amd64'' demo_apply (seconds 100) one_version_fs = (Inr res, f')"
    using demo_apply_succeeds by blast
  have "ac_root (sv_cfg (new_server 7 demo_api)) = ''/r''" "ac_restart (sv_cfg (new_server 7 demo_api))"
    by (simp_all add: new_server_def demo_api_def)
  with a show ?thesis
    by (simp add: handle_update_install_def demo_checked) (simp add: demo_world_def demo_apply_def)
qed


text \<open>Failures after the rotation are refusals, although the new version is then current.\<close>

lemma late_failures: "classify_selfupdate_error (Marker e) = (''install-failed'', 500)"
  "classify_selfupdate_error (Rotate e') = (''install-failed'', 500)"
  by simp_all

end
