(* ===== verification/Paths.thy ===== *)
theory Paths
  imports Blacklist
begin

section \<open>Paths given by their elements\<close>

text \<open>
  \<open>abs_path\<close> and \<open>rel_path\<close> spell a path out of plain names; the lemmas compute
  \<^verbatim>\<open>filepath.Clean\<close>, \<^verbatim>\<open>Join\<close> and \<^verbatim>\<open>Dir\<close> of such paths, for arbitrary names.
\<close>

definition abs_path :: "string list \<Rightarrow> string" where
  \<comment> \<open>the absolute path with the given elements\<close>
  "abs_path es = CHR ''/'' # join_with ''/'' es"

lemma clean_steps_plain:
  "list_all plain_name es \<Longrightarrow> foldl (clean_step r) st es = rev es @ st"
  by (induction es arbitrary: st) (auto simp: clean_step_def plain_name_def)

lemma split_plain:
  assumes "list_all plain_name es" "es \<noteq> []"
  shows "split_on (CHR ''/'') (join_with ''/'' es) = es"
  using assms by (intro split_on_join) (auto simp: list_all_iff plain_name_def)

lemma clean_elems_abs: "list_all plain_name es \<Longrightarrow> clean_elems (abs_path es) = es"
proof (cases "es = []")
  case True
  then show ?thesis by (simp add: abs_path_def clean_elems_def clean_step_def)
next
  case False
  assume p: "list_all plain_name es"
  have s: "split_on (CHR ''/'') (abs_path es) = [] # es"
    using split_plain [OF p False] by (simp add: abs_path_def)
  show ?thesis
    unfolding clean_elems_def s using clean_steps_plain [OF p] by (simp add: clean_step_def)
qed

lemma clean_abs_path: "is_abs p \<Longrightarrow> clean p = abs_path (clean_elems p)"
  by (simp add: clean_def abs_path_def Let_def)

lemma is_abs_path [simp]: "is_abs (abs_path es)" "abs_path es \<noteq> []"
  by (simp_all add: is_abs_def abs_path_def)

lemma clean_elems_parent:
  assumes "is_abs r"
  shows "clean_elems (r @ ''/..'') = (case rev (clean_elems r) of [] \<Rightarrow> [] | x # xs \<Rightarrow> if x = ''..'' then clean_elems r else rev xs)"
proof -
  have "is_abs (r @ ''/..'')" using assms by (auto simp: is_abs_def)
  moreover have "split_on (CHR ''/'') (r @ ''/..'') = split_on (CHR ''/'') r @ [''..'']"
    using split_on_snoc_name [of "''..''" r] by simp
  ultimately show ?thesis
    using assms by (auto simp: clean_elems_def clean_step_def hd_conv_nth split: list.split)
qed

lemma join_abs_path:
  assumes "list_all plain_name es" "plain_name n"
  shows "path_join [abs_path es, n] = abs_path (es @ [n])"
proof -
  have n: "n \<noteq> []" using assms(2) by (simp add: plain_name_def)
  have a: "is_abs (abs_path es @ CHR ''/'' # n)" by (simp add: is_abs_def abs_path_def)
  show ?thesis
    unfolding path_join_two [OF is_abs_path(2) n] clean_abs_path [OF a]
      clean_elems_snoc [OF assms(2) is_abs_path(2)] clean_elems_abs [OF assms(1)] ..
qed

lemma join_abs_path2:
  assumes "list_all plain_name es" "plain_name m" "plain_name n"
  shows "path_join [abs_path es, m, n] = abs_path (es @ [m, n])"
proof -
  have "m \<noteq> []" "n \<noteq> []" using assms by (simp_all add: plain_name_def)
  then have "path_join [abs_path es, m, n] = clean (abs_path es @ CHR ''/'' # m @ CHR ''/'' # n)"
    by (simp add: path_join_def)
  also have "\<dots> = path_join [abs_path es @ CHR ''/'' # m, n]"
    using \<open>n \<noteq> []\<close> by (simp add: path_join_two)
  also have "\<dots> = abs_path (clean_elems ((abs_path es @ CHR ''/'' # m) @ CHR ''/'' # n))"
    using \<open>n \<noteq> []\<close> by (subst path_join_two) (simp_all add: clean_abs_path is_abs_def abs_path_def)
  also have "\<dots> = abs_path (es @ [m, n])"
    using clean_elems_snoc [OF assms(3), of "abs_path es @ CHR ''/'' # m"]
      clean_elems_snoc [OF assms(2) is_abs_path(2), of es] clean_elems_abs [OF assms(1)] by simp
  finally show ?thesis .
qed

lemma abs_path_snoc: "abs_path (es @ [n]) = (if es = [] then [] else abs_path es) @ CHR ''/'' # n"
proof (induction es)
  case (Cons x xs)
  then show ?case by (cases xs) (auto simp: abs_path_def)
qed (simp add: abs_path_def)

lemma dir_of_snoc:
  assumes "CHR ''/'' \<notin> set n"
  shows "dir_of (r @ CHR ''/'' # n) = clean (r @ ''/'')"
proof -
  have "dropWhile (\<lambda>c. c \<noteq> CHR ''/'') (rev (r @ CHR ''/'' # n)) = CHR ''/'' # rev r"
    using assms by (subst rev_append, subst rev.simps, subst append_assoc, subst dropWhile_append2) auto
  then show ?thesis by (simp add: dir_of_def)
qed

lemma clean_elems_slash: "is_abs r \<Longrightarrow> clean_elems (r @ ''/'') = clean_elems r"
  using split_on_snoc_name [of "[]" r]
  by (cases r) (auto simp: clean_elems_def clean_step_def is_abs_def)

lemma dir_of_abs_path:
  assumes "list_all plain_name es" "plain_name n"
  shows "dir_of (abs_path (es @ [n])) = abs_path es"
proof -
  have n: "CHR ''/'' \<notin> set n" using assms(2) by (simp add: plain_name_def)
  show ?thesis
  proof (cases "es = []")
    case True
    have "clean ''/'' = ''/''" by code_simp
    then show ?thesis using True dir_of_snoc [OF n, of "[]"] by (simp add: abs_path_def)
  next
    case False
    have "is_abs (abs_path es @ ''/'')" by (simp add: is_abs_def abs_path_def)
    then have "clean (abs_path es @ ''/'') = abs_path es"
      using clean_elems_slash [OF is_abs_path(1)] clean_elems_abs [OF assms(1)] clean_abs_path by simp
    then show ?thesis using False dir_of_snoc [OF n] by (simp add: abs_path_snoc)
  qed
qed

lemma grandparent:
  assumes "list_all plain_name es" "plain_name m" "plain_name n"
  shows "clean (path_join [abs_path (es @ [m, n]), ''..'', ''..'']) = abs_path es"
proof -
  let ?p = "abs_path (es @ [m, n])"
  have pl: "list_all plain_name (es @ [m, n])" "m \<noteq> ''..''" "n \<noteq> ''..''"
    using assms by (simp_all add: plain_name_def)
  have a: "is_abs (?p @ ''/..'')" "is_abs ((?p @ ''/..'') @ ''/..'')" by (simp_all add: is_abs_def abs_path_def)
  have 1: "clean_elems (?p @ ''/..'') = es @ [m]"
    using clean_elems_parent [OF is_abs_path(1), of "es @ [m, n]"] clean_elems_abs [OF pl(1)] pl by simp
  have 2: "clean_elems ((?p @ ''/..'') @ ''/..'') = es"
    using clean_elems_parent [OF a(1)] 1 pl by simp
  have "path_join [?p, ''..'', ''..''] = clean ((?p @ ''/..'') @ ''/..'')" by (simp add: path_join_def)
  also have "\<dots> = abs_path es" using clean_abs_path [OF a(2)] 2 by simp
  finally have "clean (path_join [?p, ''..'', ''..'']) = clean (abs_path es)" by simp
  then show ?thesis using clean_abs_path [OF is_abs_path(1)] clean_elems_abs [OF assms(1)] by simp
qed

subsection \<open>Relative paths\<close>

definition rel_path :: "string list \<Rightarrow> string" where
  "rel_path es = join_with ''/'' es"

lemma rel_path_snoc: "rel_path (es @ [n]) = (if es = [] then n else rel_path es @ CHR ''/'' # n)"
proof (induction es)
  case (Cons x xs)
  then show ?case by (cases xs) (auto simp: rel_path_def)
qed (simp add: rel_path_def)

lemma rel_path_not_abs:
  assumes "list_all plain_name es"
  shows "\<not> is_abs (rel_path es)"
proof (cases es)
  case (Cons x xs)
  with assms have "x \<noteq> []" "CHR ''/'' \<notin> set x" by (auto simp: plain_name_def)
  with Cons show ?thesis by (cases x; cases xs) (auto simp: rel_path_def is_abs_def)
qed (simp add: rel_path_def is_abs_def)

lemma rel_path_ne:
  assumes "list_all plain_name es" "es \<noteq> []"
  shows "rel_path es \<noteq> []"
  using assms by (cases es rule: list.exhaust; cases "tl es") (auto simp: rel_path_def plain_name_def)

lemma clean_rel_path:
  assumes "list_all plain_name es" "es \<noteq> []"
  shows "clean (rel_path es) = rel_path es" "split_on (CHR ''/'') (rel_path es) = es"
proof -
  show s: "split_on (CHR ''/'') (rel_path es) = es" using split_plain [OF assms] by (simp add: rel_path_def)
  have e: "clean_elems (rel_path es) = es" unfolding clean_elems_def s using clean_steps_plain [OF assms(1)] by simp
  show "clean (rel_path es) = rel_path es"
    unfolding clean_def e Let_def rel_path_def [symmetric]
    using rel_path_not_abs [OF assms(1)] rel_path_ne [OF assms] by simp
qed

end
