(* ===== verification/Worker.thy ===== *)
theory Worker
  imports Api Poller SupConfig Paths
begin

section \<open>The worker process (cmd/clawmast: main.go, run.go)\<close>

text \<open>
  \<open>run_worker\<close> is \<^verbatim>\<open>runWorker\<close>: it boots the API server on the shared file system, reports READY,
  waits for the first of four events and tells the supervisor through its exit status why it
  ended. \<open>process\<close> holds what the process finds: environment variables (empty when unset), its
  executable, the notify socket, the results of third-party and system calls. The result names
  the datagrams sent, in order.
\<close>

definition env_or :: "(string \<Rightarrow> string) \<Rightarrow> string \<Rightarrow> string \<Rightarrow> string" where
  "env_or env key fallback = (if env key \<noteq> [] then env key else fallback)"

definition env_truthy :: "string \<Rightarrow> bool" where
  "env_truthy v \<longleftrightarrow> to_lower (trim_space v) \<in> {''1'', ''true'', ''yes'', ''on''}"

definition autoheal_from_env :: "(string \<Rightarrow> duration option) \<Rightarrow> (string \<Rightarrow> string) \<Rightarrow> autoheal_config option" where
  \<comment> \<open>the policy \<^verbatim>\<open>applyAutoheal\<close> passes to \<^verbatim>\<open>WithAutoheal\<close>, \<open>None\<close> when it is off; the trigger is
    the cascade\<close>
  "autoheal_from_env pd env =
     (if \<not> env_truthy (env ''CLAWMAST_OPENCLAW_AUTOHEAL'') then None
      else let t = env ''CLAWMAST_OPENCLAW_AUTOHEAL_THRESHOLD'';
               d = env ''CLAWMAST_OPENCLAW_AUTOHEAL_COOLDOWN''
           in Some \<lparr>ah_enabled = True,
                ah_threshold = (if t = [] then 0 else
                   case parse_int t of Some n \<Rightarrow> if n > 0 then n else 0 | None \<Rightarrow> 0),
                ah_cooldown = (if d = [] then 0 else case pd d of Some x \<Rightarrow> if x > 0 then x else 0 | None \<Rightarrow> 0),
                ah_trigger = True\<rparr>)"

definition boot_manager :: "(string \<Rightarrow> duration option) \<Rightarrow> (string \<Rightarrow> string) \<Rightarrow> manager" where
  \<comment> \<open>\<^verbatim>\<open>NewManager\<close> and \<^verbatim>\<open>applyAutoheal\<close>\<close>
  "boot_manager pd env =
     new_manager (case autoheal_from_env pd env of
       None \<Rightarrow> \<lparr>ah_enabled = False, ah_threshold = 0, ah_cooldown = 0, ah_trigger = False\<rparr>
     | Some c \<Rightarrow> with_autoheal c)"

text \<open>A misspelt override never turns the policy off or makes it fire at once.\<close>

lemma autoheal_from_env_sane:
  assumes "env_truthy (env ''CLAWMAST_OPENCLAW_AUTOHEAL'')"
  shows "ah_enabled (g_autoheal (boot_manager pd env))" "1 \<le> ah_threshold (g_autoheal (boot_manager pd env))"
    "1 \<le> ah_cooldown (g_autoheal (boot_manager pd env))"
  using assms
  by (auto simp: boot_manager_def autoheal_from_env_def new_manager_def with_autoheal_def Let_def
      split: option.split)

subsection \<open>Where the state lives\<close>

definition os_is_dir :: "string \<Rightarrow> fsys \<Rightarrow> bool \<times> fsys" where
  \<comment> \<open>\<^verbatim>\<open>os.Stat\<close> finds a directory; links are not followed here\<close>
  "os_is_dir p f =
     (case guarded (\<lambda>f. (Inr (nodes f p = Some Dir), f)) f of (Inl _, f) \<Rightarrow> (False, f) | (Inr b, f) \<Rightarrow> (b, f))"

definition resolve_install_root ::
  "(string \<Rightarrow> string) \<Rightarrow> string option \<Rightarrow> (string \<Rightarrow> string option) \<Rightarrow> fsys \<Rightarrow> string \<times> fsys" where
  \<comment> \<open>of the environment, \<^verbatim>\<open>os.Executable\<close> and \<^verbatim>\<open>filepath.EvalSymlinks\<close>\<close>
  "resolve_install_root env exe eval f =
     (if env ''CLAWMAST_INSTALL_ROOT'' \<noteq> [] then (env ''CLAWMAST_INSTALL_ROOT'', f)
      else case exe of
        None \<Rightarrow> ([], f)
      | Some e \<Rightarrow>
          (let e = (case eval e of Some r \<Rightarrow> r | None \<Rightarrow> e);
               root = clean (path_join [dir_of e, ''..'', ''..''])
           in case os_is_dir (path_join [root, ''state'']) f of
                (False, f) \<Rightarrow> ([], f)
              | (True, f) \<Rightarrow>
                  (case os_is_dir (path_join [root, ''versions'']) f of
                     (False, f) \<Rightarrow> ([], f) | (True, f) \<Rightarrow> (root, f))))"

definition resolve_state_dir :: "string \<Rightarrow> string option \<Rightarrow> string" where
  \<comment> \<open>of the install root and the home directory\<close>
  "resolve_state_dir root home =
     (if root \<noteq> [] then path_join [root, ''state'']
      else case home of None \<Rightarrow> [] | Some h \<Rightarrow> if h = [] then [] else path_join [h, ''.clawmast'', ''state''])"

subsection \<open>The run loop\<close>

datatype sd_open = SdOpen | SdNotSupervised | SdUnsupported | SdFails

datatype wake = WakeCancelled | WakeRollback | WakeRestart | WakeHttp "string option"

record 'k process =
  wk_env :: "string \<Rightarrow> string"
  wk_exe :: "string option"
  wk_eval :: "string \<Rightarrow> string option"
  wk_home :: "string option"
  wk_pid :: int
  wk_sd :: sd_open
  wk_parse_key :: "string \<Rightarrow> 'k option"
  wk_dev_key :: 'k
  wk_random :: "string option"
  wk_render :: "json \<Rightarrow> string"
  wk_ready :: bool           \<comment> \<open>the READY datagram is sent\<close>
  wk_stopping :: bool        \<comment> \<open>the STOPPING datagram is sent\<close>
  wk_wake :: wake

datatype worker_error = SdOpenError | PidMismatch | KeyRead os_error | KeyParse
  | TokenError auth_error | ReadyError | ServeError string | ExitWith int string

record 'k worker_run =
  wr_error :: "worker_error option"
  wr_frames :: "string list"       \<comment> \<open>what is sent before the heartbeat starts and after it\<close>
  wr_beat :: "duration option"     \<comment> \<open>the interval of the heartbeat goroutine\<close>
  wr_server :: "'k server option"
  wr_token :: "token option"

definition load_update_pub_key :: "'k process \<Rightarrow> string \<Rightarrow> fsys \<Rightarrow> (worker_error + 'k option) \<times> fsys" where
  "load_update_pub_key w path f =
     (if path = [] then (Inr None, f)
      else case os_read_file path f of
        (Inl e, f) \<Rightarrow> (Inl (KeyRead e), f)
      | (Inr c, f) \<Rightarrow>
          (case wk_parse_key w (raw_bytes (wk_render w) c) of
             None \<Rightarrow> (Inl KeyParse, f) | Some k \<Rightarrow> (Inr (Some k), f)))"

definition boot_server :: "'k process \<Rightarrow> string \<Rightarrow> fsys \<Rightarrow> (worker_error + 'k server \<times> token) \<times> fsys" where
  \<comment> \<open>the body of \<^verbatim>\<open>if httpAddr != "off"\<close>; the second argument is the install root\<close>
  "boot_server w root f =
     (case load_update_pub_key w (wk_env w ''CLAWMAST_UPDATE_PUBKEY_FILE'') f of
        (Inl e, f) \<Rightarrow> (Inl e, f)
      | (Inr key, f) \<Rightarrow>
     (let dir = resolve_state_dir root (wk_home w)
      in case load_or_create_token (wk_render w) (wk_env w ''CLAWMAST_BEARER_TOKEN'') dir (wk_random w) f of
        (Inl e, f) \<Rightarrow> (Inl (TokenError e), f)
      | (Inr tok, f) \<Rightarrow>
     (case resolve_channel (wk_render w) dir (wk_env w ''CLAWMAST_UPDATE_CHANNEL'') channel_stable f of
        ((ch, _), f) \<Rightarrow>
          (Inr (new_server (wk_dev_key w)
             \<lparr>ac_addr = env_or (wk_env w) ''CLAWMAST_HTTP_ADDR'' default_addr, ac_root = root, ac_state = dir,
              ac_channel = ch, ac_base_url = env_or (wk_env w) ''CLAWMAST_UPDATE_URL'' [], ac_key = key,
              ac_supervisor = wk_env w ''CLAWMAST_SUPERVISOR_VERSION'', ac_rollback = True,
              ac_restart = True, ac_interval = seconds 21600, ac_first = seconds 60\<rparr>, tok), f))))"

definition supervised :: "'k process \<Rightarrow> bool" where
  "supervised w \<longleftrightarrow> wk_sd w = SdOpen"

definition after_wake :: "'k process \<Rightarrow> 'k worker_run \<Rightarrow> 'k worker_run" where
  \<comment> \<open>from the select on\<close>
  "after_wake w r =
     (case wk_wake w of
        WakeHttp (Some e) \<Rightarrow> r\<lparr>wr_error := Some (ServeError e)\<rparr>
      | wake \<Rightarrow>
          (let r = (if supervised w \<and> wk_stopping w then r\<lparr>wr_frames := wr_frames r @ [''STOPPING=1'']\<rparr> else r)
           in if wake = WakeRollback
              then r\<lparr>wr_error := Some (ExitWith 65 ''blacklisted-current-version'')\<rparr> else r))"

definition run_worker :: "'k process \<Rightarrow> fsys \<Rightarrow> 'k worker_run \<times> fsys" where
  "run_worker w f =
     (let r = \<lparr>wr_error = None, wr_frames = [], wr_beat = None, wr_server = None, wr_token = None\<rparr>
      in if wk_sd w = SdFails then (r\<lparr>wr_error := Some SdOpenError\<rparr>, f)
         else if supervised w \<and> \<not> watchdog_pid_matches (wk_env w ''WATCHDOG_PID'') (wk_pid w)
         then (r\<lparr>wr_error := Some PidMismatch\<rparr>, f)
         else
      (let addr = env_or (wk_env w) ''CLAWMAST_HTTP_ADDR'' default_addr;
           (root, f) = resolve_install_root (wk_env w) (wk_exe w) (wk_eval w) f;
           (boot, f) = (if addr \<noteq> ''off''
              then (case boot_server w root f of
                      (Inl e, f) \<Rightarrow> (Inl e, f)
                    | (Inr (s, t), f) \<Rightarrow> (Inr (r\<lparr>wr_server := Some s, wr_token := Some t\<rparr>), f))
              else (Inr r, f))
       in case boot of
            Inl e \<Rightarrow> (r\<lparr>wr_error := Some e\<rparr>, f)
          | Inr r \<Rightarrow>
              if supervised w \<and> \<not> wk_ready w then (r\<lparr>wr_error := Some ReadyError\<rparr>, f)
              else (after_wake w
                (if supervised w
                 then r\<lparr>wr_frames := [''READY=1''], wr_beat := watchdog_interval (wk_env w ''WATCHDOG_USEC'')\<rparr>
                 else r), f)))"

datatype beat = BeatDone | BeatTick bool   \<comment> \<open>cancelled; the ticker, and whether the datagram is sent\<close>

fun heartbeat :: "beat list \<Rightarrow> string list" where
  "heartbeat [] = []"
| "heartbeat (BeatDone # bs) = []"
| "heartbeat (BeatTick True # bs) = ''WATCHDOG=1'' # heartbeat bs"
| "heartbeat (BeatTick False # bs) = []"

subsection \<open>The exit status\<close>

definition worker_exit :: "worker_error option \<Rightarrow> int" where
  "worker_exit r = (case r of None \<Rightarrow> 0 | Some (ExitWith n _) \<Rightarrow> n | Some _ \<Rightarrow> 1)"

datatype command = PrintVersion | PrintUsage | RunStatus | RunDoctor | RunLogs | RunOpen | RunWorker

definition dispatch :: "string list \<Rightarrow> command" where
  \<comment> \<open>of the arguments after the program's name\<close>
  "dispatch args =
     (case args of
        [] \<Rightarrow> RunWorker
      | a # _ \<Rightarrow>
          if a \<in> {''version'', ''-v'', ''--version''} then PrintVersion
          else if a \<in> {''help'', ''-h'', ''--help''} then PrintUsage
          else if a = ''status'' then RunStatus
          else if a = ''doctor'' then RunDoctor
          else if a = ''logs'' then RunLogs
          else if a = ''open'' then RunOpen
          else RunWorker)"

text \<open>
  The reserved status 65 is used for nothing else: the worker exits with it exactly when it
  was serving and the rollback hook fired; it never exits with 64.
\<close>

lemma after_wake_exit:
  "worker_exit (wr_error (after_wake w r)) =
     (case wk_wake w of WakeHttp (Some _) \<Rightarrow> 1 | WakeRollback \<Rightarrow> 65 | _ \<Rightarrow> worker_exit (wr_error r))"
  by (auto simp: after_wake_def worker_exit_def Let_def split: wake.split option.split)

lemma boot_error_kind:
  assumes "boot_server w root f = (Inl e, f')"
  shows "\<not> (\<exists>n m. e = ExitWith n m)"
  using assms
  by (auto simp: boot_server_def load_update_pub_key_def Let_def
      split: if_splits sum.splits prod.splits option.splits)

lemma run_worker_exit:
  assumes "run_worker w f = (r, f')"
  shows "worker_exit (wr_error r) \<in> {0, 1, 65}"
    and "worker_exit (wr_error r) = 65 \<Longrightarrow> wk_wake w = WakeRollback"
    and "worker_exit (wr_error r) = 0 \<Longrightarrow> wk_wake w \<in> {WakeCancelled, WakeRestart, WakeHttp None}"
proof -
  have clean: "worker_exit None = 0" by (simp add: worker_exit_def)
  have "worker_exit (wr_error r) = 1 \<or> (\<exists>r0. r = after_wake w r0 \<and> wr_error r0 = None)"
    using assms
    by (auto simp: run_worker_def Let_def worker_exit_def dest!: boot_error_kind
        split: if_splits prod.splits sum.splits worker_error.splits)
  then show "worker_exit (wr_error r) \<in> {0, 1, 65}"
    "worker_exit (wr_error r) = 65 \<Longrightarrow> wk_wake w = WakeRollback"
    "worker_exit (wr_error r) = 0 \<Longrightarrow> wk_wake w \<in> {WakeCancelled, WakeRestart, WakeHttp None}"
    using clean by (auto simp: after_wake_exit split: wake.splits option.splits)
qed

subsection \<open>Worker and supervisor share their files\<close>

lemma is_dir_clean: "faults f = [] \<Longrightarrow> nodes f p = Some Dir \<Longrightarrow> os_is_dir p f = (True, f)"
  by (simp add: os_is_dir_def guarded_def faulty_def Let_def)

lemma new_server_root: "ac_root (sv_cfg (new_server d cfg)) = ac_root cfg"
  by (simp add: new_server_def Let_def)

lemma run_worker_root:
  assumes "run_worker w f = (r, f')" "wr_server r = Some s"
  shows "ac_root (sv_cfg s) = fst (resolve_install_root (wk_env w) (wk_exe w) (wk_eval w) f)"
proof -
  have b: "ac_root (sv_cfg s0) = root" if "boot_server w root g = (Inr (s0, t), g')" for root g s0 t g'
    using that unfolding boot_server_def Let_def
    by (clarsimp simp: new_server_root split: sum.split_asm prod.split_asm)
  have k: "wr_server (after_wake w r0) = wr_server r0" for r0
    by (auto simp: after_wake_def Let_def split: wake.split option.split)
  from assms show ?thesis
    by (auto simp: run_worker_def Let_def k dest: b split: if_splits prod.splits sum.splits)
qed

definition spawned_env :: "config \<Rightarrow> string \<Rightarrow> string list \<Rightarrow> string \<Rightarrow> string" where
  \<comment> \<open>\<^verbatim>\<open>os.Getenv\<close> in a worker the supervisor started\<close>
  "spawned_env c v environ k = (case env_lookup (SupConfig.worker_env c v environ) k of Some x \<Rightarrow> x | None \<Rightarrow> [])"

text \<open>
  C28: worker and supervisor talk about the same things. A worker started from its place in the
  install tree, without an override, finds the root of its supervisor: its API reads and writes
  the very blacklist and history the supervisor uses, and the version it calls its own is the
  label the supervisor looks up before a spawn.
\<close>
theorem worker_shares_state:
  assumes "with_defaults c = Inr c'" and "c_root c = abs_path es" and "c_blacklist c = []"
    and "c_history c = []" and "list_all plain_name es" and "plain_name v"
    and "wk_env w = spawned_env c' v environ" and "wk_env w ''CLAWMAST_INSTALL_ROOT'' = []"
    and "wk_exe w = Some exe" and "wk_eval w exe = Some (abs_path (es @ [''versions'', v, ''clawmast'']))"
    and "faults f = []" and "nodes f (abs_path (es @ [''state''])) = Some Dir"
    and "nodes f (abs_path (es @ [''versions''])) = Some Dir"
    and "run_worker w f = (r, f')" and "wr_server r = Some s"
  shows "api_blacklist_path s = Some (c_blacklist c')
    \<and> path_join [ac_root (sv_cfg s), ''state'', ''history.json''] = c_history c'
    \<and> current_version_label (wk_env w ''CLAWMAST_VERSION_LABEL'') compiled = v"
proof -
  have pl: "plain_name ''state''" "plain_name ''versions''" "plain_name ''clawmast''" by (simp_all add: plain_name_def)
  have d: "dir_of (abs_path (es @ [''versions'', v, ''clawmast''])) = abs_path (es @ [''versions'', v])"
    using dir_of_abs_path [of "es @ [''versions'', v]"] assms(5,6) pl by simp
  have "resolve_install_root (wk_env w) (wk_exe w) (wk_eval w) f = (abs_path es, f)"
    using assms(8-13) d grandparent [OF assms(5) pl(2) assms(6)]
      join_abs_path [OF assms(5) pl(1)] join_abs_path [OF assms(5) pl(2)]
    by (simp add: resolve_install_root_def Let_def is_dir_clean)
  then have root: "ac_root (sv_cfg s) = abs_path es" using run_worker_root [OF assms(14,15)] by simp
  let ?o = "default_paths (default_scalars c)"
  have "c_blacklist c' = c_blacklist ?o \<and> c_history c' = c_history ?o"
    using assms(1) by (auto simp: with_defaults_def Let_def split: if_splits)
  moreover have "c_blacklist ?o = path_join [abs_path es, ''state'', ''blacklist.json'']"
    "c_history ?o = path_join [abs_path es, ''state'', ''history.json'']"
    unfolding default_paths_def default_scalars_def by (simp_all add: assms(2-4))
  moreover have "wk_env w ''CLAWMAST_VERSION_LABEL'' = v"
    using assms(7) worker_env_lookup(3) by (simp add: spawned_env_def)
  moreover have "v \<noteq> []" using assms(6) by (simp add: plain_name_def)
  ultimately show ?thesis using root by (simp add: api_blacklist_path_def current_version_label_def)
qed

lemma spawned_env_other:
  assumes "k \<notin> {''NOTIFY_SOCKET'', ''WATCHDOG_USEC'', ''CLAWMAST_VERSION_LABEL''}"
  shows "spawned_env c v [] k = (case env_lookup (c_env c) k of Some x \<Rightarrow> x | None \<Rightarrow> [])"
proof -
  have "cut_on (CHR ''='') (''NOTIFY_SOCKET='' @ x) = Some (''NOTIFY_SOCKET'', x)"
    "cut_on (CHR ''='') (''WATCHDOG_USEC='' @ x) = Some (''WATCHDOG_USEC'', x)"
    "cut_on (CHR ''='') (''CLAWMAST_VERSION_LABEL='' @ x) = Some (''CLAWMAST_VERSION_LABEL'', x)" for x
    using cut_on_append [of "CHR ''=''" "''NOTIFY_SOCKET''" x]
      cut_on_append [of "CHR ''=''" "''WATCHDOG_USEC''" x]
      cut_on_append [of "CHR ''=''" "''CLAWMAST_VERSION_LABEL''" x] by simp_all
  moreover have "''NOTIFY_SOCKET'' \<noteq> k" "''WATCHDOG_USEC'' \<noteq> k" "''CLAWMAST_VERSION_LABEL'' \<noteq> k"
    using assms by auto
  ultimately show ?thesis
    by (simp add: spawned_env_def SupConfig.worker_env_def env_lookup_append)
qed

definition demo_tree :: fsys where
  "demo_tree = \<lparr>nodes = [''/r/state'' \<mapsto> Dir, ''/r/versions'' \<mapsto> Dir], faults = []\<rparr>"

definition demo_process :: "config \<Rightarrow> int process" where
  "demo_process c = \<lparr>wk_env = spawned_env c ''v1'' [], wk_exe = Some ''/proc/self/exe'',
     wk_eval = (\<lambda>_. Some ''/r/versions/v1/clawmast''), wk_home = None, wk_pid = 5, wk_sd = SdOpen,
     wk_parse_key = (\<lambda>_. None), wk_dev_key = 7, wk_random = Some ''01234567'', wk_render = (\<lambda>_. []),
     wk_ready = True, wk_stopping = True, wk_wake = WakeRollback\<rparr>"

lemma demo_tree_paths:
  "path_join [''/r/state'', ''token''] = ''/r/state/token''"
  "path_join [''/r/state'', ''channel''] = ''/r/state/channel''"
  "path_join [''/r'', ''state''] = ''/r/state''" "path_join [''/r'', ''versions''] = ''/r/versions''"
  "clean (path_join [dir_of ''/r/versions/v1/clawmast'', ''..'', ''..'']) = ''/r''"
  by code_simp+

lemma demo_boots:
  assumes "c_env c = [''WATCHDOG_USEC=7'']"
  shows "\<exists>r f' s. run_worker (demo_process c) demo_tree = (r, f') \<and> wr_server r = Some s"
proof -
  let ?w = "demo_process c"
  have e: "wk_env ?w k = []"
    if "k \<notin> {''NOTIFY_SOCKET'', ''WATCHDOG_USEC'', ''CLAWMAST_VERSION_LABEL''}" for k
    using spawned_env_other [OF that, of c "''v1''"] assms that
    by (auto simp: demo_process_def cut_on_def)
  have root: "resolve_install_root (wk_env ?w) (wk_exe ?w) (wk_eval ?w) demo_tree = (''/r'', demo_tree)"
    using e [of "''CLAWMAST_INSTALL_ROOT''"]
    by (simp add: resolve_install_root_def Let_def demo_tree_paths is_dir_clean demo_process_def demo_tree_def)
  have "\<exists>b g. boot_server ?w ''/r'' demo_tree = (Inr b, g)"
    using e [of "''CLAWMAST_UPDATE_PUBKEY_FILE''"] e [of "''CLAWMAST_BEARER_TOKEN''"]
      e [of "''CLAWMAST_UPDATE_CHANNEL''"]
    by (simp add: boot_server_def load_update_pub_key_def load_or_create_token_def create_token_def
        resolve_state_dir_def demo_tree_paths demo_process_def Let_def os_defs demo_tree_def
        split: prod.split)
  then obtain s tk g where b: "boot_server ?w ''/r'' demo_tree = (Inr (s, tk), g)" by auto
  have a: "env_or (wk_env ?w) ''CLAWMAST_HTTP_ADDR'' default_addr = default_addr" "default_addr \<noteq> ''off''"
    using e [of "''CLAWMAST_HTTP_ADDR''"] by (simp_all add: env_or_def default_addr_def)
  have p: "watchdog_pid_matches (wk_env ?w ''WATCHDOG_PID'') (wk_pid ?w)"
    using e [of "''WATCHDOG_PID''"] by (simp add: watchdog_pid_matches_def)
  have k: "wr_server (after_wake ?w r0) = wr_server r0" for r0
    by (auto simp: after_wake_def Let_def split: wake.split option.split)
  have sd: "wk_sd ?w = SdOpen" "wk_ready ?w" by (simp_all add: demo_process_def)
  show ?thesis using a p sd by (simp add: run_worker_def Let_def root b k supervised_def)
qed

lemma worker_shares_state_witness:
  "\<exists>c r f' s. with_defaults plain_config = Inr c \<and> run_worker (demo_process c) demo_tree = (r, f')
     \<and> wr_server r = Some s \<and> api_blacklist_path s = Some (c_blacklist c)"
proof -
  obtain c where c: "with_defaults plain_config = Inr c"
    by (simp add: with_defaults_def plain_config_def default_scalars_def default_paths_def
        path_join_root_ne Let_def)
  have e: "c_env c = [''WATCHDOG_USEC=7'']"
  proof -
    have "c_env c = c_env (default_paths (default_scalars plain_config))"
      using c by (auto simp: with_defaults_def Let_def split: if_splits)
    also have "\<dots> = c_env plain_config" by (simp add: default_paths_def default_scalars_def)
    finally show ?thesis by (simp add: plain_config_def)
  qed
  obtain r f' s where r: "run_worker (demo_process c) demo_tree = (r, f')" "wr_server r = Some s"
    using demo_boots [OF e] by blast
  have p: "abs_path [''r''] = ''/r''" "abs_path ([''r''] @ [''state'']) = ''/r/state''"
    "abs_path ([''r''] @ [''versions'']) = ''/r/versions''"
    "abs_path ([''r''] @ [''versions'', ''v1'', ''clawmast'']) = ''/r/versions/v1/clawmast''"
    by (simp_all add: abs_path_def)
  have i: "spawned_env c ''v1'' [] ''CLAWMAST_INSTALL_ROOT'' = []"
    using e by (simp add: spawned_env_other cut_on_def)
  have "api_blacklist_path s = Some (c_blacklist c)"
    using worker_shares_state [of plain_config c "[''r'']" "''v1''" "demo_process c" "[]" "''/proc/self/exe''"
        demo_tree r f' s, OF c] r i unfolding p
    by (simp add: plain_config_def plain_name_def demo_process_def demo_tree_def)
  with c r show ?thesis by blast
qed

end
