(* ===== verification/Daemon.thy ===== *)
theory Daemon
  imports Supervisor Auth
begin

section \<open>The supervisor's command (cmd/clawmastd, internal/supervisor: New, Run)\<close>

text \<open>
  From the command line to the exit status. \<open>flag_parse\<close> is \<^verbatim>\<open>FlagSet.Parse\<close> for flags with a
  value; \<open>run_supervisor\<close> is \<^verbatim>\<open>Supervisor.Run\<close> around \<open>run_loop\<close>; \<open>daemon_main\<close> is \<^verbatim>\<open>main\<close>. An environment
  variable is a string, empty when unset; \<^verbatim>\<open>time.ParseDuration\<close> is the argument \<open>pd\<close>.
\<close>

subsection \<open>Flags (package flag)\<close>

datatype flag_error = BadSyntax string | HelpWanted | NotDefined string | NeedsArgument string

fun flag_parse :: "string list \<Rightarrow> (string \<times> string) list \<Rightarrow> string list \<Rightarrow> flag_error + (string \<times> string) list" where
  \<comment> \<open>of the names, the values set so far and the arguments; a later flag wins\<close>
  "flag_parse names acc [] = Inr acc"
| "flag_parse names acc (s # args) =
     (if length s < 2 \<or> hd s \<noteq> CHR ''-'' then Inr acc
      else if s = ''--'' then Inr acc
      else let body = (if prefix ''--'' s then drop 2 s else tl s)
           in if body = [] \<or> hd body = CHR ''-'' \<or> hd body = CHR ''='' then Inl (BadSyntax s)
              else let name = hd body # takeWhile (\<lambda>c. c \<noteq> CHR ''='') (tl body);
                       rest = dropWhile (\<lambda>c. c \<noteq> CHR ''='') (tl body)
                   in if name \<notin> set names
                      then Inl (if name = ''help'' \<or> name = ''h'' then HelpWanted else NotDefined name)
                      else if rest \<noteq> [] then flag_parse names ((name, tl rest) # acc) args
                      else (case args of
                              [] \<Rightarrow> Inl (NeedsArgument name)
                            | v # args' \<Rightarrow> flag_parse names ((name, v) # acc) args'))"

definition flag_value :: "(string \<times> string) list \<Rightarrow> string \<Rightarrow> string \<Rightarrow> string" where
  \<comment> \<open>with the default\<close>
  "flag_value vals name dflt = (case map_of vals name of None \<Rightarrow> dflt | Some v \<Rightarrow> v)"

datatype log_level = LevelDebug | LevelInfo | LevelWarn | LevelError

definition parse_log_level :: "string \<Rightarrow> log_level option" where
  "parse_log_level s =
     (let l = to_lower (trim_space s)
      in if l = ''debug'' then Some LevelDebug
         else if l = ''info'' \<or> l = [] then Some LevelInfo
         else if l = ''warn'' \<or> l = ''warning'' then Some LevelWarn
         else if l = ''error'' then Some LevelError
         else None)"

record options =
  o_root :: string
  o_level :: log_level

datatype options_error = FlagError flag_error | RootRequired | UnknownLevel string

definition parse_flags :: "(string \<Rightarrow> string) \<Rightarrow> string option \<Rightarrow> string list \<Rightarrow> options_error + options" where
  \<comment> \<open>of the environment, the home directory and the arguments\<close>
  "parse_flags env home argv =
     (let default_root = (if env ''CLAWMAST_HOME'' = []
            then (case home of Some h \<Rightarrow> path_join [h, ''.clawmast''] | None \<Rightarrow> [])
            else env ''CLAWMAST_HOME'');
          default_level = (if env ''CLAWMAST_LOG_LEVEL'' = [] then ''info'' else env ''CLAWMAST_LOG_LEVEL'')
      in case flag_parse [''install-root'', ''log-level''] [] argv of
           Inl e \<Rightarrow> Inl (FlagError e)
         | Inr vals \<Rightarrow>
             (let root = flag_value vals ''install-root'' default_root;
                  level = flag_value vals ''log-level'' default_level
              in if root = [] then Inl RootRequired
                 else case parse_log_level level of
                   None \<Rightarrow> Inl (UnknownLevel level)
                 | Some l \<Rightarrow> Inr \<lparr>o_root = root, o_level = l\<rparr>))"

lemma flag_examples:
  "flag_parse [''r'', ''l''] [] [''-r'', ''/x'', ''--l=a=b'', ''--'', ''-q''] = Inr [(''l'', ''a=b''), (''r'', ''/x'')]"
  "flag_parse [''r''] [] [''-q''] = Inl (NotDefined ''q'')"
  "flag_parse [''r''] [] [''-r''] = Inl (NeedsArgument ''r'')"
  "flag_parse [''r''] [] [''x'', ''-q''] = Inr []"
  by code_simp+

subsection \<open>Supervisor.Run\<close>

datatype run_error = PrepareFailed os_error | HistoryFailed os_error | ListenFailed | LoopError sup_error

datatype run_result = StillRunning | RunReturned "run_error option"

definition open_history :: "string \<Rightarrow> fsys \<Rightarrow> os_error option \<times> fsys" where
  "open_history path f =
     (case os_mkdir_all (dir_of path) f of (Inl e, f) \<Rightarrow> (Some e, f) | (Inr _, f) \<Rightarrow> (None, f))"

datatype listen_io = ListenOk | BindFails | ChmodFails

definition listen_notify :: "string \<Rightarrow> listen_io \<Rightarrow> fsys \<Rightarrow> bool \<times> fsys" where
  \<comment> \<open>whether the socket is open; the socket's own node is not modelled\<close>
  "listen_notify path io f =
     (case os_remove path f of
        (Inl e, f) \<Rightarrow> (if e \<noteq> NotExist then (False, f)
                      else if io = ChmodFails then (False, snd (os_remove path f)) else (io = ListenOk, f))
      | (Inr _, f) \<Rightarrow> (if io = ChmodFails then (False, snd (os_remove path f)) else (io = ListenOk, f)))"

definition run_supervisor ::
  "config \<Rightarrow> int \<Rightarrow> listen_io \<Rightarrow> turn list \<Rightarrow> sup \<Rightarrow> run_result \<times> sup" where
  "run_supervisor c pid io ts s =
     (case prepare_filesystem c pid (s_fs s) of
        (Some e, f) \<Rightarrow> (RunReturned (Some (PrepareFailed e)), s\<lparr>s_fs := f\<rparr>)
      | (None, f) \<Rightarrow>
     (case open_history (c_history c) f of
        (Some e, f) \<Rightarrow> (RunReturned (Some (HistoryFailed e)), s\<lparr>s_fs := f\<rparr>)
      | (None, f) \<Rightarrow>
     (case listen_notify (c_socket c) io f of
        (False, f) \<Rightarrow> (RunReturned (Some ListenFailed), s\<lparr>s_fs := f\<rparr>)
      | (True, f) \<Rightarrow>
          (case run_loop c ts (s\<lparr>s_fs := f\<rparr>) of
             (Returned None, s) \<Rightarrow> (RunReturned None, s)
           | (Returned (Some e), s) \<Rightarrow> (RunReturned (Some (LoopError e)), s)
           | (_, s) \<Rightarrow> (StillRunning, s)))))"

subsection \<open>The process\<close>

definition parse_duration_env :: "(string \<Rightarrow> duration option) \<Rightarrow> string \<Rightarrow> duration" where
  \<comment> \<open>of the variable's value\<close>
  "parse_duration_env pd txt =
     (if txt = [] then 0 else case pd txt of None \<Rightarrow> 0 | Some d \<Rightarrow> d)"

definition no_backoff :: policy where
  \<comment> \<open>the zero value, which \<^verbatim>\<open>withDefaults\<close> replaces\<close>
  "no_backoff = \<lparr>base = 0, max_delay = 0, steady_reset = 0, crash_window = 0, crash_cap = 0\<rparr>"

definition daemon_config ::
  "(string \<Rightarrow> duration option) \<Rightarrow> (string \<Rightarrow> string) \<Rightarrow> string \<Rightarrow> options \<Rightarrow> config" where
  "daemon_config pd env full opts =
     \<lparr>c_root = o_root opts, c_binary = [], c_args = [],
      c_env = [''CLAWMAST_SUPERVISOR_VERSION='' @ full],
      c_start_timeout = parse_duration_env pd (env ''CLAWMAST_START_TIMEOUT''), c_watchdog = 0,
      c_stop_grace = 0, c_backoff = no_backoff,
      c_gate_window = parse_duration_env pd (env ''CLAWMAST_GATE_WINDOW''),
      c_gate_stable = parse_duration_env pd (env ''CLAWMAST_GATE_STABLE_FOR''),
      c_socket = [], c_history = [], c_blacklist = [], c_run_dir = [], c_resolve = None\<rparr>"

datatype daemon_error = ConfigError config_error | RunFailed run_error | ExitErr int string

definition run_daemon ::
  "(string \<Rightarrow> duration option) \<Rightarrow> (string \<Rightarrow> string) \<Rightarrow> string \<Rightarrow> options \<Rightarrow> int \<Rightarrow> listen_io \<Rightarrow> turn list \<Rightarrow> fsys
   \<Rightarrow> daemon_error option option \<times> sup option" where
  \<comment> \<open>\<^verbatim>\<open>run\<close> of run_unix.go; the outer \<open>None\<close>: the turns end while it still runs\<close>
  "run_daemon pd env full opts pid io ts f =
     (case new_supervisor (daemon_config pd env full opts) f of
        Inl e \<Rightarrow> (Some (Some (ConfigError e)), None)
      | Inr (c, s) \<Rightarrow>
          (case run_supervisor c pid io ts s of
             (StillRunning, s) \<Rightarrow> (None, Some s)
           | (RunReturned None, s) \<Rightarrow> (Some None, Some s)
           | (RunReturned (Some (LoopError (StopErr n reason))), s) \<Rightarrow> (Some (Some (ExitErr n reason)), Some s)
           | (RunReturned (Some e), s) \<Rightarrow> (Some (Some (RunFailed e)), Some s)))"

fun exit_code_for :: "daemon_error \<Rightarrow> int" where
  "exit_code_for (ExitErr n reason) = n"
| "exit_code_for _ = 1"

datatype main_result = ShowVersion | ShowUsage | MainRuns "sup option" | MainExit int "sup option"

definition daemon_main ::
  "(string \<Rightarrow> duration option) \<Rightarrow> (string \<Rightarrow> string) \<Rightarrow> string option \<Rightarrow> string \<Rightarrow> string list \<Rightarrow> int \<Rightarrow> listen_io
   \<Rightarrow> turn list \<Rightarrow> fsys \<Rightarrow> main_result" where
  \<comment> \<open>of the arguments after the program's name\<close>
  "daemon_main pd env home full argv pid io ts f =
     (if argv \<noteq> [] \<and> hd argv \<in> {''version'', ''-v'', ''--version''} then ShowVersion
      else if argv \<noteq> [] \<and> hd argv \<in> {''help'', ''-h'', ''--help''} then ShowUsage
      else case parse_flags env home argv of
        Inl _ \<Rightarrow> MainExit 2 None
      | Inr opts \<Rightarrow>
          (case run_daemon pd env full opts pid io ts f of
             (None, s) \<Rightarrow> MainRuns s
           | (Some None, s) \<Rightarrow> MainExit 0 s
           | (Some (Some e), s) \<Rightarrow> MainExit (exit_code_for e) s))"

subsection \<open>What the init system sees\<close>

lemma daemon_config_complete: "o_root opts \<noteq> [] \<Longrightarrow> \<exists>c s. new_supervisor (daemon_config pd env full opts) f = Inr (c, s)"
  by (simp add: new_supervisor_def with_defaults_def daemon_config_def default_scalars_def default_paths_def
      path_join_root_ne Let_def)

lemma run_supervisor_loop:
  assumes "run_supervisor c pid io ts s = (RunReturned r, s')"
  shows "(\<exists>e. r = Some (PrepareFailed e)) \<or> (\<exists>e. r = Some (HistoryFailed e)) \<or> r = Some ListenFailed
    \<or> (\<exists>f. run_loop c ts (s\<lparr>s_fs := f\<rparr>) = (Returned None, s') \<and> r = None)
    \<or> (\<exists>f e. run_loop c ts (s\<lparr>s_fs := f\<rparr>) = (Returned (Some e), s') \<and> r = Some (LoopError e))"
  using assms unfolding run_supervisor_def
  by (auto split: prod.splits option.splits bool.splits step_result.splits)

definition shut_down :: "turn list \<Rightarrow> bool" where
  \<comment> \<open>the context was cancelled at the head of an iteration, in a select or in a sleep\<close>
  "shut_down ts \<longleftrightarrow> (\<exists>t \<in> set ts. t_cancelled t \<or> (\<exists>e \<in> set (t_events t). \<exists>r. e_kind e = SelDone r)
     \<or> t_cancelled_end t \<or> t_woken t)"

definition asked_to_stay_down :: "turn list \<Rightarrow> bool" where
  "asked_to_stay_down ts \<longleftrightarrow> (\<exists>t \<in> set ts. \<exists>e \<in> set (t_events t). e_kind e = SelExit (Some (Exited 64)))"


lemma trim_info: "trim_space ''info'' = ''info''"
  by (simp add: trim_space_def strip_graphic graphic_def)

definition demo_argv :: "string list" where "demo_argv = [''-install-root'', ''/r'']"

lemma demo_flags: "parse_flags (\<lambda>_. []) None demo_argv = Inr \<lparr>o_root = ''/r'', o_level = LevelInfo\<rparr>"
  by (simp add: parse_flags_def demo_argv_def flag_value_def parse_log_level_def trim_info to_lower_def
      to_lower_char_def Let_def)

lemma demo_daemon_config:
  "\<exists>c s. new_supervisor (daemon_config (\<lambda>_. None) (\<lambda>_. []) ''s'' \<lparr>o_root = ''/r'', o_level = LevelInfo\<rparr>) empty_fs
     = Inr (c, s) \<and> s_fs s = empty_fs \<and> c_run_dir c = ''/r/run'' \<and> c_history c = ''/r/state/history.json''
     \<and> c_socket c = ''/r/run/notify.sock''"
proof -
  have p: "path_join [''/r'', ''run''] = ''/r/run''" "path_join [''/r'', ''run'', ''notify.sock''] = ''/r/run/notify.sock''"
    "path_join [''/r'', ''state'', ''history.json''] = ''/r/state/history.json''" by code_simp+
  show ?thesis
    by (simp add: new_supervisor_def with_defaults_def daemon_config_def default_scalars_def default_paths_def
        p path_join_root_ne Let_def)
qed

lemma demo_daemon_runs:
  assumes "c_run_dir c = ''/r/run''" "c_history c = ''/r/state/history.json''" "c_socket c = ''/r/run/notify.sock''"
    and "s_fs s = empty_fs"
  shows "\<exists>s'. run_supervisor c 7 ListenOk [(idle_turn (Started 7))\<lparr>t_cancelled := True\<rparr>] s = (RunReturned None, s')"
proof -
  have p: "dir_of ''/r/state/history.json'' = ''/r/state''" "dir_of ''/r/run/notify.sock'' = ''/r/run''"
    "path_join [''/r/run'', ''supervisor.pid''] = ''/r/run/supervisor.pid''" by code_simp+
  show ?thesis
    by (simp add: run_supervisor_def prepare_filesystem_def open_history_def listen_notify_def assms p
        os_defs empty_fs_def loop_step_def)
qed


end
