(* ===== verification/Release.thy ===== *)
theory Release
  imports SelfUpdate Paths
begin

section \<open>The release tool (cmd/clawmast-release: build.go, manifest.go)\<close>

text \<open>
  \<open>build_one\<close> packs the compiled programs of one platform into an archive, \<open>run_manifest\<close>
  describes the archives of a directory. The compiler, the files on disk, the directory listing and the
  digest are arguments; an archive is the sequence of entries a reader finds in it. Modification times
  and messages are not modelled.
\<close>

datatype release_error = MissingFlags | BadVersion | BadPlatform string | NoDirectory | NoTarballs
  | HashFails string | BadRelease manifest_error | MarshalFails | BuildWorkerFails | BuildSupervisorFails
  | NoSource string

subsection \<open>Archives\<close>

record release_file =
  rf_name :: string
  rf_src :: string
  rf_mode :: int

fun tar_files :: "string \<Rightarrow> string list \<Rightarrow> release_file list \<Rightarrow> (string \<Rightarrow> string option) \<Rightarrow> release_error + tar_stream" where
  \<comment> \<open>the loop of \<^verbatim>\<open>writeTarGz\<close>; the second argument holds the directories already emitted\<close>
  "tar_files pre dirs [] disk = Inr TarEnd"
| "tar_files pre dirs (e # es) disk =
     (let d = dir_of (rf_name e); d = (if d = ''.'' then [] else d);
          fresh = (d \<noteq> [] \<and> d \<notin> set dirs);
          dirs = (if fresh then d # dirs else dirs)
      in case disk (rf_src e) of
           None \<Rightarrow> Inl (NoSource (rf_src e))
         | Some body \<Rightarrow>
             (case tar_files pre dirs es disk of
                Inl err \<Rightarrow> Inl err
              | Inr rest \<Rightarrow>
                  (let file = TarEntry \<lparr>t_name = pre @ ''/'' @ rf_name e, t_regular = True, t_mode = rf_mode e,
                         t_data = body, t_complete = True\<rparr> rest
                   in Inr (if fresh
                        then TarEntry \<lparr>t_name = pre @ ''/'' @ d @ ''/'', t_regular = False, t_mode = 493,
                               t_data = [], t_complete = True\<rparr> file
                        else file))))"

definition write_tar_gz :: "string \<Rightarrow> release_file list \<Rightarrow> (string \<Rightarrow> string option) \<Rightarrow> release_error + tar_stream" where
  "write_tar_gz pre es disk =
     (case tar_files pre [[]] es disk of
        Inl err \<Rightarrow> Inl err
      | Inr rest \<Rightarrow> Inr (TarEntry \<lparr>t_name = pre @ ''/'', t_regular = False, t_mode = 493, t_data = [],
          t_complete = True\<rparr> rest))"

definition release_prefix :: "string \<Rightarrow> string \<Rightarrow> string" where
  "release_prefix os arch = ''clawmast-'' @ os @ ''-'' @ arch"

definition tarball_name :: "string \<Rightarrow> string \<Rightarrow> string" where
  "tarball_name os arch = ''clawmast-'' @ os @ ''-'' @ arch @ ''.tar.gz''"

definition release_files :: "string \<Rightarrow> string \<Rightarrow> string \<Rightarrow> release_file list" where
  \<comment> \<open>of the build directory, the platform and the template directory\<close>
  "release_files tmp os templates =
     (let ext = (if os = ''windows'' then ''.exe'' else [])
      in \<lparr>rf_name = ''clawmast'' @ ext, rf_src = path_join [tmp, ''clawmast'' @ ext], rf_mode = 493\<rparr> #
         (if os = ''windows'' then []
          else \<lparr>rf_name = ''clawmastd'', rf_src = path_join [tmp, ''clawmastd''], rf_mode = 493\<rparr> #
            (if os = ''linux''
             then [\<lparr>rf_name = ''systemd/clawmastd.service.tmpl'',
                rf_src = path_join [templates, ''clawmastd.service.tmpl''], rf_mode = 420\<rparr>]
             else if os = ''darwin''
             then [\<lparr>rf_name = ''launchd/com.clawmast.clawmastd.plist.tmpl'',
                rf_src = path_join [templates, ''com.clawmast.clawmastd.plist.tmpl''], rf_mode = 420\<rparr>]
             else [])))"

definition build_one ::
  "(string \<Rightarrow> string \<Rightarrow> string \<Rightarrow> string option) \<Rightarrow> (string \<Rightarrow> string option) \<Rightarrow> string \<Rightarrow> string \<Rightarrow> string \<Rightarrow> string
   \<Rightarrow> release_error + tar_stream" where
  \<comment> \<open>of the compiler (package, os, arch), the templates on disk, the build directory, the
    template directory, os and arch\<close>
  "build_one compile disk tmp templates os arch =
     (let ext = (if os = ''windows'' then ''.exe'' else []);
          worker = path_join [tmp, ''clawmast'' @ ext]; supervisor = path_join [tmp, ''clawmastd'']
      in case compile ''./cmd/clawmast'' os arch of
           None \<Rightarrow> Inl BuildWorkerFails
         | Some bin \<Rightarrow>
             (if os = ''windows''
              then write_tar_gz (release_prefix os arch) (release_files tmp os templates) (disk(worker \<mapsto> bin))
              else case compile ''./cmd/clawmastd'' os arch of
                None \<Rightarrow> Inl BuildSupervisorFails
              | Some sv \<Rightarrow>
                  write_tar_gz (release_prefix os arch) (release_files tmp os templates)
                    (disk(worker \<mapsto> bin, supervisor \<mapsto> sv))))"

definition default_platforms :: "string list" where
  "default_platforms = [''darwin/amd64'', ''darwin/arm64'', ''linux/amd64'', ''linux/arm64'', ''windows/amd64'']"

fun build_all ::
  "(string \<Rightarrow> string \<Rightarrow> release_error + tar_stream) \<Rightarrow> string \<Rightarrow> string list \<Rightarrow> (string \<times> tar_stream) list
   \<Rightarrow> release_error option \<times> (string \<times> tar_stream) list" where
  \<comment> \<open>the loop of \<^verbatim>\<open>runBuild\<close>: the archives written before an error stay\<close>
  "build_all build out [] acc = (None, acc)"
| "build_all build out (t # ts) acc =
     (case cut_on (CHR ''/'') t of
        None \<Rightarrow> (Some (BadPlatform t), acc)
      | Some (os, arch) \<Rightarrow>
          (case build os arch of
             Inl e \<Rightarrow> (Some e, acc)
           | Inr a \<Rightarrow> build_all build out ts (acc @ [(path_join [out, tarball_name os arch], a)])))"

definition run_build ::
  "(string \<Rightarrow> string \<Rightarrow> release_error + tar_stream) \<Rightarrow> string \<Rightarrow> string \<Rightarrow> string
   \<Rightarrow> release_error option \<times> (string \<times> tar_stream) list" where
  \<comment> \<open>of the build step and the flags out, version and platforms; the directory can be made\<close>
  "run_build build out version platforms =
     (if version = [] then (Some MissingFlags, [])
      else build_all build out
        (if platforms \<noteq> [] then split_on (CHR '','') platforms else default_platforms) [])"

subsection \<open>The manifest\<close>

record manifest_flags =
  mf_dir :: string
  mf_out :: string
  mf_channel :: string
  mf_version :: string
  mf_base :: string
  mf_notes :: string
  mf_platforms :: string

fun parse_platforms :: "string list \<Rightarrow> release_error + (string \<times> string) list" where
  "parse_platforms [] = Inr []"
| "parse_platforms (p # ps) =
     (case cut_on (CHR ''/'') p of
        None \<Rightarrow> Inl (BadPlatform p)
      | Some t \<Rightarrow> (case parse_platforms ps of Inl e \<Rightarrow> Inl e | Inr ts \<Rightarrow> Inr (t # ts)))"

definition tarball_target :: "string \<Rightarrow> (string \<times> string) option" where
  \<comment> \<open>of a file name; \<^verbatim>\<open>TrimSuffix\<close> leaves a string without the suffix as it is\<close>
  "tarball_target name =
     (if \<not> has_prefix name ''clawmast-'' \<or> \<not> has_suffix name ''.tar.gz'' then None
      else let stem = drop 9 name
           in cut_on (CHR ''-'') (if has_suffix stem ''.tar.gz'' then take (length stem - 7) stem else stem))"

definition resolve_targets ::
  "(string \<Rightarrow> string list option) \<Rightarrow> string \<Rightarrow> string \<Rightarrow> release_error + (string \<times> string) list" where
  "resolve_targets read_dir dir platforms =
     (if platforms \<noteq> [] then parse_platforms (split_on (CHR '','') platforms)
      else case read_dir dir of
        None \<Rightarrow> Inl NoDirectory
      | Some names \<Rightarrow>
          (let out = List.map_filter tarball_target names in if out = [] then Inl NoTarballs else Inr out))"

fun hash_artifacts ::
  "(string \<Rightarrow> string) \<Rightarrow> (string \<Rightarrow> string option) \<Rightarrow> string \<Rightarrow> string \<Rightarrow> (string \<times> string) list
   \<Rightarrow> release_error + artifact list" where
  "hash_artifacts sha256 disk dir url [] = Inr []"
| "hash_artifacts sha256 disk dir url ((os, arch) # ts) =
     (case disk (path_join [dir, tarball_name os arch]) of
        None \<Rightarrow> Inl (HashFails (path_join [dir, tarball_name os arch]))
      | Some bytes \<Rightarrow>
          (case hash_artifacts sha256 disk dir url ts of
             Inl e \<Rightarrow> Inl e
           | Inr as \<Rightarrow> Inr (\<lparr>a_os = os, a_arch = arch, a_url = url @ ''/'' @ tarball_name os arch,
               a_size = int (length bytes), a_sha = sha256 bytes\<rparr> # as)))"

definition encode_artifact :: "artifact \<Rightarrow> json" where
  "encode_artifact a = JObj [(''os'', JStr (a_os a)), (''arch'', JStr (a_arch a)), (''url'', JStr (a_url a)),
     (''size'', JNum (a_size a)), (''sha256'', JStr (a_sha a))]"

definition encode_manifest :: "manifest \<Rightarrow> json" where
  "encode_manifest m = JObj ([(''channel'', JStr (f_channel m)), (''version'', JStr (f_version m)),
       (''published_at'', JTime (f_published m))]
     @ (if f_notes m = [] then [] else [(''notes'', JStr (f_notes m))])
     @ [(''artifacts'', JArr (map encode_artifact (f_artifacts m)))])"

definition run_manifest ::
  "(string \<Rightarrow> string) \<Rightarrow> (string \<Rightarrow> string list option) \<Rightarrow> (string \<Rightarrow> string option) \<Rightarrow> instant \<Rightarrow> manifest_flags
   \<Rightarrow> release_error + json" where
  \<comment> \<open>the result is the document written to \<^verbatim>\<open>-out\<close>\<close>
  "run_manifest sha256 read_dir disk now fl =
     (if mf_out fl = [] \<or> mf_version fl = [] \<or> mf_base fl = [] then Inl MissingFlags
      else if \<not> has_prefix (mf_version fl) ''v'' then Inl BadVersion
      else let url = trim_right_byte (CHR ''/'') (mf_base fl)
           in case resolve_targets read_dir (mf_dir fl) (mf_platforms fl) of
                Inl e \<Rightarrow> Inl e
              | Inr ts \<Rightarrow>
             (case hash_artifacts sha256 disk (mf_dir fl) url ts of
                Inl e \<Rightarrow> Inl e
              | Inr as \<Rightarrow>
                  (let m = \<lparr>f_channel = mf_channel fl, f_version = mf_version fl, f_published = now,
                         f_notes = mf_notes fl, f_artifacts = as\<rparr>
                   in case validate m of
                        Some e \<Rightarrow> Inl (BadRelease e)
                      | None \<Rightarrow> if time_encodable now then Inr (encode_manifest m) else Inl MarshalFails)))"

subsection \<open>What is published can be read\<close>

lemma artifact_roundtrip:
  "in_int64 (a_size a) \<Longrightarrow> decode_struct artifact_field zero_artifact (encode_artifact a) = Some a"
  by (cases a) (simp add: encode_artifact_def artifact_field_def zero_artifact_def equal_fold_def to_lower_def
      to_lower_char_def)

lemma manifest_roundtrip:
  assumes "\<forall>a \<in> set (f_artifacts m). in_int64 (a_size a)"
  shows "decode_manifest (encode_manifest m) = Some m"
proof -
  have "decode_list (decode_struct artifact_field zero_artifact) (JArr (map encode_artifact (f_artifacts m)))
      = Some (f_artifacts m)"
    using assms artifact_roundtrip by (intro decode_list_map) blast
  then show ?thesis
    by (cases m) (simp add: decode_manifest_def encode_manifest_def manifest_field_def zero_manifest_def
        equal_fold_def to_lower_def to_lower_char_def del: decode_list.simps)
qed

lemma hash_artifacts_sound:
  assumes "hash_artifacts sha256 disk dir url ts = Inr as" "a \<in> set as"
  shows "\<exists>bytes. (a_os a, a_arch a) \<in> set ts \<and> disk (path_join [dir, tarball_name (a_os a) (a_arch a)]) = Some bytes
    \<and> a_url a = url @ ''/'' @ tarball_name (a_os a) (a_arch a)
    \<and> a_size a = int (length bytes) \<and> a_sha a = sha256 bytes"
  using assms
proof (induction ts arbitrary: as)
  case (Cons t ts)
  obtain os arch where t: "t = (os, arch)" by fastforce
  with Cons.prems(1) obtain bytes bs where b: "disk (path_join [dir, tarball_name os arch]) = Some bytes"
    "hash_artifacts sha256 disk dir url ts = Inr bs"
    "as = \<lparr>a_os = os, a_arch = arch, a_url = url @ ''/'' @ tarball_name os arch,
       a_size = int (length bytes), a_sha = sha256 bytes\<rparr> # bs"
    by (auto split: option.splits sum.splits)
  show ?case
  proof (cases "a \<in> set bs")
    case True
    with Cons.IH [OF b(2)] show ?thesis by auto
  next
    case False
    with Cons.prems(2) b t show ?thesis by auto
  qed
qed simp

subsection \<open>What is built can be installed\<close>

text \<open>An entry whose cleaned name is not the worker's is skipped, the worker's is written.\<close>

lemma extract_dir: "\<not> t_regular e \<Longrightarrow> extract_entry dir e x = (None, x)"
  by (simp add: extract_entry_def)

lemma contains_strD: "contains_str s p \<Longrightarrow> \<exists>a b. s = a @ p @ b"
proof (induction s)
  case Nil
  then show ?case by (simp add: contains_str.simps)
next
  case (Cons c s)
  then consider "prefix p (c # s)" | "contains_str s p" by (subst (asm) contains_str.simps) auto
  then show ?case
  proof cases
    case 1
    then show ?thesis by (metis append_Nil prefixE)
  next
    case 2
    with Cons.IH obtain a b where "s = a @ p @ b" by blast
    then show ?thesis by (metis append_Cons)
  qed
qed

lemma safe_rel_path:
  assumes "list_all plain_name es" "es \<noteq> []"
  shows "\<not> unsafe_path (rel_path es)"
proof -
  have s: "split_on (CHR ''/'') (rel_path es) = es" by (rule clean_rel_path(2) [OF assms])
  have nd: "''..'' \<notin> set es" using assms(1) by (auto simp: list_all_iff plain_name_def)
  have 1: "\<not> prefix ''../'' (rel_path es)"
  proof
    assume "prefix ''../'' (rel_path es)"
    then obtain r where "rel_path es = ''..'' @ CHR ''/'' # r" by (auto simp: prefix_def)
    then have "split_on (CHR ''/'') (rel_path es) = ''..'' # split_on (CHR ''/'') r"
      by (simp only: split_on_append [of "CHR ''/''" "''..''"]) simp
    with s nd show False by (metis list.set_intros(1))
  qed
  have 2: "rel_path es \<noteq> ''..''"
  proof
    assume "rel_path es = ''..''"
    with s have "es = [''..'']" by simp
    with nd show False by simp
  qed
  have split_mid: "''..'' \<in> set (split_on (CHR ''/'') (a @ ''/../'' @ b))" for a b
  proof (induction a)
    case (Cons c a)
    then show ?case
    proof (cases "c = CHR ''/''")
      case False
      have "split_on (CHR ''/'') (''/../'' @ b) \<noteq> []" by simp
      have "\<exists>y ys. split_on (CHR ''/'') (a @ ''/../'' @ b) = y # ys \<and> ''..'' \<in> set ys"
      proof (induction a)
        case (Cons d a)
        then show ?case by (cases "d = CHR ''/''") auto
      qed simp
      with False show ?thesis by auto
    qed simp
  qed simp
  have 3: "\<not> contains_str (rel_path es) ''/../''"
  proof
    assume "contains_str (rel_path es) ''/../''"
    then obtain a b where "rel_path es = a @ ''/../'' @ b" using contains_strD by blast
    with split_mid [of a b] s nd show False by simp
  qed
  show ?thesis using 1 2 3 rel_path_not_abs [OF assms(1)] by (simp add: unsafe_path_def has_prefix_def)
qed

lemma extract_other:
  assumes "t_name e = rel_path es" "list_all plain_name es" "es \<noteq> []" "last es \<noteq> worker_file"
  shows "extract_entry dir e x = (None, x)"
proof -
  have "rel_path es \<noteq> ''.''"
  proof
    assume d: "rel_path es = ''.''"
    have "es = split_on (CHR ''/'') (rel_path es)" using clean_rel_path(2) [OF assms(2,3)] by simp
    also have "\<dots> = [''.'']" by (simp add: d)
    finally show False using assms(2) by (simp add: plain_name_def)
  qed
  with assms show ?thesis
    by (simp add: extract_entry_def clean_rel_path safe_rel_path rel_path_ne Let_def)
qed

lemma extract_worker:
  assumes "t_name e = rel_path [pre, worker_file]" "plain_name pre" "t_regular e" "t_complete e"
    "ex_mode x = None" "faults (ex_fs x) = []" "nodes (ex_fs x) (path_join [dir, worker_file]) \<noteq> Some Dir"
  shows "extract_entry dir e x = (None, \<lparr>ex_fs = put_node (path_join [dir, worker_file])
      (Some (File (Text (t_data e)))) (ex_fs x), ex_mode = Some (entry_mode (t_mode e))\<rparr>)"
proof -
  have pl: "list_all plain_name [pre, worker_file]" using assms(2) by (simp add: plain_name_def worker_file_def)
  have ne: "rel_path [pre, worker_file] \<noteq> ''.''"
  proof
    assume "rel_path [pre, worker_file] = ''.''"
    then have "length (rel_path [pre, worker_file]) = 1" by simp
    then show False by (simp add: rel_path_def worker_file_def)
  qed
  have "\<exists>f. ex_fs x = f \<and> faults f = [] \<and> nodes f (path_join [dir, worker_file]) \<noteq> Some Dir"
    using assms(6,7) by blast
  then show ?thesis
    using assms(1,3-5) ne rel_path_ne [OF pl] safe_rel_path [OF pl] clean_rel_path [OF pl]
    by (auto simp: extract_entry_def os_defs Let_def put_node_def split: node.splits option.splits)
qed

lemma release_names:
  "dir_of ''clawmast'' = ''.''" "dir_of ''clawmastd'' = ''.''"
  "dir_of ''systemd/clawmastd.service.tmpl'' = ''systemd''"
  "dir_of ''launchd/com.clawmast.clawmastd.plist.tmpl'' = ''launchd''"
  by code_simp+

lemma build_extracts:
  assumes b: "build_one compile disk tmp templates os arch = Inr a" and os: "os \<noteq> ''windows''"
    and pre: "plain_name (release_prefix os arch)" and tmp: "tmp \<noteq> []"
    and clean: "faults f = []" "nodes f (path_join [dir, worker_file]) \<noteq> Some Dir"
  shows "\<exists>bin. compile ''./cmd/clawmast'' os arch = Some bin
    \<and> extract_tar dir a \<lparr>ex_fs = f, ex_mode = None\<rparr> =
      (None, \<lparr>ex_fs = put_node (path_join [dir, worker_file]) (Some (File (Text bin))) f, ex_mode = Some 493\<rparr>)"
proof -
  let ?p = "release_prefix os arch" and ?w = "path_join [tmp, ''clawmast'']" and ?s = "path_join [tmp, ''clawmastd'']"
  have ws: "?w \<noteq> ?s"
    using path_join_inj [of tmp "''clawmast''" "''clawmastd''"] tmp by (auto simp: plain_name_def)
  from b os obtain bin sv where c: "compile ''./cmd/clawmast'' os arch = Some bin"
    "write_tar_gz ?p (release_files tmp os templates) (disk(?w \<mapsto> bin, ?s \<mapsto> sv)) = Inr a"
    by (auto simp: build_one_def Let_def split: option.splits)
  let ?e = "\<lparr>t_name = ?p @ ''/'' @ ''clawmast'', t_regular = True, t_mode = 493, t_data = bin, t_complete = True\<rparr>"
  let ?x = "\<lparr>ex_fs = put_node (path_join [dir, worker_file]) (Some (File (Text bin))) f, ex_mode = Some 493\<rparr>"
  have n: "?p @ ''/'' @ ''clawmast'' = rel_path [?p, worker_file]"
    "?p @ ''/'' @ ''clawmastd'' = rel_path [?p, ''clawmastd'']"
    "?p @ ''/'' @ ''systemd/clawmastd.service.tmpl'' = rel_path [?p, ''systemd'', ''clawmastd.service.tmpl'']"
    "?p @ ''/'' @ ''launchd/com.clawmast.clawmastd.plist.tmpl'' =
      rel_path [?p, ''launchd'', ''com.clawmast.clawmastd.plist.tmpl'']"
    by (simp_all add: rel_path_def worker_file_def)
  have w: "extract_entry dir ?e \<lparr>ex_fs = f, ex_mode = None\<rparr> = (None, ?x)"
    using extract_worker [of ?e ?p "\<lparr>ex_fs = f, ex_mode = None\<rparr>" dir] n(1) pre clean
    by (simp add: entry_mode_def)
  have pl: "plain_name ''clawmastd''" "plain_name ''systemd''" "plain_name ''clawmastd.service.tmpl''"
    "plain_name ''launchd''" "plain_name ''com.clawmast.clawmastd.plist.tmpl''"
    by (simp_all add: plain_name_def)
  have other: "extract_entry dir e ?x = (None, ?x)"
    if "t_name e \<in> {?p @ ''/'' @ ''clawmastd'', ?p @ ''/'' @ ''systemd/clawmastd.service.tmpl'',
        ?p @ ''/'' @ ''launchd/com.clawmast.clawmastd.plist.tmpl''}" for e
    using that unfolding n
    by (elim insertE emptyE) (erule extract_other; simp add: pre pl worker_file_def)+
  show ?thesis
  proof (intro exI conjI, rule c(1))
    show "extract_tar dir a \<lparr>ex_fs = f, ex_mode = None\<rparr> = (None, ?x)"
      using c(2) os ws w other
      by (auto simp: write_tar_gz_def release_files_def release_names Let_def extract_dir
          split: option.splits if_splits)
  qed
qed

lemma run_manifest_cases:
  assumes "run_manifest sha256 read_dir disk now fl = Inr doc"
  obtains m ts where "doc = encode_manifest m" "validate m = None" "f_version m = mf_version fl"
    "f_channel m = mf_channel fl" "f_published m = now"
    "resolve_targets read_dir (mf_dir fl) (mf_platforms fl) = Inr ts"
    "hash_artifacts sha256 disk (mf_dir fl) (trim_right_byte (CHR ''/'') (mf_base fl)) ts = Inr (f_artifacts m)"
proof -
  let ?url = "trim_right_byte (CHR ''/'') (mf_base fl)"
  from assms obtain ts as where
    t: "resolve_targets read_dir (mf_dir fl) (mf_platforms fl) = Inr ts"
      "hash_artifacts sha256 disk (mf_dir fl) ?url ts = Inr as"
    and m: "validate \<lparr>f_channel = mf_channel fl, f_version = mf_version fl, f_published = now,
         f_notes = mf_notes fl, f_artifacts = as\<rparr> = None"
      "doc = encode_manifest \<lparr>f_channel = mf_channel fl, f_version = mf_version fl, f_published = now,
         f_notes = mf_notes fl, f_artifacts = as\<rparr>"
    by (auto simp: run_manifest_def Let_def split: if_splits sum.splits option.splits)
  show thesis
    by (rule that [OF m(2,1) _ _ _ t(1)]) (simp_all only: manifest.select_convs t(2))
qed

lemma exact_download:
  assumes "a_size art = int (length bytes)" "a_sha art = sha256 bytes" "int (length bytes) < 2 ^ 63 - 1"
    and "untar bytes = Some a" "extract_tar dir a \<lparr>ex_fs = f, ex_mode = None\<rparr> = (None, x)"
  shows "download_and_extract untar sha256 (Some \<lparr>d_status = 200, d_body = bytes, d_broken = False\<rparr>) art dir f
    = (Inr (int (length bytes)), ex_fs x)"
proof -
  have w: "wrap64 (int (length bytes) + 1) = int (length bytes) + 1" "wrap64 (int (length bytes)) = int (length bytes)"
    using assms(3) by (auto intro!: wrap64_id simp: in_int64_def)
  have n: "nat (int (length bytes) + 1) = Suc (length bytes)" by simp
  show ?thesis
    using assms by (simp add: download_and_extract_def w n equal_fold_def Let_def)
qed

text \<open>
  C29: what is released can be installed. The document the release tool writes decodes to a
  manifest that passes the client's validation and has the version and channel asked for. For
  every artifact on it that was packed by the same tool for a supervised platform, a
  worker that is served the archive's bytes accepts them and ends up with exactly the compiled
  worker in its staging directory.
\<close>
theorem release_installs:
  assumes "run_manifest sha256 read_dir disk now fl = Inr doc"
    and "\<forall>p b. disk p = Some b \<longrightarrow> int (length b) < 2 ^ 63 - 1"
  shows "\<exists>m. decode_manifest doc = Some m \<and> validate m = None
    \<and> f_version m = mf_version fl \<and> f_channel m = mf_channel fl
    \<and> (\<forall>art \<in> set (f_artifacts m). \<exists>bytes.
         disk (path_join [mf_dir fl, tarball_name (a_os art) (a_arch art)]) = Some bytes
         \<and> (\<forall>a compile templates tdir tmp dir f untar. untar bytes = Some a \<and> tmp \<noteq> []
              \<and> build_one compile templates tmp tdir (a_os art) (a_arch art) = Inr a
              \<and> a_os art \<noteq> ''windows'' \<and> plain_name (release_prefix (a_os art) (a_arch art))
              \<and> faults f = [] \<and> nodes f (path_join [dir, worker_file]) \<noteq> Some Dir
            \<longrightarrow> (\<exists>bin f'. compile ''./cmd/clawmast'' (a_os art) (a_arch art) = Some bin
                  \<and> download_and_extract untar sha256 (Some \<lparr>d_status = 200, d_body = bytes, d_broken = False\<rparr>)
                      art dir f = (Inr (a_size art), f')
                  \<and> nodes f' (path_join [dir, worker_file]) = Some (File (Text bin)))))"
  using assms(1)
proof (rule run_manifest_cases)
  fix m ts
  assume m: "doc = encode_manifest m" "validate m = None" "f_version m = mf_version fl"
      "f_channel m = mf_channel fl"
    and h: "hash_artifacts sha256 disk (mf_dir fl) (trim_right_byte (CHR ''/'') (mf_base fl)) ts = Inr (f_artifacts m)"
  note sound = hash_artifacts_sound [OF h]
  have "\<forall>a \<in> set (f_artifacts m). in_int64 (a_size a)"
    using sound assms(2) by (fastforce simp: in_int64_def)
  then have d: "decode_manifest doc = Some m" unfolding m(1) by (rule manifest_roundtrip)
  have inst: "\<exists>bytes. disk (path_join [mf_dir fl, tarball_name (a_os art) (a_arch art)]) = Some bytes
      \<and> a_size art = int (length bytes) \<and> a_sha art = sha256 bytes \<and> int (length bytes) < 2 ^ 63 - 1"
    if "art \<in> set (f_artifacts m)" for art
    using sound [OF that] assms(2) by blast
  show ?thesis
  proof (intro exI [of _ m] conjI ballI)
    fix art assume "art \<in> set (f_artifacts m)"
    from inst [OF this] obtain bytes where
      b: "disk (path_join [mf_dir fl, tarball_name (a_os art) (a_arch art)]) = Some bytes"
      "a_size art = int (length bytes)" "a_sha art = sha256 bytes" "int (length bytes) < 2 ^ 63 - 1" by blast
    show "\<exists>bytes. disk (path_join [mf_dir fl, tarball_name (a_os art) (a_arch art)]) = Some bytes
         \<and> (\<forall>a compile templates tdir tmp dir f untar. untar bytes = Some a \<and> tmp \<noteq> []
              \<and> build_one compile templates tmp tdir (a_os art) (a_arch art) = Inr a
              \<and> a_os art \<noteq> ''windows'' \<and> plain_name (release_prefix (a_os art) (a_arch art))
              \<and> faults f = [] \<and> nodes f (path_join [dir, worker_file]) \<noteq> Some Dir
            \<longrightarrow> (\<exists>bin f'. compile ''./cmd/clawmast'' (a_os art) (a_arch art) = Some bin
                  \<and> download_and_extract untar sha256 (Some \<lparr>d_status = 200, d_body = bytes, d_broken = False\<rparr>)
                      art dir f = (Inr (a_size art), f')
                  \<and> nodes f' (path_join [dir, worker_file]) = Some (File (Text bin))))"
    proof (rule exI [of _ bytes], intro conjI allI impI, rule b(1), elim conjE)
      fix a compile templates tdir tmp dir and f :: fsys and untar :: "string \<Rightarrow> tar_stream option"
      assume u: "untar bytes = Some a" "tmp \<noteq> []"
        "build_one compile templates tmp tdir (a_os art) (a_arch art) = Inr a" "a_os art \<noteq> ''windows''"
        "plain_name (release_prefix (a_os art) (a_arch art))" "faults f = []"
        "nodes f (path_join [dir, worker_file]) \<noteq> Some Dir"
      from build_extracts [OF u(3,4,5,2,6,7)] obtain bin where
        x: "compile ''./cmd/clawmast'' (a_os art) (a_arch art) = Some bin"
        "extract_tar dir a \<lparr>ex_fs = f, ex_mode = None\<rparr> =
          (None, \<lparr>ex_fs = put_node (path_join [dir, worker_file]) (Some (File (Text bin))) f, ex_mode = Some 493\<rparr>)"
        by blast
      have "download_and_extract untar sha256 (Some \<lparr>d_status = 200, d_body = bytes, d_broken = False\<rparr>) art dir f
          = (Inr (a_size art), put_node (path_join [dir, worker_file]) (Some (File (Text bin))) f)"
        using exact_download [where untar = untar and ?sha256.0 = sha256, OF b(2-4) u(1) x(2)] b(2) by simp
      with x(1) show "\<exists>bin f'. compile ''./cmd/clawmast'' (a_os art) (a_arch art) = Some bin
          \<and> download_and_extract untar sha256 (Some \<lparr>d_status = 200, d_body = bytes, d_broken = False\<rparr>)
              art dir f = (Inr (a_size art), f')
          \<and> nodes f' (path_join [dir, worker_file]) = Some (File (Text bin))" by simp
    qed
  qed (use d m in simp_all)
qed

definition demo_flags_rel :: manifest_flags where
  "demo_flags_rel = \<lparr>mf_dir = ''d'', mf_out = ''m'', mf_channel = ''stable'', mf_version = ''v3'',
     mf_base = ''https://h/'', mf_notes = [], mf_platforms = ''linux/amd64''\<rparr>"

definition demo_disk :: "string \<Rightarrow> string option" where
  "demo_disk p = (if p = ''d/clawmast-linux-amd64.tar.gz'' then Some ''GZ'' else None)"

lemma demo_release:
  "\<exists>doc m. run_manifest (\<lambda>_. replicate 64 (CHR ''A'')) (\<lambda>_. None) demo_disk (seconds 5) demo_flags_rel = Inr doc
     \<and> decode_manifest doc = Some m \<and> (\<exists>a \<in> set (f_artifacts m). a_os a = ''linux'' \<and> a_arch a = ''amd64'')"
proof -
  have t: "resolve_targets (\<lambda>_. None) ''d'' ''linux/amd64'' = Inr [(''linux'', ''amd64'')]" by code_simp
  have u: "trim_right_byte (CHR ''/'') ''https://h/'' = ''https://h''" by code_simp
  have p: "path_join [''d'', tarball_name ''linux'' ''amd64''] = ''d/clawmast-linux-amd64.tar.gz''" by code_simp
  have a: "hash_artifacts (\<lambda>_. replicate 64 (CHR ''A'')) demo_disk ''d'' ''https://h'' [(''linux'', ''amd64'')] =
      Inr [\<lparr>a_os = ''linux'', a_arch = ''amd64'', a_url = ''https://h'' @ ''/'' @ tarball_name ''linux'' ''amd64'',
        a_size = 2, a_sha = replicate 64 (CHR ''A'')\<rparr>]" by (simp add: p demo_disk_def)
  have h: "list_all is_hex_digit (replicate n (CHR ''A''))" for n
    by (induction n) (simp_all add: is_hex_digit_def)
  have v: "validate \<lparr>f_channel = ''stable'', f_version = ''v3'', f_published = seconds 5, f_notes = [],
      f_artifacts = [\<lparr>a_os = ''linux'', a_arch = ''amd64'', a_url = ''https://h'' @ ''/'' @ tarball_name ''linux'' ''amd64'',
        a_size = 2, a_sha = replicate 64 (CHR ''A'')\<rparr>]\<rparr> = None"
    unfolding validate_None using h by (simp add: sound_artifact_def tarball_name_def)
  let ?m = "\<lparr>f_channel = ''stable'', f_version = ''v3'', f_published = seconds 5, f_notes = [],
      f_artifacts = [\<lparr>a_os = ''linux'', a_arch = ''amd64'', a_url = ''https://h'' @ ''/'' @ tarball_name ''linux'' ''amd64'',
        a_size = 2, a_sha = replicate 64 (CHR ''A'')\<rparr>]\<rparr>"
  have "run_manifest (\<lambda>_. replicate 64 (CHR ''A'')) (\<lambda>_. None) demo_disk (seconds 5) demo_flags_rel =
      Inr (encode_manifest ?m)"
    unfolding run_manifest_def Let_def
    using v by (simp add: demo_flags_rel_def t u a has_prefix_def time_encodable_def del: hash_artifacts.simps)
  moreover have "decode_manifest (encode_manifest ?m) = Some ?m"
    by (rule manifest_roundtrip) (simp add: in_int64_def)
  ultimately show ?thesis by (intro exI conjI) auto
qed

definition demo_archive_of :: tar_stream where
  "demo_archive_of = (case build_one (\<lambda>_ _ _. Some ''BIN'') (\<lambda>_. Some ''T'') ''/t'' ''s'' ''linux'' ''amd64'' of
     Inr a \<Rightarrow> a | Inl _ \<Rightarrow> TarEnd)"

lemma demo_built: "build_one (\<lambda>_ _ _. Some ''BIN'') (\<lambda>_. Some ''T'') ''/t'' ''s'' ''linux'' ''amd64'' = Inr demo_archive_of"
proof -
  have "\<exists>a. build_one (\<lambda>_ _ _. Some ''BIN'') (\<lambda>_. Some ''T'') ''/t'' ''s'' ''linux'' ''amd64'' = Inr a"
    by (simp add: build_one_def write_tar_gz_def release_files_def Let_def)
  then show ?thesis by (auto simp: demo_archive_of_def)
qed

lemma release_installs_witness:
  "\<exists>doc m art f'. run_manifest (\<lambda>_. replicate 64 (CHR ''A'')) (\<lambda>_. None) demo_disk (seconds 5) demo_flags_rel = Inr doc
     \<and> decode_manifest doc = Some m \<and> validate m = None \<and> f_version m = ''v3'' \<and> art \<in> set (f_artifacts m)
     \<and> download_and_extract (\<lambda>_. Some demo_archive_of) (\<lambda>_. replicate 64 (CHR ''A''))
         (Some \<lparr>d_status = 200, d_body = ''GZ'', d_broken = False\<rparr>) art ''/x'' \<lparr>nodes = Map.empty, faults = []\<rparr>
         = (Inr (a_size art), f')
     \<and> nodes f' (path_join [''/x'', worker_file]) = Some (File (Text ''BIN''))"
proof -
  obtain doc m0 where d: "run_manifest (\<lambda>_. replicate 64 (CHR ''A'')) (\<lambda>_. None) demo_disk (seconds 5)
      demo_flags_rel = Inr doc" and e: "decode_manifest doc = Some m0"
    and art: "\<exists>a \<in> set (f_artifacts m0). a_os a = ''linux'' \<and> a_arch a = ''amd64''" using demo_release by blast
  then obtain art where a: "art \<in> set (f_artifacts m0)" "a_os art = ''linux''" "a_arch art = ''amd64''" by blast
  have b: "\<forall>p b. demo_disk p = Some b \<longrightarrow> int (length b) < 2 ^ 63 - 1" by (simp add: demo_disk_def)
  have p: "path_join [''d'', tarball_name ''linux'' ''amd64''] = ''d/clawmast-linux-amd64.tar.gz''" by code_simp
  have pl: "plain_name (release_prefix ''linux'' ''amd64'')" by (simp add: release_prefix_def plain_name_def)
  let ?f = "\<lparr>nodes = Map.empty, faults = []\<rparr>"
  from release_installs [OF d b] e a(1) obtain bytes where
    v: "validate m0 = None" "f_version m0 = ''v3''" and
    got: "demo_disk (path_join [''d'', tarball_name ''linux'' ''amd64'']) = Some bytes"
    and i: "\<forall>a compile templates tdir tmp dir f untar. untar bytes = Some a \<and> tmp \<noteq> []
              \<and> build_one compile templates tmp tdir ''linux'' ''amd64'' = Inr a
              \<and> ''linux'' \<noteq> ''windows'' \<and> plain_name (release_prefix ''linux'' ''amd64'')
              \<and> faults f = [] \<and> nodes f (path_join [dir, worker_file]) \<noteq> Some Dir
            \<longrightarrow> (\<exists>bin f'. compile ''./cmd/clawmast'' ''linux'' ''amd64'' = Some bin
                  \<and> download_and_extract untar (\<lambda>_. replicate 64 (CHR ''A''))
                      (Some \<lparr>d_status = 200, d_body = bytes, d_broken = False\<rparr>) art dir f = (Inr (a_size art), f')
                  \<and> nodes f' (path_join [dir, worker_file]) = Some (File (Text bin)))"
    using a(2,3) by (fastforce simp: demo_flags_rel_def)
  have bytes: "bytes = ''GZ''" using got by (simp add: p demo_disk_def)
  obtain f' where "download_and_extract (\<lambda>_. Some demo_archive_of) (\<lambda>_. replicate 64 (CHR ''A''))
       (Some \<lparr>d_status = 200, d_body = ''GZ'', d_broken = False\<rparr>) art ''/x'' ?f = (Inr (a_size art), f')"
    "nodes f' (path_join [''/x'', worker_file]) = Some (File (Text ''BIN''))"
    using i [rule_format, of "\<lambda>_. Some demo_archive_of" demo_archive_of "''/t''" "\<lambda>_ _ _. Some ''BIN''"
        "\<lambda>_. Some ''T''" "''s''" ?f "''/x''"] demo_built pl bytes by auto
  with d e v a(1) show ?thesis by blast
qed

end
