(* ===== verification/Signing.thy ===== *)
theory Signing
  imports Release Auth
begin

section \<open>Keys, signatures and the compiler's command line (cmd/clawmast-release: main.go, build.go)\<close>

text \<open>
  The remaining subcommands of the release tool. The minisign library is an argument, a record
  of the functions the tool calls; what a key and a signature are is its business. The property
  joins the tool with the client of the updater: what one publishes the other accepts.
\<close>

record ('s, 'p) minisign =
  ms_generate :: "('p \<times> 's) option"
  ms_public_text :: "'p \<Rightarrow> string option"
  ms_private_text :: "'s \<Rightarrow> string option"
  ms_encrypted :: "string \<Rightarrow> bool"
  ms_parse_private :: "string \<Rightarrow> 's option"
  ms_sign :: "'s \<Rightarrow> string \<Rightarrow> string"
  ms_sign_with :: "'s \<Rightarrow> string \<Rightarrow> string \<Rightarrow> string \<Rightarrow> string"  \<comment> \<open>trusted and untrusted comment\<close>

datatype key_error = FlagMissing | GenerateFails | MarshalPublicFails | MarshalPrivateFails
  | KeyWrite os_error | StdoutFails | KeyReadFails os_error | KeyEncrypted | KeyMalformed
  | InputFails os_error | SigWrite os_error

definition run_keygen :: "('s, 'p) minisign \<Rightarrow> string \<Rightarrow> bool \<Rightarrow> fsys \<Rightarrow> key_error option \<times> string \<times> fsys" where
  \<comment> \<open>of the path and whether standard output can be written; the error, the output, the files\<close>
  "run_keygen ms path stdout_ok f =
     (if path = [] then (Some FlagMissing, [], f)
      else case ms_generate ms of
        None \<Rightarrow> (Some GenerateFails, [], f)
      | Some (pub, priv) \<Rightarrow>
     (case ms_public_text ms pub of
        None \<Rightarrow> (Some MarshalPublicFails, [], f)
      | Some pub_text \<Rightarrow>
     (case os_write_file path (Text pub_text) f of
        (Inl e, f) \<Rightarrow> (Some (KeyWrite e), [], f)
      | (Inr _, f) \<Rightarrow>
          (case ms_private_text ms priv of
             None \<Rightarrow> (Some MarshalPrivateFails, [], f)
           | Some priv_text \<Rightarrow>
               if stdout_ok then (None, priv_text @ [CHR 0x0A], f) else (Some StdoutFails, [], f)))))"

text \<open>The private key is never written to disk: the one file that changes holds the public key.\<close>

lemma keygen_writes_public_only:
  assumes "run_keygen ms path ok f = (r, out, f')" and "nodes f' q \<noteq> nodes f q"
  shows "q = path \<and> (\<exists>pub priv t. ms_generate ms = Some (pub, priv) \<and> ms_public_text ms pub = Some t
    \<and> nodes f' q = Some (File (Text t)))"
proof -
  have "nodes f' = nodes f \<or> (\<exists>pub priv t. ms_generate ms = Some (pub, priv) \<and> ms_public_text ms pub = Some t
      \<and> nodes f' = (nodes f)(path \<mapsto> File (Text t)))"
  proof (cases "ms_generate ms")
    case (Some k)
    obtain pub priv where k: "ms_generate ms = Some (pub, priv)" using Some by (cases k) auto
    show ?thesis
    proof (cases "path = [] \<or> ms_public_text ms pub = None")
      case False
      then obtain t where t: "ms_public_text ms pub = Some t" "path \<noteq> []" by auto
      show ?thesis
        by (rule os_write_file_E [of path "Text t" f])
          (use assms(1) k t in \<open>auto simp: run_keygen_def split: option.splits if_splits\<close>)
    qed (use assms(1) k in \<open>auto simp: run_keygen_def split: if_splits\<close>)
  qed (use assms(1) in \<open>auto simp: run_keygen_def split: if_splits\<close>)
  with assms(2) show ?thesis by (auto split: if_splits)
qed

record sign_flags =
  sf_key :: string
  sf_in :: string
  sf_out :: string
  sf_comment :: string

definition run_sign :: "('s, 'p) minisign \<Rightarrow> (json \<Rightarrow> string) \<Rightarrow> sign_flags \<Rightarrow> fsys \<Rightarrow> key_error option \<times> fsys" where
  "run_sign ms render fl f =
     (if sf_key fl = [] \<or> sf_in fl = [] \<or> sf_out fl = [] then (Some FlagMissing, f)
      else case os_read_file (sf_key fl) f of
        (Inl e, f) \<Rightarrow> (Some (KeyReadFails e), f)
      | (Inr key, f) \<Rightarrow>
     (if ms_encrypted ms (raw_bytes render key) then (Some KeyEncrypted, f)
      else case ms_parse_private ms (raw_bytes render key) of
        None \<Rightarrow> (Some KeyMalformed, f)
      | Some priv \<Rightarrow>
     (case os_read_file (sf_in fl) f of
        (Inl e, f) \<Rightarrow> (Some (InputFails e), f)
      | (Inr doc, f) \<Rightarrow>
          (let body = raw_bytes render doc;
               sig = (if sf_comment fl = [] then ms_sign ms priv body
                      else ms_sign_with ms priv body (sf_comment fl) ''clawmast-release'')
           in case os_write_file (sf_out fl) (Text sig) f of
                (Inl e, f) \<Rightarrow> (Some (SigWrite e), f) | (Inr _, f) \<Rightarrow> (None, f)))))"

lemma run_sign_signs:
  assumes "run_sign ms render fl f = (None, f')"
  shows "\<exists>key priv doc sig. nodes f (sf_key fl) = Some (File key) \<and> ms_parse_private ms (raw_bytes render key) = Some priv
    \<and> nodes f (sf_in fl) = Some (File doc) \<and> nodes f' (sf_out fl) = Some (File (Text sig))
    \<and> sig \<in> {ms_sign ms priv (raw_bytes render doc),
        ms_sign_with ms priv (raw_bytes render doc) (sf_comment fl) ''clawmast-release''}"
proof -
  obtain f1 r1 where k: "os_read_file (sf_key fl) f = (r1, f1)" "nodes f1 = nodes f"
    "\<And>c. r1 = Inr c \<Longrightarrow> nodes f (sf_key fl) = Some (File c)" by (rule os_read_file_E [of "sf_key fl" f]) blast
  obtain f2 r2 where i: "os_read_file (sf_in fl) f1 = (r2, f2)" "nodes f2 = nodes f1"
    "\<And>c. r2 = Inr c \<Longrightarrow> nodes f1 (sf_in fl) = Some (File c)" by (rule os_read_file_E [of "sf_in fl" f1]) blast
  from assms k(1) i(1) obtain key priv doc where
    e: "r1 = Inr key" "ms_parse_private ms (raw_bytes render key) = Some priv" "r2 = Inr doc"
    and w: "(case os_write_file (sf_out fl) (Text (if sf_comment fl = [] then ms_sign ms priv (raw_bytes render doc)
        else ms_sign_with ms priv (raw_bytes render doc) (sf_comment fl) ''clawmast-release'')) f2 of
       (Inl e, f) \<Rightarrow> (Some (SigWrite e), f) | (Inr _, f) \<Rightarrow> (None, f)) = (None, f')"
    by (auto simp: run_sign_def Let_def split: if_splits sum.splits option.splits)
  let ?sig = "if sf_comment fl = [] then ms_sign ms priv (raw_bytes render doc)
        else ms_sign_with ms priv (raw_bytes render doc) (sf_comment fl) ''clawmast-release''"
  have "nodes f' (sf_out fl) = Some (File (Text ?sig))"
    by (rule os_write_file_E [of "sf_out fl" "Text ?sig" f2]) (use w in auto)
  with e k i show ?thesis by (intro exI [of _ key] exI [of _ priv] exI [of _ doc] exI [of _ ?sig]) auto
qed

subsection \<open>The command line\<close>

definition go_build_argv :: "string \<Rightarrow> string \<Rightarrow> string \<Rightarrow> string \<Rightarrow> string \<Rightarrow> string list" where
  \<comment> \<open>of the output, the package, version, commit and build time\<close>
  "go_build_argv out pkg version commit build_time =
     [''go'', ''build'', ''-trimpath'', ''-ldflags'',
      ''-s -w -X github.com/clawmast/clawmast/internal/version.Version='' @ version
      @ '' -X github.com/clawmast/clawmast/internal/version.Commit='' @ commit
      @ '' -X github.com/clawmast/clawmast/internal/version.BuildTime='' @ build_time,
      ''-o'', out, pkg]"

definition go_build_env :: "string list \<Rightarrow> string \<Rightarrow> string \<Rightarrow> string list" where
  "go_build_env environ os arch = environ @ [''GOOS='' @ os, ''GOARCH='' @ arch, ''CGO_ENABLED=0'']"

datatype release_command = CmdKeygen "string list" | CmdSign "string list" | CmdBuild "string list"
  | CmdManifest "string list" | CmdHelp | CmdUsageError

definition release_dispatch :: "string list \<Rightarrow> release_command" where
  \<comment> \<open>of the arguments after the program's name\<close>
  "release_dispatch args =
     (case args of
        [] \<Rightarrow> CmdUsageError
      | a # rest \<Rightarrow>
          if a = ''keygen'' then CmdKeygen rest
          else if a = ''sign'' then CmdSign rest
          else if a = ''build'' then CmdBuild rest
          else if a = ''manifest'' then CmdManifest rest
          else if a \<in> {''-h'', ''--help'', ''help''} then CmdHelp
          else CmdUsageError)"

definition release_exit :: "release_command \<Rightarrow> bool \<Rightarrow> int" where
  \<comment> \<open>of the command and whether it succeeds\<close>
  "release_exit cmd ok =
     (case cmd of CmdUsageError \<Rightarrow> 2 | CmdHelp \<Rightarrow> 0 | _ \<Rightarrow> if ok then 0 else 1)"

subsection \<open>What is published is accepted\<close>

text \<open>
  C25: a published release reaches the workers. If the tool wrote the manifest and signed the
  file that holds it, a client of that channel which trusts the key and finds manifest and
  signature under its URLs accepts it, whatever the comment, and gets the released version with
  an artifact for every archive. Of the signature library it is used that a signature by the
  private key verifies under the public one.
\<close>
theorem signed_release_accepted:
  assumes "run_manifest sha256 read_dir disk now fl = Inr doc"
    and "\<forall>p b. disk p = Some b \<longrightarrow> int (length b) < 2 ^ 63"
    and "run_sign ms render sf f = (None, f')" and "nodes f (sf_in sf) = Some (File (Doc doc))"
    and "nodes f (sf_key sf) = Some (File key)" and "ms_parse_private ms (raw_bytes render key) = Some priv"
    and "\<forall>b u. verify (pub_key c) b (ms_sign ms priv b) \<and> verify (pub_key c) b (ms_sign_with ms priv b u ''clawmast-release'')"
    and "unmarshal (render doc) = Some doc" and "channel c = mf_channel fl"
    and "urls parse_url c = Inr (murl, surl)"
    and "net murl = Reply 200 (Some (render doc))" and "length (render doc) \<le> max_manifest_bytes"
    and "nodes f' (sf_out sf) = Some (File (Text sig))"
    and "net surl = Reply 200 (Some sig)" and "length sig \<le> max_manifest_bytes"
  shows "\<exists>m ts. check parse_url verify unmarshal net c = Inr m \<and> f_version m = mf_version fl
    \<and> resolve_targets read_dir (mf_dir fl) (mf_platforms fl) = Inr ts
    \<and> map (\<lambda>a. (a_os a, a_arch a)) (f_artifacts m) = ts"
proof -
  obtain m ts where m: "doc = encode_manifest m" "validate m = None" "f_version m = mf_version fl"
    "f_channel m = mf_channel fl" and t: "resolve_targets read_dir (mf_dir fl) (mf_platforms fl) = Inr ts"
    and h: "hash_artifacts sha256 disk (mf_dir fl) (trim_right_byte (CHR ''/'') (mf_base fl)) ts = Inr (f_artifacts m)"
    using run_manifest_cases [OF assms(1)] by metis
  have "\<forall>a \<in> set (f_artifacts m). in_int64 (a_size a)"
    using hash_artifacts_sound [OF h] assms(2) by (fastforce simp: in_int64_def)
  then have d: "decode_manifest doc = Some m" unfolding m(1) by (rule manifest_roundtrip)
  have names: "map (\<lambda>a. (a_os a, a_arch a)) as = ts'" if "hash_artifacts sha256 disk dd u ts' = Inr as" for dd u ts' as
    using that by (induction ts' arbitrary: as) (auto split: option.splits sum.splits)
  have "sig \<in> {ms_sign ms priv (render doc), ms_sign_with ms priv (render doc) (sf_comment sf) ''clawmast-release''}"
    using run_sign_signs [OF assms(3)] assms(4-6,13) by auto
  then have v: "verify (pub_key c) (render doc) sig" using assms(7) by auto
  have f: "fetch net murl True = Inr (render doc)" "fetch net surl False = Inr sig"
    using assms(11,12,14,15) by (simp_all add: fetch_def)
  have "check parse_url verify unmarshal net c = Inr m"
    using assms(8-10) f v d m(2,4) by (simp add: check_def)
  with m(3) t names [OF h] show ?thesis by blast
qed

definition demo_minisign :: "(int, int) minisign" where
  "demo_minisign = \<lparr>ms_generate = Some (7, 8), ms_public_text = (\<lambda>_. Some ''P''), ms_private_text = (\<lambda>_. Some ''K''),
     ms_encrypted = (\<lambda>_. False), ms_parse_private = (\<lambda>t. if t = ''K'' then Some 8 else None),
     ms_sign = (\<lambda>k b. if k = 8 then CHR ''S'' # b else []),
     ms_sign_with = (\<lambda>k b c u. if k = 8 then CHR ''S'' # b else [])\<rparr>"

definition demo_sign_flags :: sign_flags where
  "demo_sign_flags = \<lparr>sf_key = ''k'', sf_in = ''m'', sf_out = ''s'', sf_comment = ''c''\<rparr>"

lemma signed_release_accepted_witness:
  "\<exists>doc f' m. run_manifest (\<lambda>_. replicate 64 (CHR ''A'')) (\<lambda>_. None) demo_disk (seconds 5) demo_flags_rel = Inr doc
    \<and> run_sign demo_minisign (\<lambda>_. ''D'') demo_sign_flags
        \<lparr>nodes = [''k'' \<mapsto> File (Text ''K''), ''m'' \<mapsto> File (Doc doc)], faults = []\<rparr> = (None, f')
    \<and> check (\<lambda>_. Some ''https'') (\<lambda>k b s. k = 7 \<and> s = CHR ''S'' # b) (\<lambda>t. if t = ''D'' then Some doc else None)
        (\<lambda>u. if u = ''https://h/stable/manifest.json'' then Reply 200 (Some ''D'') else Reply 200 (Some ''SD''))
        (new_client ''https://h/'' ''stable'' (7 :: int)) = Inr m
    \<and> f_version m = ''v3''"
proof -
  obtain doc where d: "run_manifest (\<lambda>_. replicate 64 (CHR ''A'')) (\<lambda>_. None) demo_disk (seconds 5)
      demo_flags_rel = Inr doc" using demo_release by blast
  let ?f = "\<lparr>nodes = [''k'' \<mapsto> File (Text ''K''), ''m'' \<mapsto> File (Doc doc)], faults = []\<rparr>"
  let ?c = "new_client ''https://h/'' ''stable'' (7 :: int)"
  obtain f' where s: "run_sign demo_minisign (\<lambda>_. ''D'') demo_sign_flags ?f = (None, f')"
      "nodes f' ''s'' = Some (File (Text ''SD''))"
    by (simp add: run_sign_def demo_minisign_def demo_sign_flags_def os_read_file_def os_write_file_def Let_def)
  have b: "\<forall>p b. demo_disk p = Some b \<longrightarrow> int (length b) < 2 ^ 63" by (simp add: demo_disk_def)
  have u: "urls (\<lambda>_. Some ''https'') ?c =
      Inr (''https://h/stable/manifest.json'', ''https://h/stable/manifest.json.minisig'')"
    by (simp add: urls_def new_client_def default_channel_def trim_right_byte_def)
  from signed_release_accepted [OF d b s(1), of "Text ''K''" 8 "\<lambda>k b s. k = 7 \<and> s = CHR ''S'' # b" ?c
      "\<lambda>t. if t = ''D'' then Some doc else None" "\<lambda>_. Some ''https''" _ _
      "\<lambda>u. if u = ''https://h/stable/manifest.json'' then Reply 200 (Some ''D'') else Reply 200 (Some ''SD'')" "''SD''"]
    s(2) u
  obtain m where "check (\<lambda>_. Some ''https'') (\<lambda>k b s. k = 7 \<and> s = CHR ''S'' # b) (\<lambda>t. if t = ''D'' then Some doc else None)
        (\<lambda>u. if u = ''https://h/stable/manifest.json'' then Reply 200 (Some ''D'') else Reply 200 (Some ''SD'')) ?c = Inr m"
    "f_version m = ''v3''"
    by (auto simp: demo_minisign_def demo_sign_flags_def new_client_def demo_flags_rel_def max_manifest_bytes_def)
  with d s(1) show ?thesis by blast
qed

end
