(* ===== verification/Cli.thy ===== *)
theory Cli
  imports Worker
begin

section \<open>The subcommands for the terminal (cmd/clawmast: cmd_common, cmd_status, cmd_doctor, cmd_logs, cmd_open)\<close>

text \<open>
  The lookups the subcommands share, the rows and the exit status of doctor, the report of
  status, and the two ways logs reads a file. What the daemon answers, what a program prints and
  whether a port answers are arguments. Output is a list of lines.
\<close>

subsection \<open>Finding the installation\<close>

definition looks_like_install_root :: "string \<Rightarrow> fsys \<Rightarrow> bool \<times> fsys" where
  "looks_like_install_root dir f =
     (case os_is_dir (path_join [dir, ''state'']) f of
        (False, f) \<Rightarrow> (False, f) | (True, f) \<Rightarrow> os_is_dir (path_join [dir, ''versions'']) f)"

fun climb :: "nat \<Rightarrow> string \<Rightarrow> fsys \<Rightarrow> string \<times> fsys" where
  \<comment> \<open>the loop of \<^verbatim>\<open>rootFromExecutable\<close>, with the number of turns left\<close>
  "climb 0 dir f = ([], f)"
| "climb (Suc n) dir f =
     (case looks_like_install_root dir f of
        (True, f) \<Rightarrow> (dir, f)
      | (False, f) \<Rightarrow> if dir_of dir = dir then ([], f) else climb n (dir_of dir) f)"

definition root_from_executable :: "string option \<Rightarrow> (string \<Rightarrow> string option) \<Rightarrow> fsys \<Rightarrow> string \<times> fsys" where
  "root_from_executable exe eval f =
     (case exe of
        None \<Rightarrow> ([], f)
      | Some e \<Rightarrow> climb 4 (dir_of (case eval e of Some r \<Rightarrow> r | None \<Rightarrow> e)) f)"

definition lstat_ok :: "string \<Rightarrow> fsys \<Rightarrow> (os_error + unit) \<times> fsys" where
  "lstat_ok p = guarded (\<lambda>f. (if nodes f p = None then Inl NotExist else Inr (), f))"

definition resolve_cli_install_root ::
  "(string \<Rightarrow> string) \<Rightarrow> string option \<Rightarrow> (string \<Rightarrow> string option) \<Rightarrow> string option \<Rightarrow> fsys \<Rightarrow> string \<times> fsys" where
  \<comment> \<open>of the environment, the executable, \<^verbatim>\<open>EvalSymlinks\<close> and the home directory\<close>
  "resolve_cli_install_root env exe eval home f =
     (let a = trim_space (env ''CLAWMAST_INSTALL_ROOT''); b = trim_space (env ''CLAWMAST_HOME'')
      in if a \<noteq> [] then (a, f)
         else if b \<noteq> [] then (b, f)
         else case root_from_executable exe eval f of
           (c # cs, f) \<Rightarrow> (c # cs, f)
         | ([], f) \<Rightarrow>
             (case home of
                None \<Rightarrow> ([], f)
              | Some h \<Rightarrow>
                  if h = [] then ([], f)
                  else let legacy = path_join [h, ''.clawmast'']
                       in case lstat_ok (path_join [legacy, ''current'']) f of
                            (Inr _, f) \<Rightarrow> (legacy, f)
                          | (Inl _, f) \<Rightarrow>
                              (let xdg = path_join [h, ''.local'', ''share'', ''clawmast'']
                               in (xdg, snd (os_stat_ok xdg f)))))"

definition file_exists :: "string \<Rightarrow> fsys \<Rightarrow> bool \<times> fsys" where
  "file_exists p f = (case lstat_ok p f of (Inr _, f) \<Rightarrow> (True, f) | (Inl e, f) \<Rightarrow> (e \<noteq> NotExist, f))"

subsection \<open>Address and token\<close>

definition host_and_port :: "string \<Rightarrow> (string \<times> string) option" where
  \<comment> \<open>\<^verbatim>\<open>net.SplitHostPort\<close>: after the host comes a colon, with brackets a bracket before it\<close>
  "host_and_port s =
     map_option (\<lambda>h. (h, drop (length h + (if prefix ''['' s then 3 else 1)) s)) (split_host_port s)"

definition join_host_port :: "string \<Rightarrow> string \<Rightarrow> string" where
  "join_host_port h p = (if CHR '':'' \<in> set h then ''['' @ h @ '']:'' @ p else h @ '':'' @ p)"

definition resolve_agent_url :: "(string \<Rightarrow> string) \<Rightarrow> string" where
  "resolve_agent_url env =
     (let addr = trim_space (env ''CLAWMAST_HTTP_ADDR'');
          addr = (if addr = [] \<or> addr = ''off'' then default_addr else addr)
      in case host_and_port addr of
           None \<Rightarrow> ''http://'' @ addr @ ''/''
         | Some (h, p) \<Rightarrow>
             ''http://'' @ join_host_port (if h \<in> {[], ''0.0.0.0'', ''::''} then ''127.0.0.1'' else h) p @ ''/'')"

definition ellipsis :: string where "ellipsis = map char_of [226 :: nat, 128, 166]"

definition load_bearer_token :: "(json \<Rightarrow> string) \<Rightarrow> string \<Rightarrow> fsys \<Rightarrow> (string \<times> string) \<times> fsys" where
  \<comment> \<open>token and what is shown of it\<close>
  "load_bearer_token render dir f =
     (if dir = [] then (([], []), f)
      else case os_read_file (path_join [dir, ''token'']) f of
        (Inl _, f) \<Rightarrow> (([], []), f)
      | (Inr c, f) \<Rightarrow>
          (let t = trim_space (raw_bytes render c)
           in if t = [] then (([], []), f) else ((t, take 8 t @ ellipsis), f)))"

lemma agent_urls:
  "resolve_agent_url (\<lambda>_. []) = ''http://127.0.0.1:17080/''"
proof -
  have "host_and_port default_addr = Some (''127.0.0.1'', ''17080'')" by code_simp
  then show ?thesis by (simp add: resolve_agent_url_def join_host_port_def)
qed

lemma host_port_examples:
  "map host_and_port ['':80'', ''[::1]:9'', ''h'', ''1.2.3.4:5''] =
     [Some ([], ''80''), Some (''::1'', ''9''), None, Some (''1.2.3.4'', ''5'')]"
  by code_simp

text \<open>What the user sees of the token is at most eight of its characters.\<close>

lemma token_shown:
  assumes "load_bearer_token render dir f = ((t, shown), f')"
  shows "shown = (if t = [] then [] else take 8 t @ ellipsis)"
  using assms by (auto simp: load_bearer_token_def Let_def split: if_splits prod.splits sum.splits)

subsection \<open>Status\<close>

definition human_duration :: "int \<Rightarrow> string" where
  \<comment> \<open>of seconds, which \<^verbatim>\<open>time.Duration\<close> turns into nanoseconds\<close>
  "human_duration secs =
     (let d = wrap64 (secs * 1000000000); hour = 3600000000000; minute = 60000000000
      in if d \<ge> 24 * hour
         then show_int (d sdiv (24 * hour)) @ ''d'' @ show_int ((d smod (24 * hour)) sdiv hour) @ ''h''
         else if d \<ge> hour then show_int (d sdiv hour) @ ''h'' @ show_int ((d smod hour) sdiv minute) @ ''m''
         else if d \<ge> minute
         then show_int (d sdiv minute) @ ''m'' @ show_int ((d smod minute) sdiv 1000000000) @ ''s''
         else show_int (d sdiv 1000000000) @ ''s'')"

fun last_index :: "string \<Rightarrow> string \<Rightarrow> nat option" where
  \<comment> \<open>\<^verbatim>\<open>strings.LastIndex\<close>\<close>
  "last_index [] p = (if p = [] then Some 0 else None)"
| "last_index (c # s) p =
     (case last_index s p of Some i \<Rightarrow> Some (Suc i) | None \<Rightarrow> if prefix p (c # s) then Some 0 else None)"

definition short_err :: "string \<Rightarrow> string" where
  "short_err s =
     (case last_index s '': '' of
        None \<Rightarrow> s | Some i \<Rightarrow> if 0 < i \<and> i + 2 < length s then drop (i + 2) s else s)"

lemma short_err_examples:
  "map short_err [''dial tcp: refused'', ''a: b: c'', ''x'', '': y'', ''z: ''] = [''refused'', ''c'', ''x'', '': y'', ''z: '']"
  by code_simp

datatype http_answer = NoAnswer string | Answer int "string + string"
  \<comment> \<open>the error; the status and the body, or the error of reading it\<close>

record version_payload =
  vp_version :: string
  vp_supervisor :: string
  vp_root :: string
  vp_channel :: string

definition version_payload_field :: "version_payload \<Rightarrow> string \<times> json \<Rightarrow> version_payload option" where
  "version_payload_field p kv = (case kv of (k, v) \<Rightarrow>
     if equal_fold k ''version'' then map_option (\<lambda>x. p\<lparr>vp_version := x\<rparr>) (decode_string (vp_version p) v)
     else if equal_fold k ''supervisor_version''
     then map_option (\<lambda>x. p\<lparr>vp_supervisor := x\<rparr>) (decode_string (vp_supervisor p) v)
     else if equal_fold k ''install_root'' then map_option (\<lambda>x. p\<lparr>vp_root := x\<rparr>) (decode_string (vp_root p) v)
     else if equal_fold k ''channel'' then map_option (\<lambda>x. p\<lparr>vp_channel := x\<rparr>) (decode_string (vp_channel p) v)
     else Some p)"

definition health_payload_field :: "bool \<times> int \<Rightarrow> string \<times> json \<Rightarrow> (bool \<times> int) option" where
  "health_payload_field p kv = (case kv of (k, v) \<Rightarrow>
     if equal_fold k ''ok'' then map_option (\<lambda>x. (x, snd p)) (decode_bool (fst p) v)
     else if equal_fold k ''uptime_ms'' then map_option (\<lambda>x. (fst p, x)) (decode_int (snd p) v)
     else Some p)"

definition fetch_payload :: "nat \<Rightarrow> (string \<Rightarrow> string + json) \<Rightarrow> (json \<Rightarrow> 'p option) \<Rightarrow> string \<Rightarrow> http_answer \<Rightarrow> string + 'p" where
  \<comment> \<open>of the size limit, the JSON parser, the decoder and the text of its error\<close>
  "fetch_payload limit unmarshal decode mismatch a =
     (case a of
        NoAnswer e \<Rightarrow> Inl e
      | Answer n body \<Rightarrow>
          if n \<noteq> 200 then Inl (''status '' @ show_int n)
          else case body of
            Inl e \<Rightarrow> Inl e
          | Inr b \<Rightarrow>
              (case unmarshal (take limit b) of
                 Inl e \<Rightarrow> Inl e
               | Inr j \<Rightarrow> (case decode j of None \<Rightarrow> Inl mismatch | Some p \<Rightarrow> Inr p)))"

record daemon_api =
  da_get :: "string \<Rightarrow> string \<Rightarrow> http_answer"   \<comment> \<open>of the URL and the Authorization header\<close>
  da_unmarshal :: "string \<Rightarrow> string + json"
  da_mismatch :: string

definition fetch_version_payload :: "daemon_api \<Rightarrow> string \<Rightarrow> string \<Rightarrow> string + version_payload" where
  "fetch_version_payload d url tok =
     fetch_payload 32768 (da_unmarshal d)
       (decode_struct version_payload_field \<lparr>vp_version = [], vp_supervisor = [], vp_root = [], vp_channel = []\<rparr>)
       (da_mismatch d)
       (da_get d (trim_right_byte (CHR ''/'') url @ ''/api/version'') (if tok = [] then [] else ''Bearer '' @ tok))"

definition fetch_health_payload :: "daemon_api \<Rightarrow> string \<Rightarrow> string + bool \<times> int" where
  "fetch_health_payload d url =
     fetch_payload 16384 (da_unmarshal d) (decode_struct health_payload_field (False, 0)) (da_mismatch d)
       (da_get d (trim_right_byte (CHR ''/'') url @ ''/api/health'') [])"

definition encode_version :: "version_response \<Rightarrow> json" where
  "encode_version r = JObj ([(''version'', JStr (vr_version r)), (''label'', JStr (vr_label r)),
       (''commit'', JStr (vr_commit r)), (''build_time'', JStr (vr_build_time r)),
       (''go_version'', JStr (vr_go r)), (''full'', JStr (vr_full r))]
     @ (if vr_supervisor r = [] then [] else [(''supervisor_version'', JStr (vr_supervisor r))])
     @ (if vr_root r = [] then [] else [(''install_root'', JStr (vr_root r))])
     @ (if vr_channel r = [] then [] else [(''channel'', JStr (vr_channel r))]))"

text \<open>The CLI reads from the version endpoint what the server put there.\<close>

lemma version_payload_read:
  "decode_struct version_payload_field \<lparr>vp_version = [], vp_supervisor = [], vp_root = [], vp_channel = []\<rparr>
     (encode_version r) = Some \<lparr>vp_version = vr_version r, vp_supervisor = vr_supervisor r, vp_root = vr_root r,
       vp_channel = vr_channel r\<rparr>"
  by (simp add: encode_version_def version_payload_field_def equal_fold_def to_lower_def to_lower_char_def)

lemma version_fetched:
  assumes "da_get d (trim_right_byte (CHR ''/'') url @ ''/api/version'') (if tok = [] then [] else ''Bearer '' @ tok)
      = Answer (fst (handle_version b env s)) (Inr body)"
    and "da_unmarshal d (take 32768 body) = Inr (encode_version (snd (handle_version b env s)))"
  shows "\<exists>p. fetch_version_payload d url tok = Inr p \<and> vp_root p = ac_root (sv_cfg s)
    \<and> vp_channel p = ac_channel (sv_cfg s) \<and> vp_supervisor p = ac_supervisor (sv_cfg s)"
  using assms
  by (simp add: fetch_version_payload_def fetch_payload_def version_payload_read) (simp add: handle_version_def)

record daemon_view =
  dv_version :: "string + string \<times> string"   \<comment> \<open>the error, or supervisor version and channel\<close>
  dv_uptime :: "int option"                  \<comment> \<open>milliseconds, when /api/health answers\<close>

definition ask_daemon :: "daemon_api \<Rightarrow> string \<Rightarrow> string \<Rightarrow> daemon_view" where
  \<comment> \<open>of the URL and the token\<close>
  "ask_daemon d url tok =
     \<lparr>dv_version = map_sum id (\<lambda>p. (vp_supervisor p, vp_channel p)) (fetch_version_payload d url tok),
      dv_uptime = (case fetch_health_payload d url of Inl _ \<Rightarrow> None | Inr (_, ms) \<Rightarrow> Some ms)\<rparr>"

definition dash :: string where "dash = map char_of [226 :: nat, 128, 148]"

definition status_lines ::
  "string \<Rightarrow> string \<Rightarrow> string \<Rightarrow> string \<Rightarrow> daemon_view \<Rightarrow> discovery \<Rightarrow> string list" where
  \<comment> \<open>of the full version, the root, the URL, what is shown of the token, the daemon's answers
    and the discovered gateway\<close>
  "status_lines full root url fp dv disc =
     (let dir = path_join [root, ''state'']
      in [''clawmast '' @ full, ''  install root : '' @ root, ''  ui url       : '' @ url]
         @ [if fp \<noteq> [] then ''  bearer token : '' @ fp @ '' (stored in '' @ dir @ ''/token)''
            else ''  bearer token : (none '' @ dash @ '' has clawmastd ever booted here?)'']
         @ (case dv_version dv of
              Inr (sv, ch) \<Rightarrow>
                [''  daemon       : running'']
                @ (if sv \<noteq> [] then [''  supervisor   : '' @ sv] else [])
                @ (if ch \<noteq> [] then [''  channel      : '' @ ch] else [])
                @ (case dv_uptime dv of
                     Some ms \<Rightarrow> if ms > 0 then [''  uptime       : '' @ human_duration (ms sdiv 1000)] else []
                   | None \<Rightarrow> [])
            | Inl e \<Rightarrow> [''  daemon       : unreachable ('' @ short_err e @ '')'',
                       ''                 hint: run `clawmast doctor` for details''])
         @ (if d_path disc \<noteq> []
            then [''  openclaw     : '' @ d_path disc @ '' ('' @ source_str (d_source disc) @ '')'']
            else [''  openclaw     : not found'', ''                 set CLAWMAST_OPENCLAW_BIN or write the'',
                  ''                 absolute path to '' @ path_join [dir, ''openclaw.path'']]))"

definition run_status ::
  "string \<Rightarrow> (json \<Rightarrow> string) \<Rightarrow> (string \<Rightarrow> string) \<Rightarrow> string option \<Rightarrow> (string \<Rightarrow> string option) \<Rightarrow> string option
   \<Rightarrow> daemon_api \<Rightarrow> host \<Rightarrow> fsys \<Rightarrow> int \<times> string list" where
  "run_status full render env exe eval home d h f =
     (case resolve_cli_install_root env exe eval home f of
        ([], f) \<Rightarrow> (1, [])
      | (root, f) \<Rightarrow>
          (case load_bearer_token render (path_join [root, ''state'']) f of
             ((tok, fp), f) \<Rightarrow>
               (0, status_lines full root (resolve_agent_url env) fp (ask_daemon d (resolve_agent_url env) tok)
                  (discover h (path_join [root, ''state''])))))"

subsection \<open>Doctor\<close>

datatype check_state = CheckOK | CheckWarn | CheckFail

fun check_label :: "check_state \<Rightarrow> string" where
  "check_label CheckOK = ''OK  ''"
| "check_label CheckWarn = ''WARN''"
| "check_label CheckFail = ''FAIL''"

type_synonym row = "string \<times> check_state \<times> string"

definition first_output_line :: "string \<Rightarrow> string" where
  \<comment> \<open>of what a program printed\<close>
  "first_output_line out = hd (split_on (CHR 0x0A) (trim_space out))"

record doctor_env =
  de_version :: "string \<Rightarrow> string + string"   \<comment> \<open>running a program with version: its error or its output\<close>
  de_mode :: "string \<Rightarrow> int option"           \<comment> \<open>the permissions of a file\<close>
  de_on_path :: "string option"
  de_health :: "string option"               \<comment> \<open>the error of the health request\<close>
  de_listening :: bool
  de_octal :: "int \<Rightarrow> string"

fun tree_rows :: "string \<Rightarrow> string list \<Rightarrow> fsys \<Rightarrow> row list \<times> fsys" where
  "tree_rows root [] f = ([], f)"
| "tree_rows root (d # ds) f =
     (case file_exists (path_join [root, d]) f of
        (ok, f) \<Rightarrow>
          (case tree_rows root ds f of
             (rows, f) \<Rightarrow> ((d @ ''/'', (if ok then (CheckOK, path_join [root, d]) else (CheckFail, ''missing''))) # rows, f)))"

definition program_row :: "doctor_env \<Rightarrow> string \<Rightarrow> string \<Rightarrow> string \<Rightarrow> fsys \<Rightarrow> row \<times> fsys" where
  \<comment> \<open>of the two row names and the program\<close>
  "program_row d name missing p f =
     (case file_exists p f of
        (True, f) \<Rightarrow>
          ((name, (case de_version d p of Inr out \<Rightarrow> (CheckOK, first_output_line out) | Inl e \<Rightarrow> (CheckFail, e))), f)
      | (False, f) \<Rightarrow> ((missing, (CheckFail, ''missing '' @ p)), f))"

definition token_row :: "doctor_env \<Rightarrow> string \<Rightarrow> row" where
  "token_row d tok =
     (''bearer token'',
        (case de_mode d tok of
           Some m \<Rightarrow>
             if m = 384 then (CheckOK, tok @ '' (mode '' @ de_octal d m @ '')'')
             else (CheckWarn, tok @ '' has mode '' @ de_octal d m @ ''; expected 0600'')
         | None \<Rightarrow> (CheckWarn, ''missing '' @ dash @ '' will be generated on next clawmastd boot'')))"

definition reach_rows :: "doctor_env \<Rightarrow> string \<Rightarrow> row list" where
  \<comment> \<open>the command on the path and the health request\<close>
  "reach_rows d url =
     [(''clawmast on PATH'',
         (case de_on_path d of
            Some p \<Rightarrow> (CheckOK, p)
          | None \<Rightarrow> (CheckWarn, ''not on PATH '' @ dash @ '' run install.sh or symlink manually''))),
      (''daemon http'',
         (case de_health d of
            None \<Rightarrow> (CheckOK, url) | Some e \<Rightarrow> (CheckWarn, url @ '' unreachable ('' @ short_err e @ '')'')))]"

definition port_rows :: "doctor_env \<Rightarrow> string \<Rightarrow> row list" where
  "port_rows d url =
     (let hp = (if prefix ''http://'' url then drop 7 url else url);
          hp = (if suffix ''/'' hp then butlast hp else hp)
      in case host_and_port hp of
           None \<Rightarrow> []
         | Some (h, p) \<Rightarrow>
             [(''port '' @ p,
                 (if de_listening d then (CheckOK, ''listening on '' @ h)
                  else (CheckWarn, ''no listener '' @ dash @ '' clawmastd may be down'')))])"

definition openclaw_row :: "string \<Rightarrow> discovery \<Rightarrow> row" where
  "openclaw_row dir disc =
     (''openclaw'',
        (if d_path disc \<noteq> [] then (CheckOK, d_path disc @ '' ('' @ source_str (d_source disc) @ '')'')
         else (CheckWarn, ''not found '' @ dash @ '' set CLAWMAST_OPENCLAW_BIN or write ''
                 @ path_join [dir, ''openclaw.path''])))"

definition soft_rows :: "doctor_env \<Rightarrow> string \<Rightarrow> string \<Rightarrow> discovery \<Rightarrow> row list" where
  \<comment> \<open>the checks that only warn\<close>
  "soft_rows d dir url disc =
     [token_row d (path_join [dir, ''token''])] @ reach_rows d url @ port_rows d url @ [openclaw_row dir disc]"

definition fails :: "row list \<Rightarrow> nat" where
  "fails rows = length (filter (\<lambda>r. fst (snd r) = CheckFail) rows)"

definition tally :: "row list \<Rightarrow> int \<times> row list" where
  "tally rows = (if fails rows > 0 then 1 else 0, rows)"

definition run_doctor ::
  "doctor_env \<Rightarrow> (string \<Rightarrow> string) \<Rightarrow> string option \<Rightarrow> (string \<Rightarrow> string option) \<Rightarrow> string option \<Rightarrow> host \<Rightarrow> fsys
   \<Rightarrow> int \<times> row list" where
  "run_doctor d env exe eval home h f =
     (case resolve_cli_install_root env exe eval home f of
        (root, f) \<Rightarrow>
          (case file_exists root f of
             (False, f) \<Rightarrow> (1, [(''install root'', CheckFail, ''not found '' @ dash @ '' run scripts/install.sh'')])
           | (True, f) \<Rightarrow>
               (case tree_rows root [''bin'', ''versions'', ''state'', ''logs''] f of
                  (dirs, f) \<Rightarrow>
               (case program_row d ''clawmastd version'' ''clawmastd'' (path_join [root, ''bin'', ''clawmastd'']) f of
                  (r1, f) \<Rightarrow>
               (case program_row d ''clawmast version'' ''clawmast (current)''
                        (path_join [root, ''current'', ''clawmast'']) f of
                  (r2, f) \<Rightarrow>
                    tally ([(''install root'', CheckOK, root)] @ dirs @ [r1, r2]
                           @ soft_rows d (path_join [root, ''state'']) (resolve_agent_url env)
                               (discover h (path_join [root, ''state'']))))))))"

definition any_fail :: "row list \<Rightarrow> bool" where
  "any_fail rows \<longleftrightarrow> list_ex (\<lambda>r. fst (snd r) = CheckFail) rows"

lemma tally_exit: "tally rows = (n, rows') \<Longrightarrow> n = (if any_fail rows' then 1 else 0)"
proof -
  have "0 < fails rows \<longleftrightarrow> any_fail rows" for rows
    by (induction rows) (simp_all add: fails_def any_fail_def)
  then show "tally rows = (n, rows') \<Longrightarrow> n = (if any_fail rows' then 1 else 0)" by (auto simp: tally_def)
qed

lemma missing_root_fails: "any_fail [(a, CheckFail, b)]"
  by (simp add: any_fail_def)

lemma soft_rows_never_fail: "r \<in> set (soft_rows d dir url disc) \<Longrightarrow> fst (snd r) \<noteq> CheckFail"
proof -
  have "fst (snd (token_row d tok)) \<noteq> CheckFail" for tok by (simp add: token_row_def split: option.split)
  moreover have "\<forall>r \<in> set (reach_rows d url). fst (snd r) \<noteq> CheckFail"
    by (simp add: reach_rows_def split: option.split)
  moreover have "\<forall>r \<in> set (port_rows d url). fst (snd r) \<noteq> CheckFail"
    unfolding port_rows_def Let_def by (split option.split) (simp split: prod.split)
  moreover have "fst (snd (openclaw_row dir disc)) \<noteq> CheckFail" by (simp add: openclaw_row_def)
  ultimately show "r \<in> set (soft_rows d dir url disc) \<Longrightarrow> fst (snd r) \<noteq> CheckFail"
    unfolding soft_rows_def by auto
qed

text \<open>Doctor exits with 0 exactly when no row it printed is a FAIL, and otherwise with 1.\<close>

lemma doctor_exit:
  assumes "run_doctor d env exe eval home h f = (n, rows)"
  shows "n = (if any_fail rows then 1 else 0)"
  using assms unfolding run_doctor_def
  by (auto simp: missing_root_fails split: prod.splits bool.splits dest: tally_exit simp del: append.simps)

subsection \<open>Logs\<close>

definition max_read :: nat where "max_read = 4194304"

definition print_tail :: "int \<Rightarrow> string \<Rightarrow> string list option" where
  \<comment> \<open>of the number of lines and the file; \<open>None\<close> is the run-time panic of a slice out of range\<close>
  "print_tail n content =
     (let buf = drop (length content - max_read) content;
          lines = split_on (CHR 0x0A) (trim_right_byte (CHR 0x0A) buf)
      in if int (length lines) > n
         then (if n < 0 then None else Some (drop (length lines - nat n) lines))
         else Some lines)"

text \<open>A negative number of lines is not rejected: the program panics.\<close>

lemma negative_tail_panics: "n < 0 \<Longrightarrow> print_tail n content = None"
  by (simp add: print_tail_def Let_def)

lemma tail_length: "print_tail n content = Some ls \<Longrightarrow> 0 \<le> n \<Longrightarrow> int (length ls) \<le> n"
  by (auto simp: print_tail_def Let_def split: if_splits)

record log_file =
  lf_inode :: "int option"       \<comment> \<open>what the path names now\<close>
  lf_content :: "int \<Rightarrow> string"   \<comment> \<open>the bytes of each inode\<close>

fun follow_file :: "int \<Rightarrow> nat \<Rightarrow> log_file list \<Rightarrow> string" where
  \<comment> \<open>of the open inode and the position; one element of the list per poll, whose data is read
    first; then the path is looked up, and another inode is opened at its end\<close>
  "follow_file ino pos [] = []"
| "follow_file ino pos (s # ss) =
     (let got = drop pos (lf_content s ino); pos' = max pos (length (lf_content s ino))
      in got @ (case lf_inode s of
                  Some i \<Rightarrow> if i \<noteq> ino then follow_file i (length (lf_content s i)) ss
                            else follow_file ino pos' ss
                | None \<Rightarrow> follow_file ino pos' ss))"

text \<open>
  A truncated file keeps its inode: nothing is printed until it has grown past the old
  position. And what a rotated file holds when the follower finds it is never printed.
\<close>

lemma truncation_unnoticed:
  assumes "\<forall>s \<in> set ss. lf_inode s \<in> {None, Some ino} \<and> length (lf_content s ino) \<le> pos"
  shows "follow_file ino pos ss = []"
  using assms by (induction ss) (auto simp: Let_def max_def)

lemma rotation_skips:
  "follow_file 1 0 [\<lparr>lf_inode = Some 2, lf_content = (\<lambda>i. if i = 2 then ''first line'' else [])\<rparr>,
     \<lparr>lf_inode = Some 2, lf_content = (\<lambda>i. if i = 2 then ''first line, second'' else [])\<rparr>] = '', second''"
  by code_simp

definition run_logs :: "int \<Rightarrow> string \<Rightarrow> (string \<Rightarrow> string option) \<Rightarrow> (int \<times> (string \<times> string list option) list) option" where
  \<comment> \<open>without following, of the number of lines, the root and the files on disk: the status and the
    tails; \<open>None\<close> when printing panics\<close>
  "run_logs n root disk =
     (if root = [] then Some (1, [])
      else let files = map (\<lambda>b. path_join [root, ''logs'', b]) [''clawmastd.out.log'', ''clawmastd.err.log''];
               found = List.map_filter (\<lambda>p. map_option (\<lambda>c. (p, print_tail n c)) (disk p)) files
           in if found = [] then Some (1, [])
              else if None \<in> set (map snd found) then None else Some (0, found))"

subsection \<open>Open\<close>

definition browser_open_cmd :: "string \<Rightarrow> string \<Rightarrow> string list option" where
  \<comment> \<open>of the operating system and the URL\<close>
  "browser_open_cmd goos url =
     (if goos = ''darwin'' then Some [''open'', url]
      else if goos = ''linux'' then Some [''xdg-open'', url]
      else if goos = ''windows'' then Some [''rundll32'', ''url.dll,FileProtocolHandler'', url]
      else None)"

definition run_open :: "string \<Rightarrow> (string \<Rightarrow> string) \<Rightarrow> bool \<Rightarrow> int \<times> string \<times> string list option" where
  \<comment> \<open>of the operating system, the environment, and whether the program starts; status, the line printed and the command\<close>
  "run_open goos env starts =
     (let url = resolve_agent_url env
      in case browser_open_cmd goos url of
           None \<Rightarrow> (0, url, None) | Some cmd \<Rightarrow> (if starts then 0 else 1, url, Some cmd))"

end
