(* ===== verification/Lifecycle.thy ===== *)
theory Lifecycle
  imports Worker Supervisor
begin

section \<open>Worker and supervisor around one exit\<close>

text \<open>
  The steps that join the two programs: the worker's handler writes files and asks for an
  exit, the exit code decides the branch the supervisor takes, and what the next turn of its
  loop reads is what the handler wrote. The lemmas here are the single steps; the properties
  that chain them are in the root theory.
\<close>

subsection \<open>The version a link names\<close>

lemma split_on_single: "split_on c s = [y] \<Longrightarrow> s = y"
  by (induction s arbitrary: y) (auto split: if_splits list.splits)

lemma split_on_suffix: "suffix (last (split_on c s)) s"
proof (induction s)
  case (Cons x s)
  show ?case
  proof (cases "x = c")
    case True
    with Cons show ?thesis by (auto simp: suffix_Cons)
  next
    case False
    obtain y ys where y: "split_on c s = y # ys" by (cases "split_on c s") auto
    show ?thesis
    proof (cases "ys = []")
      case True
      with y split_on_single [of c s y] False show ?thesis by simp
    qed (use Cons y False in \<open>auto simp: suffix_Cons\<close>)
  qed
qed simp

lemma trim_right_byte_last: "s \<noteq> [] \<Longrightarrow> last s \<noteq> c \<Longrightarrow> trim_right_byte c s = s"
  by (cases s rule: rev_cases) (simp_all add: trim_right_byte_def)

lemma base_name_join:
  assumes "plain_name n" "r \<noteq> []"
  shows "base_name (path_join [r, n]) = n"
proof -
  let ?p = "path_join [r, n]"
  have l: "last (split_on (CHR ''/'') ?p) = n" using split_clean [OF assms] by simp
  with split_on_suffix [of "CHR ''/''" ?p] obtain h where p: "?p = h @ n" by (auto simp: suffix_def)
  have n: "n \<noteq> []" "CHR ''/'' \<notin> set n" using assms(1) by (simp_all add: plain_name_def)
  then have "last n \<noteq> CHR ''/''" using last_in_set by metis
  then have "trim_right_byte (CHR ''/'') ?p = ?p"
    unfolding p using n by (intro trim_right_byte_last) auto
  moreover have "?p \<noteq> []" using p n by simp
  ultimately show ?thesis using l by (simp add: base_name_def)
qed

definition recoverable :: "config \<Rightarrow> bl_entry list \<Rightarrow> fsys \<Rightarrow> bool" where
  \<comment> \<open>the blacklist can be read and replaced, and the swap's temporary name is free\<close>
  "recoverable c es f \<longleftrightarrow> nodes f (swap_tmp (c_root c)) \<noteq> Some Dir
     \<and> load (c_blacklist c) f = (Inr es, f) \<and> (\<forall>x \<in> set es. time_encodable (bl_time x))
     \<and> nodes f (c_blacklist c) \<noteq> Some Dir \<and> nodes f (tmp_of (c_blacklist c)) \<noteq> Some Dir
     \<and> nodes f (dir_of (c_blacklist c)) \<in> {None, Some Dir}"

lemma resolve_new:
  assumes "layout c" "faults f = []" "nodes f (current_link (c_root c)) = Some (Link (path_join [''versions'', v]))"
    and "plain_name v"
  shows "\<exists>path. resolve c f = (Inr (path, v), f)"
proof -
  have "resolve c f = resolve_current (c_root c) (c_binary c) f" using assms(1) by (simp add: layout_def)
  then show ?thesis
    using assms base_name_join [OF assms(4), of "''versions''"]
    by (simp add: resolve_current_def resolve_worker_binary_def os_readlink_def Let_def)
qed


subsection \<open>From the exit to the branch\<close>

lemma exit_outcome:
  assumes "on_event c v e st s = (Inl out, s')" and "e_kind e = SelExit (Some (Exited n))"
  shows "o_kind out = (if n = 64 then OutNoRestart else if n = 65 then OutRollback else OutCrash)"
    and "s_fs s' = s_fs s" "s_gate s' = s_gate s" "s_tracker s' = s_tracker s" "s_sleeps s' = s_sleeps s"
  using assms
  by (auto simp: on_event_def classify_outcome_def classify_exit_code_def demote_def record_history_def Let_def
      split: if_splits)

lemma worker_exit_served:
  assumes "run_worker w f = (r, f')" "wr_server r = Some s" "wk_ready w"
  shows "worker_exit (wr_error r) =
    (case wk_wake w of WakeHttp (Some _) \<Rightarrow> 1 | WakeRollback \<Rightarrow> 65 | _ \<Rightarrow> 0)"
proof -
  have "\<exists>r0. r = after_wake w r0 \<and> wr_error r0 = None"
    using assms by (auto simp: run_worker_def Let_def split: if_splits prod.splits sum.splits)
  then obtain r0 where r0: "r = after_wake w r0" "wr_error r0 = None" by blast
  have "worker_exit None = 0" by (simp add: worker_exit_def)
  with r0 show ?thesis by (auto simp: after_wake_exit split: wake.split option.split)
qed

lemma end_session_clean:
  assumes "layout c" "faults (s_fs s) = []"
  shows "faults (s_fs (end_session c s)) = []" "only_at {pid_path c} (s_fs s) (s_fs (end_session c s))"
  using keeps_remove_pid [OF assms] assms(2)
  by (auto simp: keeps_def end_session_def clear_pid_file_def only_at_def os_remove_def
      split: option.splits node.splits)

lemma end_session_rest: "s_gate (end_session c s) = s_gate s" "s_tracker (end_session c s) = s_tracker s"
  "s_sleeps (end_session c s) = s_sleeps s" "s_log (end_session c s) = s_log s"
  by (simp_all add: end_session_def clear_pid_file_def)

lemma load_same: "nodes g p = nodes f p \<Longrightarrow> faults f = [] \<Longrightarrow> faults g = [] \<Longrightarrow> fst (load p g) = fst (load p f)"
  by (simp add: load_def os_read_file_def split: option.splits node.splits content.splits)

text \<open>Removing the pid file touches nothing the supervisor reads.\<close>

lemma pid_path_apart:
  assumes "layout c" "only_at {pid_path c} f g" "q \<in> {current_link (c_root c), previous_link (c_root c),
    swap_tmp (c_root c), gate_marker_path (c_root c), c_blacklist c, tmp_of (c_blacklist c), dir_of (c_blacklist c)}"
  shows "nodes g q = nodes f q"
  using assms by (auto simp: layout_def only_at_def)

lemma recoverable_ended:
  assumes "layout c" "only_at {pid_path c} f g" "faults f = []" "faults g = []" "recoverable c es f"
  shows "recoverable c es g"
proof -
  have "load (c_blacklist c) g = (Inr es, g)"
    using assms(5) load_same [OF pid_path_apart [OF assms(1,2)] assms(3,4), of "c_blacklist c"]
      load_faults [OF assms(4), of "c_blacklist c"]
    by (cases "load (c_blacklist c) g") (auto simp: recoverable_def)
  with assms(5) pid_path_apart [OF assms(1,2)] show ?thesis by (simp add: recoverable_def)
qed

subsection \<open>The rollback when nothing fails\<close>

lemma rollback_clean:
  assumes lay: "layout c" and f: "faults (s_fs s) = []" "nodes (s_fs s) (current_link (c_root c)) = Some (Link a)"
    "nodes (s_fs s) (previous_link (c_root c)) = Some (Link b)" "a \<noteq> b"
    "nodes (s_fs s) (swap_tmp (c_root c)) \<noteq> Some Dir"
  shows "\<exists>s'. rollback c v reason msg s = (None, s') \<and> faults (s_fs s') = []
    \<and> link_at (s_fs s') (current_link (c_root c)) = Some b \<and> link_at (s_fs s') (previous_link (c_root c)) = Some a
    \<and> nodes (s_fs s') (gate_marker_path (c_root c)) = nodes (s_fs s) (gate_marker_path (c_root c))
    \<and> s_gate s' = s_gate s \<and> s_tracker s' = reset (s_tracker s) \<and> s_sleeps s' = s_sleeps s
    \<and> (\<exists>h. s_log s' = s_log s @ [h] \<and> h_event h = EvRollback \<and> h_version h = v \<and> h_reason h = reason)"
proof -
  note d = lay [unfolded layout_def]
  have "c_root c \<noteq> []" using d by blast
  from swap_clean [OF f(1) this f(2-5)] obtain g where
    g: "swap_current_previous (c_root c) (s_fs s) = (None, g)" "faults g = []"
    "nodes g = (nodes (s_fs s))(swap_tmp (c_root c) := None, current_link (c_root c) \<mapsto> Link b,
        previous_link (c_root c) \<mapsto> Link a)" by blast
  with d show ?thesis by (auto simp: rollback_def record_history_def link_at_def)
qed

subsection \<open>What the handlers leave for the supervisor\<close>

lemma add_now:
  "\<not> time_is_zero now \<Longrightarrow> add p \<lparr>bl_version = v, bl_time = 0, bl_reason = r\<rparr> now f =
     add p \<lparr>bl_version = v, bl_time = now, bl_reason = r\<rparr> now f"
  by (simp add: add_def time_is_zero_def)

lemma marked_state:
  assumes "handle_blacklist_add srv label body now f = (BlMarked view v reason requested, hook, f')"
    and "api_blacklist_path srv = Some (c_blacklist c)"
    and "layout c" "serviceable c a b es f" "\<not> time_is_zero now" "time_encodable now"
  shows "v \<noteq> []" and "banned c v f'" and "hook = requested" and "requested \<Longrightarrow> v = label"
    and "only_at {tmp_of (c_blacklist c), c_blacklist c, dir_of (c_blacklist c)} f f'"
proof -
  from assms(1,2) obtain es' where v: "v \<noteq> []" "hook = requested" "requested \<longrightarrow> v = label"
    and ad: "add (c_blacklist c) \<lparr>bl_version = v, bl_time = 0, bl_reason = reason\<rparr> now f = (Inr es', f')"
    by (auto simp: handle_blacklist_add_def Let_def split: option.splits if_splits prod.splits sum.splits)
  from add_serviceable [OF assms(3,4), of "\<lparr>bl_version = v, bl_time = now, bl_reason = reason\<rparr>" now]
    ad v(1) assms(5,6)
  have "banned c v f' \<and> only_at {tmp_of (c_blacklist c), c_blacklist c, dir_of (c_blacklist c)} f f'"
    by (simp add: add_now)
  with v show "v \<noteq> []" "banned c v f'" "hook = requested" "requested \<Longrightarrow> v = label"
    "only_at {tmp_of (c_blacklist c), c_blacklist c, dir_of (c_blacklist c)} f f'" by blast+
qed

definition on_trial :: "config \<Rightarrow> string \<Rightarrow> string \<Rightarrow> instant \<Rightarrow> fsys \<Rightarrow> bool" where
  \<comment> \<open>version \<open>v\<close> is installed over the target \<open>a\<close>, and its trial is still to come\<close>
  "on_trial c v a now f \<longleftrightarrow> faults f = []
     \<and> nodes f (current_link (c_root c)) = Some (Link (path_join [''versions'', v]))
     \<and> nodes f (previous_link (c_root c)) = Some (Link a) \<and> a \<noteq> path_join [''versions'', v]
     \<and> nodes f (gate_marker_path (c_root c)) =
         Some (File (Doc (encode_marker \<lparr>m_version = v, m_installed_at = now\<rparr>)))"

lemma installed_state:
  assumes "handle_update_install w label now srv f = (rep, True, f')" and "ac_root (sv_cfg srv) = c_root c"
    and "updatable (c_root c) (i_version rep) a f" and "\<not> time_is_zero now" and "time_encodable now"
  shows "on_trial c (i_version rep) a now f'"
  using assms(1)
proof (cases rule: install_cases)
  case (installed k m r)
  let ?cfg = "\<lparr>p_root = ac_root (sv_cfg srv), p_current = label, p_manifest = Some m\<rparr>"
  have v: "i_version rep = f_version m" using installed by simp
  have up: "updatable (p_root ?cfg) (f_version m) a f" using assms(2,3) v by simp
  from update_effect [OF installed(5) _ up assms(4,5), simplified] v assms(2) up show ?thesis
    by (auto simp: on_trial_def link_at_def updatable_def split: option.splits node.splits)
qed simp

lemma on_trial_ended:
  assumes "layout c" "only_at {pid_path c} f g" "faults g = []" "on_trial c v a now f"
  shows "on_trial c v a now g"
  using assms(3,4) pid_path_apart [OF assms(1,2)] by (simp add: on_trial_def)

lemma on_trial_serviceable:
  assumes "on_trial c v a now f" "recoverable c es f"
  shows "serviceable c (path_join [''versions'', v]) a es f"
  using assms by (auto simp: on_trial_def recoverable_def serviceable_def)

lemma gate_armed_on_trial:
  assumes "on_trial c v a now (s_fs s)" "v \<noteq> []" "start < now + window (s_gate s)"
  shows "\<exists>g. prepare_gate c v start s = s\<lparr>s_gate := g\<rparr> \<and> is_active g \<and> gversion g = v"
proof -
  have cl: "faults (s_fs s) = []" and mark: "nodes (s_fs s) (gate_marker_path (c_root c)) =
      Some (File (Doc (encode_marker \<lparr>m_version = v, m_installed_at = now\<rparr>)))"
    using assms(1) by (simp_all add: on_trial_def)
  have same: "s\<lparr>s_fs := s_fs s, s_gate := g\<rparr> = s\<lparr>s_gate := g\<rparr>" for g by (cases s) simp
  show ?thesis
    using read_marker_clean [OF cl mark] assms(2,3)
    by (intro exI [of _ "(gate_reset (s_gate s))\<lparr>gstate := GateArmed, gversion := v,
          deadline := now + window (s_gate s), ready_at := 0, gfail := NoFail\<rparr>"])
      (simp add: prepare_gate_def arm_def gate_reset_def time_before_def time_add_def Let_def is_active_def same)
qed

lemma turn_on_trial:
  assumes "layout c" "on_trial c v a now (s_fs s)" "plain_name v" "recoverable c es (s_fs s)" "\<not> contains es v"
    and "start < now + window (s_gate s)"
  shows "\<exists>path g. resolve c (s_fs s) = (Inr (path, v), s_fs s) \<and> check_blacklist c v s = (Inr False, s)
    \<and> prepare_gate c v start s = s\<lparr>s_gate := g\<rparr> \<and> is_active g \<and> gversion g = v"
proof -
  have v: "v \<noteq> []" using assms(3) by (simp add: plain_name_def)
  have cl: "faults (s_fs s) = []" "nodes (s_fs s) (current_link (c_root c)) = Some (Link (path_join [''versions'', v]))"
    using assms(2) by (simp_all add: on_trial_def)
  obtain path where "resolve c (s_fs s) = (Inr (path, v), s_fs s)"
    using resolve_new [OF assms(1) cl assms(3)] by blast
  moreover have "check_blacklist c v s = (Inr False, s)"
    using assms(4,5) v by (simp add: check_blacklist_def recoverable_def)
  ultimately show ?thesis using gate_armed_on_trial [OF assms(2) v assms(6)] by blast
qed

lemma listed_turn:
  assumes "layout c" "banned c v (s_fs s)" "\<not> t_cancelled t"
    and "nodes (s_fs s) (current_link (c_root c)) = Some (Link (path_join [''versions'', v]))" "plain_name v"
    and "nodes (s_fs s) (previous_link (c_root c)) = Some (Link b)" "b \<noteq> path_join [''versions'', v]"
    and "nodes (s_fs s) (swap_tmp (c_root c)) \<noteq> Some Dir"
  shows "\<exists>s'. loop_step c t s = (Again, s') \<and> rollback c v ''blacklisted''
      ''blacklisted version with no rollback target'' s = (None, s')"
proof -
  have cl: "faults (s_fs s) = []" by (rule banned_clean [OF assms(2)])
  from assms(2) obtain es where es: "nodes (s_fs s) (c_blacklist c) = Some (File (Doc (JArr (map encode_entry es))))"
    "contains es v" by (auto simp: banned_def)
  obtain path where r: "resolve c (s_fs s) = (Inr (path, v), s_fs s)"
    using resolve_new [OF assms(1) cl assms(4,5)] by blast
  obtain s' where s': "rollback c v ''blacklisted'' ''blacklisted version with no rollback target'' s = (None, s')"
    using rollback_clean [OF assms(1) cl assms(4,6) _ assms(8)] assms(7) by blast
  have "c_blacklist c \<noteq> []" "v \<noteq> []" using assms(1,5) by (simp_all add: layout_def plain_name_def)
  with load_clean [OF cl es(1)] es(2) s' have cb: "check_blacklist c v s = (Inr True, s')"
    by (simp add: check_blacklist_def)
  show ?thesis using assms(3) r cb s' by (simp add: loop_step_def)
qed

subsection \<open>A worker that leaves after an update\<close>

definition update_exit ::
  "config \<Rightarrow> 'k world \<Rightarrow> 'k process \<Rightarrow> string \<Rightarrow> string \<Rightarrow> string \<Rightarrow> instant \<Rightarrow> fsys \<Rightarrow> fsys \<Rightarrow> event \<Rightarrow> bool" where
  \<comment> \<open>the worker of version \<open>label\<close>, whose target is \<open>a\<close>, reports version \<open>v\<close> as installed, which
    takes the files from \<open>f\<close> to \<open>f'\<close>, wakes up for the restart and ends with the event \<open>e\<close>\<close>
  "update_exit c wd w label a v now f f' e \<longleftrightarrow> (\<exists>g g' r srv rep.
     run_worker w g = (r, g') \<and> wr_server r = Some srv \<and> wk_ready w \<and> wk_wake w = WakeRestart
     \<and> ac_root (sv_cfg srv) = c_root c \<and> handle_update_install wd label now srv f = (rep, True, f')
     \<and> i_version rep = v \<and> updatable (c_root c) v a f \<and> \<not> time_is_zero now \<and> time_encodable now
     \<and> e_kind e = SelExit (Some (Exited (worker_exit (wr_error r)))))"

lemma update_exit_state:
  assumes "update_exit c wd w label a v now f f' e" and "layout c" and "on_event c label e st s = (Inl out, s1)"
    and "s_fs s = f'"
  defines "s2 \<equiv> end_session c s1"
  shows "o_kind out = OutCrash" "on_trial c v a now (s_fs s2)" "only_at {pid_path c} f' (s_fs s2)"
    "faults f' = []" "s_gate s2 = s_gate s" "s_tracker s2 = s_tracker s"
proof -
  from assms(1) obtain g g' r srv rep where u: "run_worker w g = (r, g')" "wr_server r = Some srv" "wk_ready w"
    "wk_wake w = WakeRestart" "ac_root (sv_cfg srv) = c_root c" "i_version rep = v"
    "handle_update_install wd label now srv f = (rep, True, f')" "updatable (c_root c) v a f"
    "\<not> time_is_zero now" "time_encodable now"
    "e_kind e = SelExit (Some (Exited (worker_exit (wr_error r))))" by (auto simp: update_exit_def)
  have k: "e_kind e = SelExit (Some (Exited 0))"
    using u(11) worker_exit_served [OF u(1-3)] u(4) by simp
  note x = exit_outcome [OF assms(3) k]
  show "o_kind out = OutCrash" using x(1) by simp
  have t: "on_trial c v a now f'" using installed_state [OF u(7,5)] u(6,8-10) by simp
  then show cl: "faults f' = []" by (simp add: on_trial_def)
  have f: "faults (s_fs s1) = []" "s_fs s1 = f'" using cl x(2) assms(4) by simp_all
  note en = end_session_clean [OF assms(2) f(1)]
  show o: "only_at {pid_path c} f' (s_fs s2)" using en(2) f(2) by (simp add: s2_def)
  show "on_trial c v a now (s_fs s2)"
    using on_trial_ended [OF assms(2) o _ t] en(1) by (simp add: s2_def)
  show "s_gate s2 = s_gate s" "s_tracker s2 = s_tracker s" using x(3,4) by (simp_all add: s2_def end_session_rest)
qed

subsection \<open>A worker and its exit, for the witnesses\<close>

definition demo_leaver :: "wake \<Rightarrow> int process" where
  "demo_leaver k = \<lparr>wk_env = (\<lambda>n. if n = ''CLAWMAST_UPDATE_URL'' then ''https://h/''
       else if n = ''CLAWMAST_INSTALL_ROOT'' then ''/r'' else []),
     wk_exe = None, wk_eval = (\<lambda>_. None), wk_home = None, wk_pid = 5, wk_sd = SdOpen,
     wk_parse_key = (\<lambda>_. None), wk_dev_key = 7, wk_random = Some ''01234567'', wk_render = (\<lambda>_. []),
     wk_ready = True, wk_stopping = True, wk_wake = k\<rparr>"

lemma demo_leaver_runs:
  "\<exists>r g' srv. run_worker (demo_leaver k) demo_tree = (r, g') \<and> wr_server r = Some srv
    \<and> ac_root (sv_cfg srv) = ''/r'' \<and> sv_updater srv = Some (new_client ''https://h/'' ''stable'' 7)
    \<and> ac_restart (sv_cfg srv) \<and> ac_rollback (sv_cfg srv)"
proof -
  let ?w = "demo_leaver k"
  have root: "resolve_install_root (wk_env ?w) (wk_exe ?w) (wk_eval ?w) demo_tree = (''/r'', demo_tree)"
    by (simp add: resolve_install_root_def demo_leaver_def)
  have "\<exists>b g. boot_server ?w ''/r'' demo_tree = (Inr b, g) \<and> ac_root (sv_cfg (fst b)) = ''/r''
      \<and> sv_updater (fst b) = Some (new_client ''https://h/'' ''stable'' 7)
      \<and> ac_restart (sv_cfg (fst b)) \<and> ac_rollback (sv_cfg (fst b))"
    by (simp add: boot_server_def load_update_pub_key_def load_or_create_token_def create_token_def
        resolve_state_dir_def demo_tree_paths demo_leaver_def Let_def os_defs demo_tree_def
        resolve_channel_def read_preference_def channel_file_name_def new_server_def env_or_def default_addr_def channel_stable_def)
  then obtain s tk g where b: "boot_server ?w ''/r'' demo_tree = (Inr (s, tk), g)" "ac_root (sv_cfg s) = ''/r''"
      "sv_updater s = Some (new_client ''https://h/'' ''stable'' 7)"
      "ac_restart (sv_cfg s)" "ac_rollback (sv_cfg s)" by force
  have a: "env_or (wk_env ?w) ''CLAWMAST_HTTP_ADDR'' default_addr = default_addr" "default_addr \<noteq> ''off''"
    by (simp_all add: env_or_def default_addr_def demo_leaver_def)
  have p: "watchdog_pid_matches (wk_env ?w ''WATCHDOG_PID'') (wk_pid ?w)"
    by (simp add: watchdog_pid_matches_def demo_leaver_def)
  have k: "wr_server (after_wake ?w r0) = wr_server r0" for r0
    by (auto simp: after_wake_def Let_def split: wake.split option.split)
  have sd: "wk_sd ?w = SdOpen" "wk_ready ?w" by (simp_all add: demo_leaver_def)
  have "\<exists>r g'. run_worker ?w demo_tree = (r, g') \<and> wr_server r = Some s"
    using a p sd by (simp add: run_worker_def Let_def root b(1) k supervised_def)
  with b(2-) show ?thesis by blast
qed

lemma demo_install_at:
  assumes "ac_root (sv_cfg srv) = ''/r''" "sv_updater srv = Some (new_client ''https://h/'' ''stable'' 7)"
    "ac_restart (sv_cfg srv)" "demo_update = (Inr res, f')"
  shows "\<exists>rep. handle_update_install demo_world ''v1'' (seconds 100) srv one_version_fs = (rep, True, f')
    \<and> i_version rep = ''v2''"
proof -
  have "f_version demo_manifest = ''v2''" by (simp add: demo_manifest_def)
  with assms show ?thesis
    by (simp add: handle_update_install_def demo_checked) (simp add: demo_world_def demo_apply_def)
qed

definition demo_exit :: "int \<Rightarrow> event" where
  "demo_exit n = \<lparr>e_at = seconds 105, e_kind = SelExit (Some (Exited n))\<rparr>"

definition demo_session :: sess where
  "demo_session = start_session demo_config (seconds 90) (demo_sup \<lparr>nodes = Map.empty, faults = []\<rparr>)"

lemma demo_exit_taken: "\<exists>out s1. on_event demo_config v (demo_exit n) demo_session s = (Inl out, s1)"
  by (simp add: on_event_def demo_exit_def split_def Let_def)

lemma demo_names: "path_join [''versions'', ''v1''] = ''versions/v1''" "c_root demo_config = ''/r''"
  "c_blacklist demo_config = ''/r/state/blacklist.json''" "plain_name ''v1''" "plain_name ''v2''"
proof -
  show "path_join [''versions'', ''v1''] = ''versions/v1''" by code_simp
qed (simp_all add: demo_config_def plain_name_def)

lemma demo_update_exit:
  assumes "demo_update = (Inr res, f')"
  shows "update_exit demo_config demo_world (demo_leaver WakeRestart) ''v1'' ''versions/v1'' ''v2'' (seconds 100)
      one_version_fs f' (demo_exit 0)"
    and "recoverable demo_config [] f'"
proof -
  obtain r g' srv where w: "run_worker (demo_leaver WakeRestart) demo_tree = (r, g')" "wr_server r = Some srv"
    "ac_root (sv_cfg srv) = ''/r''" "sv_updater srv = Some (new_client ''https://h/'' ''stable'' 7)"
    "ac_restart (sv_cfg srv)" using demo_leaver_runs by blast
  have l: "wk_ready (demo_leaver WakeRestart)" "wk_wake (demo_leaver WakeRestart) = WakeRestart"
    by (simp_all add: demo_leaver_def)
  obtain rep where h: "handle_update_install demo_world ''v1'' (seconds 100) srv one_version_fs = (rep, True, f')"
    "i_version rep = ''v2''" using demo_install_at [OF w(3-5) assms] by blast
  have "worker_exit (wr_error r) = 0" using worker_exit_served [OF w(1,2) l(1)] l(2) by simp
  then show "update_exit demo_config demo_world (demo_leaver WakeRestart) ''v1'' ''versions/v1'' ''v2'' (seconds 100)
      one_version_fs f' (demo_exit 0)"
    unfolding update_exit_def using w(1-3) h l demo_updatable
    by (intro exI [of _ demo_tree] exI [of _ g'] exI [of _ r] exI [of _ srv] exI [of _ rep])
      (simp add: demo_names demo_exit_def time_is_zero_def time_encodable_def)
  have f: "nodes f' ''/r/.swap.tmp'' = None" "nodes f' ''/r/state/blacklist.json'' = None"
    "nodes f' ''/r/state/blacklist.json.tmp'' = None" "nodes f' ''/r/state'' = Some Dir" "faults f' = []"
    using demo_update_free unfolding assms by simp_all
  then show "recoverable demo_config [] f'"
    unfolding recoverable_def demo_names demo_paths by (simp add: load_def os_read_file_def)
qed

end
