(* ===== verification/Layout.thy ===== *)
theory Layout
  imports Supervisor SelfUpdate Paths
begin

section \<open>The install tree\<close>

text \<open>
  Where the files lie that the worker and the supervisor share. \<open>store_apart\<close> says that
  nothing an installation builds or clears is one of the files the supervisor keeps;
  \<open>defaults_layout\<close> and \<open>defaults_apart\<close> derive it, with \<open>layout\<close>, for every configuration that
  \<^verbatim>\<open>withDefaults\<close> completes from an absolute root and no other path.
\<close>

definition stored :: "config \<Rightarrow> string set" where
  \<comment> \<open>the paths the supervisor reads and writes for its decisions\<close>
  "stored c = {current_link (c_root c), previous_link (c_root c), swap_tmp (c_root c),
     gate_marker_path (c_root c), tmp_of (gate_marker_path (c_root c)), dir_of (gate_marker_path (c_root c)),
     c_blacklist c, tmp_of (c_blacklist c), dir_of (c_blacklist c)}"

definition store_apart :: "config \<Rightarrow> bool" where
  "store_apart c \<longleftrightarrow>
     (\<forall>v q. plain_name v \<longrightarrow> q \<in> stored c \<longrightarrow> protected_path (c_root c) v q)
     \<and> {c_blacklist c, tmp_of (c_blacklist c), swap_tmp (c_root c), current_link (c_root c), previous_link (c_root c)}
         \<inter> marker_paths (c_root c) = {}
     \<and> dir_of (c_blacklist c) \<notin> {gate_marker_path (c_root c), tmp_of (gate_marker_path (c_root c))}
     \<and> dir_of (gate_marker_path (c_root c)) \<notin> {gate_marker_path (c_root c), tmp_of (gate_marker_path (c_root c))}"

subsection \<open>Equality and nesting of spelt paths\<close>

lemma abs_path_inj: "list_all plain_name es \<Longrightarrow> list_all plain_name fs \<Longrightarrow> abs_path es = abs_path fs \<longleftrightarrow> es = fs"
  using clean_elems_abs by metis

lemma tmp_of_snoc: "tmp_of (abs_path (es @ [n])) = abs_path (es @ [n @ ''.tmp''])"
  by (simp add: tmp_of_def abs_path_snoc)

lemma split_on_middle: "split_on c (r @ c # q) = split_on c r @ split_on c q"
proof (induction r)
  case (Cons x r)
  obtain y ys where "split_on c r = y # ys" by (cases "split_on c r"; cases r) (auto split: if_splits list.splits)
  with Cons show ?case by simp
qed simp

lemma split_abs_path:
  assumes "list_all plain_name es" "es \<noteq> []"
  shows "split_on (CHR ''/'') (abs_path es) = [] # es"
  using split_plain [OF assms] by (simp add: abs_path_def)

lemma below_abs_path:
  assumes "list_all plain_name es" "list_all plain_name fs" "es \<noteq> []" "below (abs_path es) (abs_path fs)"
  shows "\<exists>r. fs = es @ r"
proof -
  from assms(4) obtain q where q: "abs_path fs = abs_path es @ CHR ''/'' # q"
    by (auto simp: below_def prefix_def)
  have "fs \<noteq> []"
  proof
    assume "fs = []"
    with q have "length (abs_path es @ CHR ''/'' # q) = 1" by (simp add: abs_path_def)
    then show False by (simp add: abs_path_def)
  qed
  from split_abs_path [OF assms(2) this] split_abs_path [OF assms(1,3)]
  have "fs = es @ split_on (CHR ''/'') q" unfolding q split_on_middle by simp
  then show ?thesis ..
qed

lemma tree_abs_path:
  assumes "list_all plain_name es" "list_all plain_name fs" "es \<noteq> []" "abs_path fs \<in> tree (abs_path es)"
  shows "\<exists>r. fs = es @ r"
  using assms abs_path_inj [OF assms(1,2)] below_abs_path [OF assms(1-3)] by (auto simp: tree_def)

subsection \<open>The default layout\<close>

lemma default_names:
  "plain_name ''versions''" "plain_name ''current''" "plain_name ''previous''" "plain_name ''.swap.tmp''"
  "plain_name ''state''" "plain_name ''run''" "plain_name ''install-gate.json''" "plain_name ''blacklist.json''"
  "plain_name ''worker.pid''" "plain_name ''install-gate.json.tmp''" "plain_name ''blacklist.json.tmp''"
  "plain_name ''clawmast''" "plain_name ''MANIFEST.json''"
  by (simp_all add: plain_name_def)

lemma plain_staging: "plain_name v \<Longrightarrow> plain_name (''.'' @ v @ ''.partial'')"
  by (simp add: plain_name_def)

definition standard :: "string list \<Rightarrow> config \<Rightarrow> bool" where
  \<comment> \<open>the paths \<^verbatim>\<open>withDefaults\<close> derives from an absolute root\<close>
  "standard es c \<longleftrightarrow> list_all plain_name es \<and> c_root c = abs_path es
     \<and> c_blacklist c = path_join [c_root c, ''state'', ''blacklist.json'']
     \<and> c_run_dir c = path_join [c_root c, ''run'']
     \<and> resolve c = resolve_current (c_root c) (c_binary c)"

lemma defaults_standard:
  assumes "with_defaults c = Inr c'" "list_all plain_name es" "c_root c = abs_path es"
    and "c_blacklist c = []" "c_run_dir c = []" "c_resolve c = None"
  shows "standard es c'"
proof -
  let ?o = "default_paths (default_scalars c)"
  have r: "c_root (default_scalars c) = c_root c" "c_resolve (default_scalars c) = c_resolve c"
    "c_blacklist (default_scalars c) = c_blacklist c" "c_run_dir (default_scalars c) = c_run_dir c"
    by (simp_all add: default_scalars_def)
  have c': "c' = ?o\<lparr>c_resolve := Some (resolve_current (c_root ?o) (c_binary ?o))\<rparr>"
    using assms(1,6) r by (auto simp: with_defaults_def Let_def frame split: if_splits)
  have "c_blacklist ?o = path_join [c_root c, ''state'', ''blacklist.json'']" "c_run_dir ?o = path_join [c_root c, ''run'']"
    using assms(3-5) r is_abs_path(2) [of es] by (simp_all add: default_paths_def)
  with assms(2,3) r(1) show ?thesis unfolding c' by (simp add: standard_def resolve_def frame)
qed

lemma standard_paths:
  assumes "standard es c"
  shows "current_link (c_root c) = abs_path (es @ [''current''])"
    "previous_link (c_root c) = abs_path (es @ [''previous''])"
    "swap_tmp (c_root c) = abs_path (es @ [''.swap.tmp''])"
    "gate_marker_path (c_root c) = abs_path (es @ [''state'', ''install-gate.json''])"
    "tmp_of (abs_path (es @ [''state'', ''install-gate.json''])) = abs_path (es @ [''state'', ''install-gate.json.tmp''])"
    "dir_of (abs_path (es @ [''state'', ''install-gate.json''])) = abs_path (es @ [''state''])"
    "c_blacklist c = abs_path (es @ [''state'', ''blacklist.json''])"
    "tmp_of (abs_path (es @ [''state'', ''blacklist.json''])) = abs_path (es @ [''state'', ''blacklist.json.tmp''])"
    "dir_of (abs_path (es @ [''state'', ''blacklist.json''])) = abs_path (es @ [''state''])"
    "pid_path c = abs_path (es @ [''run'', ''worker.pid''])"
proof -
  have p: "list_all plain_name es" and r: "c_root c = abs_path es" using assms by (simp_all add: standard_def)
  note n = default_names
  show "current_link (c_root c) = abs_path (es @ [''current''])"
    "previous_link (c_root c) = abs_path (es @ [''previous''])"
    "swap_tmp (c_root c) = abs_path (es @ [''.swap.tmp''])"
    unfolding current_link_def previous_link_def swap_tmp_def r by (rule join_abs_path [OF p], rule n)+
  show "gate_marker_path (c_root c) = abs_path (es @ [''state'', ''install-gate.json''])"
    unfolding gate_marker_path_def r by (rule join_abs_path2 [OF p n(5,7)])
  show "c_blacklist c = abs_path (es @ [''state'', ''blacklist.json''])"
    using assms join_abs_path2 [OF p n(5,8)] by (simp add: standard_def)
  have d: "c_run_dir c = abs_path (es @ [''run''])"
    using assms join_abs_path [OF p n(6)] by (simp add: standard_def)
  show "pid_path c = abs_path (es @ [''run'', ''worker.pid''])"
    unfolding pid_path_def d using join_abs_path [of "es @ [''run'']" "''worker.pid''"] p n(6,9) by simp
  have s: "list_all plain_name (es @ [''state''])" using p n(5) by simp
  show "tmp_of (abs_path (es @ [''state'', ''install-gate.json''])) = abs_path (es @ [''state'', ''install-gate.json.tmp''])"
    "tmp_of (abs_path (es @ [''state'', ''blacklist.json''])) = abs_path (es @ [''state'', ''blacklist.json.tmp''])"
    using tmp_of_snoc [of "es @ [''state'']" "''install-gate.json''"]
      tmp_of_snoc [of "es @ [''state'']" "''blacklist.json''"] by simp_all
  show "dir_of (abs_path (es @ [''state'', ''install-gate.json''])) = abs_path (es @ [''state''])"
    "dir_of (abs_path (es @ [''state'', ''blacklist.json''])) = abs_path (es @ [''state''])"
    using dir_of_abs_path [OF s n(7)] dir_of_abs_path [OF s n(8)] by simp_all
qed

lemma version_paths:
  assumes "list_all plain_name es" "plain_name v"
  shows "versions_dir (abs_path es) = abs_path (es @ [''versions''])"
    "target_dir (abs_path es) v = abs_path (es @ [''versions'', v])"
    "staging_dir (abs_path es) v = abs_path (es @ [''versions'', ''.'' @ v @ ''.partial''])"
    "plain_name n \<Longrightarrow> path_join [abs_path (es @ [''versions'', ''.'' @ v @ ''.partial'']), n] =
       abs_path (es @ [''versions'', ''.'' @ v @ ''.partial'', n])"
proof -
  show d: "versions_dir (abs_path es) = abs_path (es @ [''versions''])"
    unfolding versions_dir_def by (rule join_abs_path [OF assms(1) default_names(1)])
  have p: "list_all plain_name (es @ [''versions''])" using assms(1) default_names(1) by simp
  show "target_dir (abs_path es) v = abs_path (es @ [''versions'', v])"
    using join_abs_path [OF p assms(2)] unfolding target_dir_def d by simp
  show "staging_dir (abs_path es) v = abs_path (es @ [''versions'', ''.'' @ v @ ''.partial''])"
    using join_abs_path [OF p plain_staging [OF assms(2)]] unfolding staging_dir_def d by simp
  show "path_join [abs_path (es @ [''versions'', ''.'' @ v @ ''.partial'']), n] =
      abs_path (es @ [''versions'', ''.'' @ v @ ''.partial'', n])" if n: "plain_name n"
    using join_abs_path [of "es @ [''versions'', ''.'' @ v @ ''.partial'']" n] p plain_staging [OF assms(2)] n
    by simp
qed

text \<open>A path that is not under \<open>versions\<close> is outside everything an installation touches.\<close>

lemma protected_elsewhere:
  assumes "list_all plain_name es" "plain_name v" "list_all plain_name (n # ns)" "n \<noteq> ''versions''"
  shows "protected_path (abs_path es) v (abs_path (es @ n # ns))"
proof -
  note vp = version_paths [OF assms(1,2)]
  have q: "list_all plain_name (es @ n # ns)" using assms(1,3) by simp
  have t: "abs_path (es @ n # ns) \<notin> tree (abs_path (es @ [''versions'', m]))" if m: "plain_name m" for m
    using tree_abs_path [OF _ q, of "es @ [''versions'', m]"] assms(1,4) default_names(1) m by auto
  have e: "abs_path (es @ n # ns) \<noteq> abs_path (es @ ''versions'' # ms)" if "list_all plain_name ms" for ms
    using abs_path_inj [OF q, of "es @ ''versions'' # ms"] assms(1,4) default_names(1) that by simp
  show ?thesis
    unfolding protected_path_def worker_file_def vp(1-3) vp(4) [OF default_names(12)] vp(4) [OF default_names(13)]
    using t [OF assms(2)] t [OF plain_staging [OF assms(2)]] e [of "[]"]
      e [of "[''.'' @ v @ ''.partial'', ''clawmast'']"] e [of "[''.'' @ v @ ''.partial'', ''MANIFEST.json'']"]
      plain_staging [OF assms(2)] default_names(12,13) by simp
qed

lemma standard_layout:
  assumes "standard es c"
  shows "layout c"
proof -
  note sp = standard_paths [OF assms]
  have p: "list_all plain_name es" and r: "c_root c \<noteq> []" "resolve c = resolve_current (c_root c) (c_binary c)"
    "c_blacklist c \<noteq> []"
    unfolding sp(7) using assms is_abs_path(2) by (simp_all add: standard_def)
  let ?L = "[[''current''], [''previous''], [''.swap.tmp''], [''state'', ''install-gate.json''],
    [''state'', ''blacklist.json''], [''state'', ''blacklist.json.tmp''], [''state''], [''run'', ''worker.pid'']]"
  have "distinct (map (\<lambda>x. abs_path (es @ x)) ?L)"
  proof -
    have "\<forall>x \<in> set ?L. list_all plain_name x" using default_names by simp
    then have "inj_on (\<lambda>x. abs_path (es @ x)) (set ?L)"
      using abs_path_inj p by (intro inj_onI) (metis list_all_append same_append_eq)
    moreover have "distinct ?L" by simp
    ultimately show ?thesis by (simp only: distinct_map)
  qed
  then show ?thesis unfolding layout_def sp using r by (simp add: sp)
qed

lemma standard_apart:
  assumes "standard es c"
  shows "store_apart c"
proof -
  note sp = standard_paths [OF assms]
  have p: "list_all plain_name es" and r: "c_root c = abs_path es" using assms by (simp_all add: standard_def)
  note n = default_names
  have pr: "protected_path (c_root c) v q" if v: "plain_name v" and q: "q \<in> stored c" for v q
  proof -
    have "stored c \<subseteq> (\<lambda>x. abs_path (es @ x)) ` {[''current''], [''previous''], [''.swap.tmp''], [''state''],
        [''state'', ''install-gate.json''], [''state'', ''install-gate.json.tmp''],
        [''state'', ''blacklist.json''], [''state'', ''blacklist.json.tmp'']}"
      by (simp add: stored_def sp)
    with q obtain x where x: "q = abs_path (es @ x)" "list_all plain_name x" "x \<noteq> []" "hd x \<noteq> ''versions''"
      using n by auto
    then show ?thesis using protected_elsewhere [OF p v, of "hd x" "tl x"] unfolding r by simp
  qed
  have ne: "abs_path (es @ x) \<noteq> abs_path (es @ y)"
    if "list_all plain_name x" "list_all plain_name y" "x \<noteq> y" for x y
    using abs_path_inj [of "es @ x" "es @ y"] p that by simp
  show ?thesis
    unfolding store_apart_def marker_paths_def sp
    using pr ne n by simp
qed

lemma demo_standard: "standard [''r''] demo_config"
proof -
  have "abs_path [''r''] = ''/r''" by (simp add: abs_path_def)
  moreover have "path_join [''/r'', ''state'', ''blacklist.json''] = ''/r/state/blacklist.json''"
    "path_join [''/r'', ''run''] = ''/r/run''" by code_simp+
  ultimately show ?thesis by (simp add: standard_def demo_config_def resolve_def plain_name_def)
qed

end
