(* ===== verification/Protocol.thy ===== *)
theory Protocol
  imports Layout
begin

section \<open>What the install tree promises\<close>

text \<open>
  The abstract protocol of the three programs that share the install tree. A state \<open>proto\<close> has
  the version that is current, the one a rollback returns to, the versions marked as bad and the
  versions that were launched. \<open>proto_step\<close> is all that may happen to it: the two targets change
  places, a new target becomes current, a version is marked, or the current version is launched,
  which needs that it is not marked. \<open>tree_view\<close> reads this state off the links, the blacklist file and
  the history; the lemmas show what each operation of the code does to it.
\<close>

record proto =
  at_current :: "string option"
  at_previous :: "string option"
  bad :: "string set"
  launched :: "string list"

inductive proto_step :: "proto \<Rightarrow> proto \<Rightarrow> bool" where
  swapped: "at_current p = Some a \<Longrightarrow> at_previous p = Some b \<Longrightarrow> a \<noteq> b \<Longrightarrow>
    proto_step p (p\<lparr>at_current := Some b, at_previous := Some a\<rparr>)"
| installed_first: "at_current p = None \<Longrightarrow> proto_step p (p\<lparr>at_current := Some t\<rparr>)"
| installed: "at_current p = Some a \<Longrightarrow> t \<noteq> a \<Longrightarrow>
    proto_step p (p\<lparr>at_current := Some t, at_previous := Some a\<rparr>)"
| condemned: "v \<noteq> [] \<Longrightarrow> proto_step p (p\<lparr>bad := insert v (bad p)\<rparr>)"
| launches: "at_current p = Some t \<Longrightarrow> base_name t = v \<Longrightarrow> v \<notin> bad p \<Longrightarrow>
    proto_step p (p\<lparr>launched := launched p @ [v]\<rparr>)"

text \<open>
  The contract of such a protocol: marks stay, and nothing marked is launched. A refinement
  carries it over to the programs.
\<close>

locale guarded_launch =
  fixes step :: "'s \<Rightarrow> 's \<Rightarrow> bool" and marks :: "'s \<Rightarrow> string set" and runs :: "'s \<Rightarrow> string list"
  assumes marks_stay: "step p q \<Longrightarrow> marks p \<subseteq> marks q"
    and runs_grow: "step p q \<Longrightarrow> runs q = runs p \<or> (\<exists>v. v \<notin> marks p \<and> runs q = runs p @ [v])"
begin

lemma marked_never_launched:
  assumes "step\<^sup>*\<^sup>* p q" "v \<in> marks p"
  shows "v \<in> marks q \<and> (\<exists>new. runs q = runs p @ new \<and> v \<notin> set new)"
  using assms(1)
proof induction
  case (step q r)
  with marks_stay [OF step(2)] runs_grow [OF step(2)] show ?case by auto
qed (use assms(2) in simp)

end

interpretation proto: guarded_launch proto_step bad launched
  by unfold_locales (auto elim: proto_step.cases)

locale simulation =
  fixes cstep :: "'c \<Rightarrow> 'c \<Rightarrow> bool" and astep :: "'a \<Rightarrow> 'a \<Rightarrow> bool" and abs :: "'c \<Rightarrow> 'a" and ok :: "'c \<Rightarrow> bool"
  assumes ok_step: "ok s \<Longrightarrow> cstep s t \<Longrightarrow> ok t"
    and simulated: "ok s \<Longrightarrow> cstep s t \<Longrightarrow> astep\<^sup>*\<^sup>* (abs s) (abs t)"
begin

lemma run_simulated: "cstep\<^sup>*\<^sup>* s t \<Longrightarrow> ok s \<Longrightarrow> ok t \<and> astep\<^sup>*\<^sup>* (abs s) (abs t)"
proof (induction rule: rtranclp_induct)
  case (step t u)
  then show ?case using ok_step [OF _ step(2)] simulated [OF _ step(2)] by (meson rtranclp_trans)
qed simp

lemma ok_run: "cstep\<^sup>*\<^sup>* s t \<Longrightarrow> ok s \<Longrightarrow> ok t"
  using run_simulated by blast

end

subsection \<open>Reading the state off the file system\<close>

definition listed_versions :: "string \<Rightarrow> fsys \<Rightarrow> string set" where
  "listed_versions p f = (case fst (load p f) of Inl _ \<Rightarrow> {} | Inr es \<Rightarrow> {v. contains es v})"

definition spawned :: "hist_entry list \<Rightarrow> string list" where
  "spawned log = map h_version (filter (\<lambda>h. h_event h = EvSpawn) log)"

definition tree_view :: "config \<Rightarrow> sup \<Rightarrow> proto" where
  "tree_view c s = \<lparr>at_current = link_at (s_fs s) (current_link (c_root c)),
     at_previous = link_at (s_fs s) (previous_link (c_root c)),
     bad = listed_versions (c_blacklist c) (s_fs s), launched = spawned (s_log s)\<rparr>"

definition calm :: "config \<Rightarrow> fsys \<Rightarrow> fsys \<Rightarrow> bool" where
  \<comment> \<open>no fault appears, and what \<open>tree_view\<close> reads keeps its node\<close>
  "calm c f g \<longleftrightarrow> faults g = []
     \<and> (\<forall>q \<in> {current_link (c_root c), previous_link (c_root c), c_blacklist c}. nodes g q = nodes f q)"

lemma spawned_append [simp]: "spawned (xs @ ys) = spawned xs @ spawned ys"
  by (simp add: spawned_def)

lemma spawned_simps [simp]: "spawned [] = []"
  "spawned (\<lparr>h_time = t, h_event = e, h_version = v, h_exit = x, h_reason = r\<rparr> # hs) =
    (if e = EvSpawn then v # spawned hs else spawned hs)"
  by (simp_all add: spawned_def)

lemma calm_refl: "faults f = [] \<Longrightarrow> calm c f f"
  by (simp add: calm_def)

lemma calm_trans: "calm c f g \<Longrightarrow> calm c g h \<Longrightarrow> calm c f h"
  by (simp add: calm_def)

lemma calm_clean: "calm c f g \<Longrightarrow> faults g = []"
  by (simp add: calm_def)

lemma listed_same: "nodes g p = nodes f p \<Longrightarrow> faults f = [] \<Longrightarrow> faults g = [] \<Longrightarrow>
    listed_versions p g = listed_versions p f"
  by (simp add: listed_versions_def load_def os_read_file_def split: option.splits node.splits content.splits)

lemma calm_view:
  assumes "calm c (s_fs s) (s_fs t)" "faults (s_fs s) = []" "spawned (s_log t) = spawned (s_log s)"
  shows "tree_view c t = tree_view c s"
  using assms listed_same [of "s_fs t" "c_blacklist c" "s_fs s"] by (simp add: tree_view_def calm_def link_at_def)

lemma calm_except:
  assumes "only_at ps f g" "faults g = []"
    "{current_link (c_root c), previous_link (c_root c), c_blacklist c} \<inter> ps = {}"
  shows "calm c f g"
  using assms by (auto simp: calm_def only_at_def)

subsection \<open>Operations the protocol does not see\<close>

lemma calm_steps:
  assumes lay: "layout c" and clean: "faults f = []"
  shows "calm c f (snd (resolve c f))" "calm c f (snd (load p f))" "calm c f (snd (read_gate_marker (c_root c) f))"
    "calm c f (snd (delete_gate_marker (c_root c) f))" "calm c f (snd (os_write_file (pid_path c) d f))"
    "calm c f (snd (os_remove (pid_path c) f))"
proof -
  note d = lay [unfolded layout_def]
  show "calm c f (snd (resolve c f))"
    using d clean
    by (auto simp: calm_def resolve_current_def resolve_worker_binary_def os_readlink_def Let_def
        split: option.splits node.splits)
  show "calm c f (snd (load p f))" "calm c f (snd (read_gate_marker (c_root c) f))"
    using clean by (simp_all add: load_faults read_marker_fs calm_refl)
  show "calm c f (snd (delete_gate_marker (c_root c) f))"
    using d clean
    by (auto simp: calm_def delete_gate_marker_def os_remove_def split: option.splits node.splits)
  show "calm c f (snd (os_write_file (pid_path c) d f))" "calm c f (snd (os_remove (pid_path c) f))"
    using d clean by (auto simp: calm_def os_outside os_clean)
qed

subsection \<open>The swap, the mark and the roll-forward\<close>

lemma swap_seen:
  assumes lay: "layout c" and clean: "faults f = []" and run: "swap_current_previous (c_root c) f = (r, g)"
  shows "faults g = [] \<and> nodes g (c_blacklist c) = nodes f (c_blacklist c)
    \<and> (case r of Some _ \<Rightarrow> calm c f g
       | None \<Rightarrow> \<exists>a b. a \<noteq> b \<and> link_at f (current_link (c_root c)) = Some a \<and> link_at f (previous_link (c_root c)) = Some b
           \<and> link_at g (current_link (c_root c)) = Some b \<and> link_at g (previous_link (c_root c)) = Some a)"
proof -
  note d = lay [unfolded layout_def]
  have k: "faults g = []" "nodes g (c_blacklist c) = nodes f (c_blacklist c)"
    using keeps_swap [OF lay clean] run by (simp_all add: keeps_def)
  show ?thesis
  proof (cases r)
    case None
    have "\<exists>a b. nodes f (current_link (c_root c)) = Some (Link a) \<and> nodes f (previous_link (c_root c)) = Some (Link b)
        \<and> a \<noteq> b \<and> nodes f (swap_tmp (c_root c)) \<noteq> Some Dir"
      using run clean unfolding None
      by (auto simp: swap_current_previous_def os_readlink_def os_remove_def split: option.splits node.splits if_splits)
    then obtain a b where ab: "nodes f (current_link (c_root c)) = Some (Link a)"
      "nodes f (previous_link (c_root c)) = Some (Link b)" "a \<noteq> b" "nodes f (swap_tmp (c_root c)) \<noteq> Some Dir" by blast
    have "c_root c \<noteq> []" using d by blast
    from swap_clean [OF clean this ab] run
    have "nodes g = (nodes f)(swap_tmp (c_root c) := None, current_link (c_root c) \<mapsto> Link b,
        previous_link (c_root c) \<mapsto> Link a)" by auto
    with ab d k None show ?thesis by (auto simp: link_at_def)
  next
    case (Some e)
    have "calm c f g"
      using run clean d unfolding Some
      by (auto simp: calm_def swap_current_previous_def swap_renames_def os_defs Let_def
          split: option.splits node.splits if_splits)
    with k Some show ?thesis by simp
  qed
qed

lemma swap_view:
  assumes "layout c" "faults (s_fs s) = []" "swap_current_previous (c_root c) (s_fs s) = (r, g)"
    and "s_fs t = g" "spawned (s_log t) = spawned (s_log s)"
  shows "faults g = []" "proto_step\<^sup>*\<^sup>* (tree_view c s) (tree_view c t)"
proof -
  note sw = swap_seen [OF assms(1-3)]
  show cl: "faults g = []" using sw by blast
  show "proto_step\<^sup>*\<^sup>* (tree_view c s) (tree_view c t)"
  proof (cases r)
    case None
    with sw obtain a b where ab: "a \<noteq> b" "link_at (s_fs s) (current_link (c_root c)) = Some a"
      "link_at (s_fs s) (previous_link (c_root c)) = Some b" "link_at g (current_link (c_root c)) = Some b"
      "link_at g (previous_link (c_root c)) = Some a" by auto
    have "listed_versions (c_blacklist c) g = listed_versions (c_blacklist c) (s_fs s)"
      using sw listed_same assms(2) cl by blast
    with ab assms(4,5) have "tree_view c t = (tree_view c s)\<lparr>at_current := Some b, at_previous := Some a\<rparr>"
      by (simp add: tree_view_def)
    moreover have "proto_step (tree_view c s) ((tree_view c s)\<lparr>at_current := Some b, at_previous := Some a\<rparr>)"
      by (rule swapped) (use ab in \<open>simp_all add: tree_view_def\<close>)
    ultimately show ?thesis by auto
  next
    case (Some e)
    with sw have "calm c (s_fs s) (s_fs t)" using assms(4) by simp
    from calm_view [OF this assms(2,5)] show ?thesis by simp
  qed
qed

lemma save_seen:
  assumes lay: "layout c" and clean: "faults f = []" and nd: "nodes f (c_blacklist c) \<noteq> Some Dir"
    and run: "save (c_blacklist c) es f = (w, h)"
  shows "faults h = [] \<and> nodes h (current_link (c_root c)) = nodes f (current_link (c_root c))
    \<and> nodes h (previous_link (c_root c)) = nodes f (previous_link (c_root c))
    \<and> nodes h (c_blacklist c) = (case w of None \<Rightarrow> Some (File (Doc (JArr (map encode_entry es))))
        | Some _ \<Rightarrow> nodes f (c_blacklist c))"
proof -
  note d = lay [unfolded layout_def]
  let ?p = "c_blacklist c"
  show ?thesis
  proof (cases "nodes f (tmp_of ?p) = Some Dir")
    case True
    with run clean d show ?thesis
      by (auto simp: save_def os_mkdir_all_def os_remove_def os_create_excl_def Let_def
          split: option.splits node.splits if_splits)
  next
    case False
    have p: "dir_of ?p \<noteq> ?p" "dir_of ?p \<noteq> tmp_of ?p" using d by auto
    have "faults h = []" using save_clean_tmp [OF clean False p(2), of es] run by simp
    with save_effect [OF run nd p(1) False] d show ?thesis
      by (auto simp: only_at_def split: option.splits)
  qed
qed

lemma add_seen:
  assumes lay: "layout c" and clean: "faults f = []" and run: "add (c_blacklist c) e now f = (r, g)"
  defines "L \<equiv> listed_versions (c_blacklist c)"
  shows "faults g = [] \<and> nodes g (current_link (c_root c)) = nodes f (current_link (c_root c))
    \<and> nodes g (previous_link (c_root c)) = nodes f (previous_link (c_root c))
    \<and> (L g = L f \<or> bl_version e \<noteq> [] \<and> L g = insert (bl_version e) (L f))"
proof -
  let ?p = "c_blacklist c" and ?e = "if time_is_zero (bl_time e) then e\<lparr>bl_time := now\<rparr> else e"
  show ?thesis
  proof (cases "bl_version e \<noteq> [] \<and> (\<exists>es. fst (load ?p f) = Inr es)")
    case False
    obtain l where l: "load ?p f = (l, f)" using load_faults [OF clean, of ?p] by (cases "load ?p f") simp
    have "g = f"
    proof (cases l)
      case (Inl err)
      then show ?thesis using run l by (simp add: add_def Let_def split: if_splits)
    qed (use False run l in \<open>auto simp: add_def\<close>)
    with clean show ?thesis by simp
  next
    case True
    then obtain es where l: "load ?p f = (Inr es, f)" and v: "bl_version e \<noteq> []"
      using load_faults [OF clean, of ?p] by (cases "load ?p f") auto
    have nd: "nodes f ?p \<noteq> Some Dir" using l clean by (auto simp: load_def os_read_file_def)
    obtain w h where w: "save ?p (upsert ?e es) f = (w, h)" by fastforce
    have gh: "g = h" using run l v w by (auto simp: add_def Let_def split: option.splits)
    note sv = save_seen [OF lay clean nd w]
    show ?thesis
    proof (cases w)
      case None
      have "load ?p h = (Inr (upsert ?e es), h)" using load_clean [of h ?p "upsert ?e es"] sv None by simp
      then have "L h = insert (bl_version e) (L f)"
        using l v ledger.listed_mark [of ?e es] by (auto simp: L_def listed_versions_def split: if_splits)
      with sv gh v show ?thesis by simp
    next
      case (Some err)
      then have "L h = L f" using sv listed_same [of h ?p f] clean by (simp add: L_def)
      with sv gh show ?thesis by simp
    qed
  qed
qed

lemma add_view:
  assumes "layout c" "faults (s_fs s) = []" "add (c_blacklist c) e now (s_fs s) = (r, g)"
    and "s_fs t = g" "spawned (s_log t) = spawned (s_log s)"
  shows "faults g = []" "proto_step\<^sup>*\<^sup>* (tree_view c s) (tree_view c t)"
proof -
  note ad = add_seen [OF assms(1-3)]
  show "faults g = []" using ad by blast
  have l: "at_current (tree_view c t) = at_current (tree_view c s)" "at_previous (tree_view c t) = at_previous (tree_view c s)"
    "launched (tree_view c t) = launched (tree_view c s)" using ad assms(4,5) by (simp_all add: tree_view_def link_at_def)
  have "tree_view c t = tree_view c s \<or> bl_version e \<noteq> [] \<and> tree_view c t = (tree_view c s)\<lparr>bad := insert (bl_version e) (bad (tree_view c s))\<rparr>"
    using ad assms(4,5) by (simp add: tree_view_def link_at_def)
  then show "proto_step\<^sup>*\<^sup>* (tree_view c s) (tree_view c t)" using condemned by auto
qed

text \<open>Either nothing changes, or the new target becomes current and the old one, if any, previous.\<close>

lemma rotate_seen:
  assumes ne: "c_root c \<noteq> []" and clean: "faults f = []" and run: "rotate_symlinks (c_root c) v f = (r, g)"
  defines "C \<equiv> current_link (c_root c)" and "P \<equiv> previous_link (c_root c)" and "t \<equiv> path_join [''versions'', v]"
  shows "faults g = [] \<and> (nodes g = nodes f
    \<or> link_at f C = None \<and> nodes g = (nodes f)(C \<mapsto> Link t)
    \<or> (\<exists>a. link_at f C = Some a \<and> t \<noteq> a \<and> nodes g = (nodes f)(P \<mapsto> Link a, C \<mapsto> Link t)))"
proof (cases "nodes f C")
  case None
  with run clean show ?thesis
    by (auto simp: rotate_symlinks_def rotate_previous_def os_defs Let_def link_at_def C_def t_def)
next
  case (Some n)
  show ?thesis
  proof (cases n)
    case (Link a)
    with Some have n: "nodes f C = Some (Link a)" by simp
    show ?thesis
    proof (cases "a = t")
      case True
      with n run clean show ?thesis
        by (auto simp: rotate_symlinks_def rotate_previous_def os_defs Let_def link_at_def C_def t_def fun_upd_idem
            split: option.splits node.splits)
    next
      case False
      show ?thesis
      proof (cases "nodes f P = Some Dir")
        case True
        with n False run clean show ?thesis
          by (auto simp: rotate_symlinks_def rotate_previous_def os_readlink_def os_remove_def Let_def C_def t_def P_def)
      next
        case nd: False
        from rotate_clean [OF clean ne _ _ nd [unfolded P_def], of a v] n False run show ?thesis
          by (auto simp: C_def P_def t_def link_at_def)
      qed
    qed
  qed (use Some run clean in \<open>auto simp: rotate_symlinks_def rotate_previous_def os_defs Let_def link_at_def C_def t_def\<close>)
qed

lemma write_marker_seen:
  assumes "layout c" "faults f = []" "store_apart c" "write_gate_marker (c_root c) m now f = (r, g)"
  shows "calm c f g"
proof -
  have "only_at (marker_paths (c_root c)) f g \<and> faults g = []"
    using assms(2,4)
    by (auto simp: write_gate_marker_def os_defs Let_def only_at_def marker_paths_def
        split: option.splits node.splits if_splits)
  then show ?thesis using assms(3) by (intro calm_except) (auto simp: store_apart_def)
qed

lemma activate_seen:
  assumes lay: "layout c" and apart: "store_apart c" and clean: "faults (s_fs s) = []"
    and run: "activate (c_root c) v now n (s_fs s) = (r, g)" and t: "s_fs t = g" "spawned (s_log t) = spawned (s_log s)"
  shows "faults g = [] \<and> proto_step\<^sup>*\<^sup>* (tree_view c s) (tree_view c t)"
proof -
  note d = lay [unfolded layout_def]
  obtain q h where h: "rotate_symlinks (c_root c) v (s_fs s) = (q, h)" by fastforce
  have "c_root c \<noteq> []" using d by blast
  note rs = rotate_seen [OF this clean h]
  have c: "calm c h g"
  proof (cases q)
    case (Inr x)
    then obtain a b p where x: "q = Inr (a, b, p)" by (cases x) auto
    obtain w k where w: "write_gate_marker (c_root c) \<lparr>m_version = v, m_installed_at = now\<rparr> now h = (w, k)" by fastforce
    have "g = k" using run h x w by (auto simp: activate_def split: option.splits)
    then show ?thesis using write_marker_seen [OF lay _ apart w] rs by simp
  qed (use run h rs in \<open>auto simp: activate_def calm_refl\<close>)
  let ?u = "s\<lparr>s_fs := h\<rparr>"
  have n: "c_blacklist c \<noteq> current_link (c_root c)" "c_blacklist c \<noteq> previous_link (c_root c)"
    "current_link (c_root c) \<noteq> previous_link (c_root c)" using d by auto
  have l: "listed_versions (c_blacklist c) h = listed_versions (c_blacklist c) (s_fs s)"
    using rs n by (intro listed_same) (use clean in auto)
  have "proto_step\<^sup>*\<^sup>* (tree_view c s) (tree_view c ?u)"
  proof -
    let ?t = "path_join [''versions'', v]" and ?C = "current_link (c_root c)" and ?P = "previous_link (c_root c)"
    from rs have "nodes h = nodes (s_fs s)
      \<or> link_at (s_fs s) ?C = None \<and> nodes h = (nodes (s_fs s))(?C \<mapsto> Link ?t)
      \<or> (\<exists>a. link_at (s_fs s) ?C = Some a \<and> ?t \<noteq> a \<and> nodes h = (nodes (s_fs s))(?P \<mapsto> Link a, ?C \<mapsto> Link ?t))"
      by (rule conjunct2)
    then show ?thesis
    proof (elim disjE conjE exE)
      assume "nodes h = nodes (s_fs s)"
      then have "link_at h q = link_at (s_fs s) q" for q by (simp add: link_at_def)
      with l have "tree_view c ?u = tree_view c s" by (simp add: tree_view_def)
      then show ?thesis by simp
    next
      assume 2: "link_at (s_fs s) ?C = None" "nodes h = (nodes (s_fs s))(?C \<mapsto> Link ?t)"
      have "link_at h ?C = Some ?t" "link_at h ?P = link_at (s_fs s) ?P"
        unfolding link_at_def 2(2) using n(3) by (simp_all del: append.simps)
      with l have "tree_view c ?u = (tree_view c s)\<lparr>at_current := Some ?t\<rparr>" by (simp add: tree_view_def)
      moreover have "at_current (tree_view c s) = None" using 2 by (simp add: tree_view_def)
      ultimately show ?thesis using installed_first [of "tree_view c s" ?t] by auto
    next
      fix a assume 3: "link_at (s_fs s) ?C = Some a" "?t \<noteq> a"
        "nodes h = (nodes (s_fs s))(?P \<mapsto> Link a, ?C \<mapsto> Link ?t)"
      have "link_at h ?C = Some ?t" "link_at h ?P = Some a"
        unfolding link_at_def 3(3) using n(3) by (simp_all del: append.simps)
      with l have "tree_view c ?u = (tree_view c s)\<lparr>at_current := Some ?t, at_previous := Some a\<rparr>" by (simp add: tree_view_def)
      moreover have "at_current (tree_view c s) = Some a" using 3 by (simp add: tree_view_def)
      ultimately show ?thesis using installed [of "tree_view c s" a ?t] 3(2) by auto
    qed
  qed
  moreover have "tree_view c t = tree_view c ?u" using calm_view [of c ?u t] c t rs by simp
  ultimately show ?thesis using calm_clean [OF c] by simp
qed

subsection \<open>The supervisor's operations follow the protocol\<close>

definition follows :: "config \<Rightarrow> sup \<Rightarrow> sup \<Rightarrow> bool" where
  \<comment> \<open>no fault appears, and what happened is a run of the protocol\<close>
  "follows c s t \<longleftrightarrow> faults (s_fs t) = [] \<and> proto_step\<^sup>*\<^sup>* (tree_view c s) (tree_view c t)"

lemma follows_trans: "follows c s t \<Longrightarrow> follows c t u \<Longrightarrow> follows c s u"
  by (auto simp: follows_def)

lemma follows_calm:
  "faults (s_fs s) = [] \<Longrightarrow> calm c (s_fs s) (s_fs t) \<Longrightarrow> spawned (s_log t) = spawned (s_log s) \<Longrightarrow> follows c s t"
  by (simp add: follows_def calm_view calm_clean)

lemma follows_same:
  "faults (s_fs s) = [] \<Longrightarrow> s_fs t = s_fs s \<Longrightarrow> spawned (s_log t) = spawned (s_log s) \<Longrightarrow> follows c s t"
  by (rule follows_calm) (simp_all add: calm_refl)

lemma follows_from:
  "follows c s' t \<Longrightarrow> s_fs s' = s_fs s \<Longrightarrow> spawned (s_log s') = spawned (s_log s) \<Longrightarrow> follows c s t"
  by (simp add: follows_def tree_view_def)

lemma follows_clean: "follows c s t \<Longrightarrow> faults (s_fs t) = []"
  by (simp add: follows_def)

lemma rollback_follows:
  assumes "layout c" "faults (s_fs s) = []"
  shows "follows c s (snd (rollback c v reason msg s))"
proof -
  obtain r g where sw: "swap_current_previous (c_root c) (s_fs s) = (r, g)" by fastforce
  have f: "follows c s t" if "s_fs t = g" "spawned (s_log t) = spawned (s_log s)" for t
    using swap_view [OF assms sw that] that(1) by (simp add: follows_def)
  show ?thesis
    by (rule f) (use sw in \<open>auto simp: rollback_def split: option.splits\<close>)
qed

lemma install_health_follows:
  assumes lay: "layout c" and clean: "faults (s_fs s) = []"
  shows "follows c s (snd (rollback_for_install_health c v reason now s))"
proof -
  let ?e = "\<lparr>bl_version = v, bl_time = now, bl_reason = fail_reason_str reason\<rparr>"
  obtain r g where ad: "add (c_blacklist c) ?e now (s_fs s) = (r, g)" by fastforce
  let ?s1 = "s\<lparr>s_fs := g\<rparr>"
  have f1: "follows c s ?s1" using add_view [OF lay clean ad, of ?s1] by (simp add: follows_def)
  have cl: "faults g = []" using follows_clean [OF f1] by simp
  let ?s2 = "s\<lparr>s_fs := snd (delete_gate_marker (c_root c) g), s_gate := gate_reset (s_gate s)\<rparr>"
  have f2: "follows c ?s1 ?s2" using calm_steps(4) [OF lay cl] cl by (intro follows_calm) simp_all
  have f3: "follows c ?s2 (snd (rollback c v w m ?s2))" for w m
    by (rule rollback_follows [OF lay follows_clean [OF f2]])
  show ?thesis
    using follows_trans [OF follows_trans [OF f1 f2] f3] ad by (simp add: rollback_for_install_health_def Let_def)
qed

lemma check_blacklist_follows:
  assumes lay: "layout c" and clean: "faults (s_fs s) = []" and run: "check_blacklist c v s = (r, t)"
  shows "follows c s t"
    and "r = Inr False \<Longrightarrow> v \<notin> listed_versions (c_blacklist c) (s_fs s) \<and> t = s"
proof -
  have l: "snd (load (c_blacklist c) (s_fs s)) = s_fs s" by (rule load_faults [OF clean])
  have same: "s\<lparr>s_fs := s_fs s\<rparr> = s" by simp
  have e: "follows c s s" by (rule follows_same [OF clean]) simp_all
  note rb = rollback_follows [OF lay clean]
  show "follows c s t"
    using run l e rb [of v "''blacklisted''" "''blacklisted version with no rollback target''"]
    by (auto simp: check_blacklist_def Let_def same split: if_splits prod.splits sum.splits option.splits)
  show "v \<notin> listed_versions (c_blacklist c) (s_fs s) \<and> t = s" if "r = Inr False"
    using run l that lay
    by (auto simp: check_blacklist_def listed_versions_def layout_def contains_def Let_def same
        split: if_splits prod.splits sum.splits option.splits)
qed

lemma prepare_gate_follows:
  assumes lay: "layout c" and clean: "faults (s_fs s) = []"
  shows "follows c s (prepare_gate c v now s)" "tree_view c (prepare_gate c v now s) = tree_view c s"
proof -
  let ?r = "read_gate_marker (c_root c) (s_fs s)"
  have r: "snd ?r = s_fs s" by (rule read_marker_fs [OF clean])
  have k: "calm c (s_fs s) (s_fs (prepare_gate c v now s))" "s_log (prepare_gate c v now s) = s_log s"
    using calm_steps(4) [OF lay clean] calm_refl [OF clean] r
    by (auto simp: prepare_gate_def Let_def split: prod.splits sum.splits bool.splits)
  then show "follows c s (prepare_gate c v now s)" "tree_view c (prepare_gate c v now s) = tree_view c s"
    using clean by (simp_all add: follows_calm calm_view)
qed

lemma on_event_follows:
  assumes lay: "layout c" and clean: "faults (s_fs s) = []"
  shows "on_event c v e st s = (Inr st', t) \<Longrightarrow> follows c s t"
    and "on_event c v e st s = (Inl out, t) \<Longrightarrow> follows c s (end_session c t)"
proof -
  show "follows c s t" if "on_event c v e st s = (Inr st', t)"
    using on_event_going [OF that] calm_steps(4) [OF lay clean] calm_refl [OF clean]
    by (intro follows_calm [OF clean]) auto
  show "follows c s (end_session c t)" if "on_event c v e st s = (Inl out, t)"
  proof -
    from on_event_done [OF that] obtain h where h: "s_log t = s_log s @ [h]" "h_event h \<noteq> EvSpawn" "s_fs t = s_fs s"
      by (auto split: if_splits)
    with calm_steps(6) [OF lay clean] show ?thesis
      by (intro follows_calm [OF clean]) (auto simp: end_session_def clear_pid_file_def spawned_def)
  qed
qed

lemma after_spawn_follows:
  assumes lay: "layout c" and clean: "faults (s_fs s) = []"
  shows "follows c s (snd (after_spawn c v t out s))"
proof -
  have q: "follows c s (snd (rollback c v reason msg s'))" if "s_fs s' = s_fs s" "s_log s' = s_log s" for reason msg s'
    using follows_from [OF rollback_follows [OF lay, of s']] that clean by simp
  have i: "follows c s (snd (rollback_for_install_health c v reason now s'))"
    if "s_fs s' = s_fs s" "s_log s' = s_log s" for reason now s'
    using follows_from [OF install_health_follows [OF lay, of s']] that clean by simp
  have e: "follows c s s'" if "s_fs s' = s_fs s" "s_log s' = s_log s" for s'
    using follows_same [OF clean] that by simp
  have n: "follows c s (record_history EvStop v x r s)" for x r
    by (rule follows_same [OF clean]) simp_all
  show ?thesis
    by (cases "o_kind out")
      (auto simp: after_spawn_def after_crash_def Let_def attempt_rollback_def
        attempt_worker_requested_rollback_def attempt_spawn_failure_rollback_def q i e n)
qed

text \<open>Launching: the version the current link names, which is not marked.\<close>

lemma resolve_names:
  assumes "layout c" "faults f = []" "resolve c f = (Inr (path, v), g)"
  shows "g = f" "\<exists>t. link_at f (current_link (c_root c)) = Some t \<and> v = base_name t"
  using assms
  by (auto simp: layout_def resolve_current_def resolve_worker_binary_def os_readlink_def link_at_def Let_def
      split: option.splits node.splits if_splits)

lemma launch_follows:
  assumes lay: "layout c" and clean: "faults (s_fs s) = []" and r: "resolve c (s_fs s) = (Inr (path, v), f)"
    and b: "check_blacklist c v (s\<lparr>s_fs := f\<rparr>) = (Inr False, s1)"
  shows "follows c s (record_history EvSpawn v None [] (prepare_gate c v now s1))"
proof -
  have f: "s\<lparr>s_fs := f\<rparr> = s" using resolve_names(1) [OF lay clean r] by simp
  note cb = check_blacklist_follows [OF lay clean b [unfolded f]]
  let ?g = "prepare_gate c v now s1"
  note pg = prepare_gate_follows [OF lay clean, of v now]
  have s1: "s1 = s" and v: "v \<notin> bad (tree_view c s)" using cb(2) by (simp_all add: tree_view_def)
  obtain t where t: "at_current (tree_view c s) = Some t" "base_name t = v"
    using resolve_names(2) [OF lay clean r] by (auto simp: tree_view_def)
  have "proto_step (tree_view c s) ((tree_view c s)\<lparr>launched := launched (tree_view c s) @ [v]\<rparr>)" by (rule launches [OF t v])
  moreover have "tree_view c (record_history EvSpawn v None [] ?g) = (tree_view c s)\<lparr>launched := launched (tree_view c s) @ [v]\<rparr>"
    using pg(2) s1 by (simp add: tree_view_def)
  ultimately show ?thesis using follows_clean [OF pg(1)] s1 by (simp add: follows_def)
qed

end
