(* ===== verification/System.thy ===== *)
theory System
  imports Lifecycle Protocol
begin

section \<open>The running system as a transition relation\<close>

text \<open>
  \<open>sup_step\<close> cuts the supervisor's loop into the steps between which other programs can act: the
  decision at the top of the loop with the spawn it ends in, one branch of the select, the end of
  the session, what the exit leads to. \<open>worker_step\<close> is what the worker's API does to the shared
  files while a worker lives, \<open>sys_step\<close> interleaves the two with any change of other files.
\<close>

datatype phase = AtTop | Live string sess | Over string spawn_outcome | Halted "sup_error option"

definition worker_started :: "config \<Rightarrow> string \<Rightarrow> int \<Rightarrow> sup \<Rightarrow> sup" where
  "worker_started c v pid s = write_pid_file c pid (record_history EvSpawn v None [] s\<lparr>s_current := Some pid\<rparr>)"

inductive sup_step :: "config \<Rightarrow> phase \<times> sup \<Rightarrow> phase \<times> sup \<Rightarrow> bool" for c where
  cancelled: "sup_step c (AtTop, s) (Halted None, s)"
| unresolved: "resolve c (s_fs s) = (Inl e, f) \<Longrightarrow>
    sup_step c (AtTop, s) (Halted (Some (ResolveFailed e)), s\<lparr>s_fs := f\<rparr>)"
| refused: "resolve c (s_fs s) = (Inr (path, v), f) \<Longrightarrow> check_blacklist c v (s\<lparr>s_fs := f\<rparr>) = (Inl e, s') \<Longrightarrow>
    sup_step c (AtTop, s) (Halted (Some e), s')"
| skipped: "resolve c (s_fs s) = (Inr (path, v), f) \<Longrightarrow> check_blacklist c v (s\<lparr>s_fs := f\<rparr>) = (Inr True, s') \<Longrightarrow>
    sup_step c (AtTop, s) (AtTop, s')"
| not_started: "resolve c (s_fs s) = (Inr (path, v), f) \<Longrightarrow> check_blacklist c v (s\<lparr>s_fs := f\<rparr>) = (Inr False, s1) \<Longrightarrow>
    run_one_spawn c v (StartFails err) now [] (prepare_gate c v now s1) = (Some out, s') \<Longrightarrow>
    sup_step c (AtTop, s) (Over v out, s')"
| started: "resolve c (s_fs s) = (Inr (path, v), f) \<Longrightarrow> check_blacklist c v (s\<lparr>s_fs := f\<rparr>) = (Inr False, s1) \<Longrightarrow>
    s' = worker_started c v pid (prepare_gate c v now s1) \<Longrightarrow>
    sup_step c (AtTop, s) (Live v (start_session c now s'), s')"
| selected: "enabled e st s \<Longrightarrow> on_event c v e st s = (Inr st', s') \<Longrightarrow> sup_step c (Live v st, s) (Live v st', s')"
| ended: "enabled e st s \<Longrightarrow> on_event c v e st s = (Inl out, s') \<Longrightarrow>
    sup_step c (Live v st, s) (Over v out, end_session c s')"
| settled: "after_spawn c v t out s = (Again, s') \<Longrightarrow> sup_step c (Over v out, s) (AtTop, s')"
| returned: "after_spawn c v t out s = (Returned r, s') \<Longrightarrow> sup_step c (Over v out, s) (Halted r, s')"

inductive_cases sup_stepE: "sup_step c (p, s) y"
inductive_cases top_stepE: "sup_step c (AtTop, s) y"
inductive_cases live_stepE: "sup_step c (Live v st, s) y"
inductive_cases over_stepE: "sup_step c (Over v out, s) y"

inductive_simps halted_step [simp]: "sup_step c (Halted r, s) y"

definition fleet_ok :: "config \<Rightarrow> ('k world \<times> 'k server) set \<Rightarrow> bool" where
  \<comment> \<open>the workers serve the supervisor's install root, and the versions published in the worlds
    they see are plain names\<close>
  "fleet_ok c fleet \<longleftrightarrow> (\<forall>(wd, sv) \<in> fleet. ac_root (sv_cfg sv) = c_root c
     \<and> api_blacklist_path sv = Some (c_blacklist c)
     \<and> (\<forall>cl m. check_in wd cl = Inr m \<longrightarrow> plain_name (f_version m)))"

inductive worker_step :: "config \<Rightarrow> ('k world \<times> 'k server) set \<Rightarrow> string \<Rightarrow> fsys \<Rightarrow> fsys \<Rightarrow> bool" for c fleet v where
  installs: "(wd, sv) \<in> fleet \<Longrightarrow> handle_update_install wd v now sv f = (rep, restart, g) \<Longrightarrow> worker_step c fleet v f g"
| marks: "(wd, sv) \<in> fleet \<Longrightarrow> handle_blacklist_add sv v body now f = (brep, hook, g) \<Longrightarrow> worker_step c fleet v f g"

inductive sys_step :: "config \<Rightarrow> ('k world \<times> 'k server) set \<Rightarrow> phase \<times> sup \<Rightarrow> phase \<times> sup \<Rightarrow> bool" for c fleet where
  supervisor: "sup_step c x y \<Longrightarrow> sys_step c fleet x y"
| worker: "worker_step c fleet v (s_fs s) g \<Longrightarrow> sys_step c fleet (Live v st, s) (Live v st, s\<lparr>s_fs := g\<rparr>)"
| elsewhere: "steady (\<lambda>q. q \<in> stored c) (s_fs s) g \<Longrightarrow> sys_step c fleet (p, s) (p, s\<lparr>s_fs := g\<rparr>)"

subsection \<open>The relation and the loop are the same\<close>

definition continue :: "config \<Rightarrow> turn list \<Rightarrow> step_result \<times> sup \<Rightarrow> step_result \<times> sup" where
  \<comment> \<open>the rest of the loop after one iteration\<close>
  "continue c ts p = (case p of (Again, s) \<Rightarrow> run_loop c ts s | r \<Rightarrow> r)"

lemma run_loop_continue: "run_loop c (t # ts) s = continue c ts (loop_step c t s)"
  by (simp add: continue_def)

definition finishes :: "config \<Rightarrow> phase \<times> sup \<Rightarrow> step_result \<times> sup \<Rightarrow> bool" where
  \<comment> \<open>some events and turns take the loop from the middle of an iteration to the result\<close>
  "finishes c x y = (case x of
     (AtTop, s) \<Rightarrow> \<exists>ts. run_loop c ts s = y
   | (Live v st, s) \<Rightarrow> \<exists>es t ts.
       (case select_loop c v es st s of
          (Inl out, s1) \<Rightarrow> continue c ts (after_spawn c v t out (end_session c s1))
        | (Inr st1, s1) \<Rightarrow> (Supervising, s1)) = y
   | (Over v out, s) \<Rightarrow> \<exists>t ts. continue c ts (after_spawn c v t out s) = y
   | (Halted r, s) \<Rightarrow> (Returned r, s) = y)"

definition outcome_of :: "phase \<Rightarrow> step_result \<Rightarrow> bool" where
  "outcome_of p r = (case p of AtTop \<Rightarrow> r = Again | Live _ _ \<Rightarrow> r = Supervising | Over _ _ \<Rightarrow> False
     | Halted e \<Rightarrow> r = Returned e)"

lemma finishes_top: "run_loop c ts s = z \<Longrightarrow> finishes c (AtTop, s) z"
  unfolding finishes_def by auto

lemma finishes_live: "(case select_loop c v es st s of
    (Inl out, s1) \<Rightarrow> continue c ts (after_spawn c v t out (end_session c s1))
  | (Inr st1, s1) \<Rightarrow> (Supervising, s1)) = z \<Longrightarrow> finishes c (Live v st, s) z"
  unfolding finishes_def prod.case phase.case by (intro exI)

lemma finishes_over: "continue c ts (after_spawn c v t out s) = z \<Longrightarrow> finishes c (Over v out, s) z"
  unfolding finishes_def by auto

lemma finishes_now: "outcome_of p r \<Longrightarrow> finishes c (p, s) (r, s)"
proof (cases p)
  case AtTop
  moreover assume "outcome_of p r"
  ultimately show ?thesis by (simp add: finishes_def outcome_of_def exI [of _ "[]"])
next
  case (Live v st)
  moreover assume "outcome_of p r"
  ultimately show ?thesis by (simp add: finishes_def outcome_of_def exI [of _ "[]"])
qed (simp_all add: finishes_def outcome_of_def)

lemma after_spawn_turn:
  "after_spawn c v (t\<lparr>t_cancelled := b, t_start := now, t_spawn := att, t_events := es\<rparr>) out s = after_spawn c v t out s"
  by (cases "o_kind out") (simp_all add: after_spawn_def after_crash_def Let_def)

lemma after_spawn_not_live: "fst (after_spawn c v t out s) \<noteq> Supervising"
  by (cases "o_kind out") (auto simp: after_spawn_def after_crash_def finish_def Let_def split: prod.splits option.splits)

lemma run_one_spawn_started: "run_one_spawn c v (Started pid) now es s =
    (case select_loop c v es (start_session c now (worker_started c v pid s)) (worker_started c v pid s) of
       (Inl out, s) \<Rightarrow> (Some out, end_session c s) | (Inr _, s) \<Rightarrow> (None, s))"
  by (simp add: run_one_spawn_def worker_started_def Let_def)

lemma run_one_spawn_fails: "\<exists>out s'. run_one_spawn c v (StartFails err) now es s = (Some out, s')
    \<and> run_one_spawn c v (StartFails err) now [] s = (Some out, s')"
  by (simp add: run_one_spawn_def)

lemma step_finishes:
  assumes "sup_step c x y" "finishes c y z"
  shows "finishes c x z"
  using assms
proof induction
  case (cancelled s)
  obtain t :: turn where t: "t_cancelled t" by (metis turn.select_convs(1))
  from cancelled have "run_loop c [t] s = z" using t by (auto simp: finishes_def loop_step_def)
  then show ?case by (rule finishes_top)
next
  case (unresolved s e f)
  obtain t :: turn where t: "\<not> t_cancelled t" by (metis turn.select_convs(1))
  from unresolved have "run_loop c [t] s = z" using t by (auto simp: finishes_def loop_step_def)
  then show ?case by (rule finishes_top)
next
  case (refused s path v f e s')
  obtain t :: turn where t: "\<not> t_cancelled t" by (metis turn.select_convs(1))
  from refused have "run_loop c [t] s = z" using t by (auto simp: finishes_def loop_step_def)
  then show ?case by (rule finishes_top)
next
  case (skipped s path v f s')
  obtain t :: turn where t: "\<not> t_cancelled t" by (metis turn.select_convs(1))
  from skipped(3) obtain ts where "run_loop c ts s' = z" by (auto simp: finishes_def)
  with skipped(1,2) t have "run_loop c (t # ts) s = z" by (simp add: loop_step_def)
  then show ?case by (rule finishes_top)
next
  case (not_started s path v f s1 err now out s')
  from not_started(4) obtain t ts where z: "continue c ts (after_spawn c v t out s') = z" by (auto simp: finishes_def)
  let ?t = "t\<lparr>t_cancelled := False, t_start := now, t_spawn := StartFails err, t_events := []\<rparr>"
  have "loop_step c ?t s = after_spawn c v t out s'"
    using not_started(1-3) by (simp add: loop_step_def after_spawn_turn)
  with z have "run_loop c (?t # ts) s = z" by (simp only: run_loop_continue)
  then show ?case by (rule finishes_top)
next
  case (started s path v f s1 s' pid now)
  from started(4) obtain es t ts where z: "(case select_loop c v es (start_session c now s') s' of
      (Inl out, s1) \<Rightarrow> continue c ts (after_spawn c v t out (end_session c s1))
    | (Inr st1, s1) \<Rightarrow> (Supervising, s1)) = z" unfolding finishes_def by auto
  let ?t = "t\<lparr>t_cancelled := False, t_start := now, t_spawn := Started pid, t_events := es\<rparr>"
  have "loop_step c ?t s = (case select_loop c v es (start_session c now s') s' of
      (Inl out, s1) \<Rightarrow> after_spawn c v t out (end_session c s1) | (Inr _, s1) \<Rightarrow> (Supervising, s1))"
    using started(1-3)
    by (simp add: loop_step_def run_one_spawn_started after_spawn_turn split: prod.splits sum.splits)
  with z have "run_loop c (?t # ts) s = z"
    by (simp only: run_loop_continue) (simp add: continue_def split: prod.splits sum.splits)
  then show ?case by (rule finishes_top)
next
  case (selected e st s v st' s')
  from selected(3) obtain es t ts where "(case select_loop c v es st' s' of
      (Inl out, s1) \<Rightarrow> continue c ts (after_spawn c v t out (end_session c s1))
    | (Inr st1, s1) \<Rightarrow> (Supervising, s1)) = z" unfolding finishes_def by auto
  with selected(1,2) have "(case select_loop c v (e # es) st s of
      (Inl out, s1) \<Rightarrow> continue c ts (after_spawn c v t out (end_session c s1))
    | (Inr st1, s1) \<Rightarrow> (Supervising, s1)) = z" by simp
  then show ?case by (rule finishes_live)
next
  case (ended e st s v out s')
  from ended(3) obtain t ts where "continue c ts (after_spawn c v t out (end_session c s')) = z"
    unfolding finishes_def by auto
  with ended(1,2) have "(case select_loop c v [e] st s of
      (Inl out, s1) \<Rightarrow> continue c ts (after_spawn c v t out (end_session c s1))
    | (Inr st1, s1) \<Rightarrow> (Supervising, s1)) = z" by simp
  then show ?case by (rule finishes_live)
next
  case (settled v t out s s')
  from settled(2) obtain ts where "run_loop c ts s' = z" by (auto simp: finishes_def)
  with settled(1) have "continue c ts (after_spawn c v t out s) = z" by (simp add: continue_def)
  then show ?case by (rule finishes_over)
next
  case (returned v t out s r s')
  then have "z = (Returned r, s')" by (simp add: finishes_def)
  with returned(1) have "continue c [] (after_spawn c v t out s) = z" by (simp add: continue_def)
  then show ?case by (rule finishes_over)
qed

lemma steps_finish: "(sup_step c)\<^sup>*\<^sup>* x y \<Longrightarrow> finishes c y z \<Longrightarrow> finishes c x z"
  by (induction rule: converse_rtranclp_induct) (auto intro: step_finishes)

lemma select_loop_steps:
  "select_loop c v es st s = (r, s') \<Longrightarrow> (case r of
     Inl out \<Rightarrow> (sup_step c)\<^sup>*\<^sup>* (Live v st, s) (Over v out, end_session c s')
   | Inr st' \<Rightarrow> (sup_step c)\<^sup>*\<^sup>* (Live v st, s) (Live v st', s'))"
proof (induction es arbitrary: st s)
  case (Cons e es)
  show ?case
  proof (cases "enabled e st s")
    case True
    obtain q s1 where o: "on_event c v e st s = (q, s1)" by fastforce
    show ?thesis
    proof (cases q)
      case (Inl out)
      with Cons.prems True o ended [OF True, of c v out s1] show ?thesis by auto
    next
      case (Inr st1)
      with o have st: "sup_step c (Live v st, s) (Live v st1, s1)" by (intro selected [OF True]) simp
      have "select_loop c v es st1 s1 = (r, s')" using Cons.prems True o Inr by simp
      from Cons.IH [OF this] st show ?thesis by (auto split: sum.splits intro: converse_rtranclp_into_rtranclp)
    qed
  qed (use Cons in simp)
qed auto

lemma loop_step_steps:
  assumes "loop_step c t s = (r, s')"
  shows "\<exists>p. outcome_of p r \<and> (sup_step c)\<^sup>*\<^sup>* (AtTop, s) (p, s')"
proof -
  have one: ?thesis if "sup_step c (AtTop, s) (p, s')" "outcome_of p r" for p
    using that by blast
  have fin: ?thesis if x: "(sup_step c)\<^sup>*\<^sup>* (AtTop, s) (Over v out, s1)" and a: "after_spawn c v t out s1 = (r, s')" for v out s1
  proof (cases r)
    case Again
    with settled [of c v t out s1 s'] x a show ?thesis
      by (intro exI [of _ AtTop]) (auto simp: outcome_of_def intro: rtranclp.rtrancl_into_rtrancl)
  next
    case (Returned e)
    with returned [of c v t out s1 e s'] x a show ?thesis
      by (intro exI [of _ "Halted e"]) (auto simp: outcome_of_def intro: rtranclp.rtrancl_into_rtrancl)
  qed (use after_spawn_not_live [of c v t out s1] a in simp)
  show ?thesis
  proof (cases "t_cancelled t")
    case True
    with assms cancelled [of c s] one show ?thesis by (auto simp: loop_step_def outcome_of_def)
  next
    case nc: False
    obtain q f where q: "resolve c (s_fs s) = (q, f)" by fastforce
    show ?thesis
    proof (cases q)
      case (Inl e)
      with assms nc q unresolved [of c s e f] one show ?thesis by (auto simp: loop_step_def outcome_of_def)
    next
      case (Inr pv)
      then obtain path v where pv: "resolve c (s_fs s) = (Inr (path, v), f)" using q by (cases pv) auto
      obtain b s1 where b: "check_blacklist c v (s\<lparr>s_fs := f\<rparr>) = (b, s1)" by fastforce
      consider e where "b = Inl e" | "b = Inr True" | "b = Inr False" by (cases b) auto
      then show ?thesis
      proof cases
        case 1
        with assms nc pv b refused [OF pv] one show ?thesis by (auto simp: loop_step_def outcome_of_def)
      next
        case 2
        with assms nc pv b skipped [OF pv] one show ?thesis by (auto simp: loop_step_def outcome_of_def)
      next
        case 3
        with b have b: "check_blacklist c v (s\<lparr>s_fs := f\<rparr>) = (Inr False, s1)" by simp
        let ?g = "prepare_gate c v (t_start t) s1"
        have l: "(case run_one_spawn c v (t_spawn t) (t_start t) (t_events t) ?g of
            (None, s) \<Rightarrow> (Supervising, s) | (Some out, s) \<Rightarrow> after_spawn c v t out s) = (r, s')"
          using assms nc pv b by (simp add: loop_step_def)
        show ?thesis
        proof (cases "t_spawn t")
          case (StartFails err)
          obtain out s2 where o: "run_one_spawn c v (StartFails err) (t_start t) (t_events t) ?g = (Some out, s2)"
            "run_one_spawn c v (StartFails err) (t_start t) [] ?g = (Some out, s2)"
            using run_one_spawn_fails by blast
          show ?thesis
            by (rule fin [OF r_into_rtranclp [of "sup_step c", OF not_started [OF pv b o(2)]]]) (use l o StartFails in simp)
        next
          case (Started pid)
          let ?w = "worker_started c v pid ?g"
          have st: "sup_step c (AtTop, s) (Live v (start_session c (t_start t) ?w), ?w)"
            by (rule started [OF pv b refl])
          obtain k s2 where k: "select_loop c v (t_events t) (start_session c (t_start t) ?w) ?w = (k, s2)" by fastforce
          note ks = select_loop_steps [OF k]
          show ?thesis
          proof (cases k)
            case (Inl out)
            with ks st have "(sup_step c)\<^sup>*\<^sup>* (AtTop, s) (Over v out, end_session c s2)" by auto
            then show ?thesis
              by (rule fin) (use l Started k Inl in \<open>simp add: run_one_spawn_started\<close>)
          next
            case (Inr st1)
            with ks st have "(sup_step c)\<^sup>*\<^sup>* (AtTop, s) (Live v st1, s2)" by auto
            moreover have "r = Supervising" "s2 = s'" using l Started k Inr by (simp_all add: run_one_spawn_started)
            ultimately show ?thesis by (intro exI [of _ "Live v st1"]) (simp add: outcome_of_def)
          qed
        qed
      qed
    qed
  qed
qed

lemma run_loop_steps:
  "run_loop c ts s = (r, s') \<Longrightarrow> \<exists>p. outcome_of p r \<and> (sup_step c)\<^sup>*\<^sup>* (AtTop, s) (p, s')"
proof (induction ts arbitrary: s)
  case (Cons t ts)
  obtain r1 s1 where l: "loop_step c t s = (r1, s1)" by fastforce
  from loop_step_steps [OF l] obtain p where p: "outcome_of p r1" "(sup_step c)\<^sup>*\<^sup>* (AtTop, s) (p, s1)" by blast
  show ?case
  proof (cases "r1 = Again")
    case True
    with p(1) have "p = AtTop" by (auto simp: outcome_of_def split: phase.splits)
    moreover have "run_loop c ts s1 = (r, s')" using Cons.prems l True by simp
    ultimately show ?thesis using Cons.IH [of s1] p(2) by (meson rtranclp_trans)
  next
    case False
    with Cons.prems l p show ?thesis by (cases r1) auto
  qed
qed (auto simp: outcome_of_def intro!: exI [of _ AtTop])

subsection \<open>The system refines the protocol\<close>

lemma handler_view:
  assumes lay: "layout c" and apart: "store_apart c" and fl: "fleet_ok c fleet" and clean: "faults (s_fs s) = []"
    and w: "worker_step c fleet v (s_fs s) g"
  shows "follows c s (s\<lparr>s_fs := g\<rparr>)"
  using w
proof cases
  case (installs wd sv now rep restart)
  have root: "ac_root (sv_cfg sv) = c_root c" and plain: "\<And>cl m. check_in wd cl = Inr m \<Longrightarrow> plain_name (f_version m)"
    using fl installs(1) by (auto simp: fleet_ok_def)
  have same: "follows c s (s\<lparr>s_fs := s_fs s\<rparr>)" by (rule follows_same [OF clean]) simp_all
  have inst: "follows c s (s\<lparr>s_fs := h\<rparr>)"
    if m: "check_in wd cl = Inr m" and ap: "apply_update untar sha net os arch cfg now (s_fs s) = (q, h)"
      and cfg: "p_root cfg = c_root c" "p_manifest cfg = Some m" for cl m untar sha net os arch cfg q h
  proof (cases "\<exists>art. install_artifact (download_and_extract untar sha (net (a_url art)) art
      (staging_dir (c_root c) (f_version m))) (c_root c) (f_version m) art now (s_fs s) = (q, h)")
    case False
    then have "h = s_fs s" using ap cfg by (auto simp: apply_update_def split: if_splits option.splits)
    with same show ?thesis by simp
  next
    case True
    let ?P = "protected_path (c_root c) (f_version m)"
    from True obtain art where i: "install_artifact (download_and_extract untar sha (net (a_url art)) art
      (staging_dir (c_root c) (f_version m))) (c_root c) (f_version m) art now (s_fs s) = (q, h)" by blast
    have st: "follows c s (s\<lparr>s_fs := k\<rparr>)" if "steady ?P (s_fs s) k" for k
    proof -
      have "?P q" if "q \<in> stored c" for q using apart plain [OF m] that by (simp add: store_apart_def)
      then have "calm c (s_fs s) k" using that clean by (auto simp: steady_def calm_def stored_def)
      then show ?thesis by (intro follows_calm [OF clean]) simp_all
    qed
    have d: "\<forall>f r f'. download_and_extract untar sha (net (a_url art)) art (staging_dir (c_root c) (f_version m)) f = (r, f')
        \<longrightarrow> steady ?P f f'" by (intro allI impI) (rule download_steady)
    from install_artifact_cases [OF i d] show ?thesis
    proof (elim disjE conjE exE)
      fix k n assume k: "steady ?P (s_fs s) k" "activate (c_root c) (f_version m) now n k = (q, h)"
      let ?u = "s\<lparr>s_fs := k\<rparr>"
      have f: "follows c s ?u" by (rule st [OF k(1)])
      have "follows c ?u (s\<lparr>s_fs := h\<rparr>)"
        using activate_seen [OF lay apart, of ?u _ now n q h "s\<lparr>s_fs := h\<rparr>"] follows_clean [OF f] k(2)
        by (simp add: follows_def)
      with f show ?thesis by (rule follows_trans)
    qed (rule st)
  qed
  show ?thesis
    using installs(2) root inst same
    by (auto simp: handle_update_install_def split: option.splits if_splits sum.splits prod.splits)
next
  case (marks wd sv body now brep hook)
  have p: "api_blacklist_path sv = Some (c_blacklist c)" using fl marks(1) by (auto simp: fleet_ok_def)
  have same: "follows c s (s\<lparr>s_fs := s_fs s\<rparr>)" by (rule follows_same [OF clean]) simp_all
  have ad: "follows c s (s\<lparr>s_fs := h\<rparr>)" if "add (c_blacklist c) e now (s_fs s) = (q, h)" for e q h
    using add_view [OF lay clean that, of "s\<lparr>s_fs := h\<rparr>"] by (simp add: follows_def)
  show ?thesis
    using marks(2) p ad same
    by (auto simp: handle_blacklist_add_def Let_def split: option.splits if_splits sum.splits prod.splits)
qed

lemma sup_step_follows:
  assumes lay: "layout c" and st: "sup_step c x y" and clean: "faults (s_fs (snd x)) = []"
  shows "follows c (snd x) (snd y)"
  using st clean
proof induction
  case (cancelled s)
  then show ?case by (intro follows_same) simp_all
next
  case (unresolved s e f)
  then show ?case using calm_steps(1) [OF lay, of "s_fs s"] by (intro follows_calm) simp_all
next
  case (refused s path v f e s')
  then show ?case using resolve_names(1) [OF lay, of "s_fs s" path v f] check_blacklist_follows(1) [OF lay, of s v] by simp
next
  case (skipped s path v f s')
  then show ?case using resolve_names(1) [OF lay, of "s_fs s" path v f] check_blacklist_follows(1) [OF lay, of s v] by simp
next
  case (not_started s path v f s1 err now out s')
  let ?r = "record_history EvSpawn v None [] (prepare_gate c v now s1)"
  have f: "follows c s ?r" by (rule launch_follows [OF lay _ not_started(1,2)]) (use not_started in simp)
  have "follows c ?r s'" using not_started(3) follows_clean [OF f]
    by (intro follows_same) (auto simp: run_one_spawn_def)
  then show ?case unfolding snd_conv by (rule follows_trans [OF f])
next
  case (started s path v f s1 s' pid now)
  let ?r = "record_history EvSpawn v None [] (prepare_gate c v now s1)"
  have f: "follows c s ?r" by (rule launch_follows [OF lay _ started(1,2)]) (use started in simp)
  have "follows c ?r s'" using started(3) calm_steps(5) [OF lay follows_clean [OF f]] follows_clean [OF f]
    by (intro follows_calm) (simp_all add: worker_started_def write_pid_file_def)
  then show ?case unfolding snd_conv by (rule follows_trans [OF f])
next
  case (selected e st s v st' s')
  then show ?case using on_event_follows(1) [OF lay] by simp
next
  case (ended e st s v out s')
  then show ?case using on_event_follows(2) [OF lay] by simp
next
  case (settled v t out s s')
  then show ?case using after_spawn_follows [OF lay, of s v t out] by simp
next
  case (returned v t out s r s')
  then show ?case using after_spawn_follows [OF lay, of s v t out] by simp
qed

definition sound :: "config \<Rightarrow> ('k world \<times> 'k server) set \<Rightarrow> phase \<times> sup \<Rightarrow> bool" where
  "sound c fleet x \<longleftrightarrow> layout c \<and> store_apart c \<and> fleet_ok c fleet \<and> faults (s_fs (snd x)) = []"

lemma sys_step_follows:
  assumes "sound c fleet x" "sys_step c fleet x y"
  shows "follows c (snd x) (snd y)"
proof -
  have a: "layout c" "store_apart c" "fleet_ok c fleet" "faults (s_fs (snd x)) = []"
    using assms(1) by (simp_all add: sound_def)
  show ?thesis
    using assms(2) a(4)
  proof induction
    case (supervisor x y)
    then show ?case by (intro sup_step_follows [OF a(1)])
  next
    case (worker v s g st)
    then show ?case using handler_view [OF a(1-3), of s v g] by simp
  next
    case (elsewhere s g p)
    then show ?case by (intro follows_calm) (auto simp: steady_def calm_def stored_def)
  qed
qed

interpretation sim: simulation "sys_step c fleet" proto_step "\<lambda>x. tree_view c (snd x)" "sound c fleet" for c fleet
proof unfold_locales
  fix x y assume a: "sound c fleet x" "sys_step c fleet x y"
  note f = sys_step_follows [OF a]
  show "sound c fleet y" "proto_step\<^sup>*\<^sup>* (tree_view c (snd x)) (tree_view c (snd y))"
    using a(1) f by (simp_all add: sound_def follows_def)
qed

subsection \<open>What holds of every interleaving\<close>


lemma standard_sound:
  "standard es c \<Longrightarrow> fleet_ok c fleet \<Longrightarrow> faults (s_fs s) = [] \<Longrightarrow> sound c fleet (p, s)"
  by (simp add: sound_def standard_layout standard_apart)

lemma system_protocol:
  assumes "sound c fleet x" "(sys_step c fleet)\<^sup>*\<^sup>* x y"
  shows "proto_step\<^sup>*\<^sup>* (tree_view c (snd x)) (tree_view c (snd y))" "sound c fleet y"
  using sim.run_simulated [OF assms(2,1)] by simp_all

lemma launches_avoid_marked:
  assumes "sound c fleet (p, s)" "(sys_step c fleet)\<^sup>*\<^sup>* (p, s) (p', s')" "v \<in> listed_versions (c_blacklist c) (s_fs s)"
  shows "v \<in> listed_versions (c_blacklist c) (s_fs s')
    \<and> (\<exists>new. spawned (s_log s') = spawned (s_log s) @ new \<and> v \<notin> set new)"
  using proto.marked_never_launched [OF system_protocol(1) [OF assms(1,2)], of v] assms(3) by (simp add: tree_view_def)



subsection \<open>A system for the witnesses\<close>

definition demo_fleet :: "(int world \<times> int server) set" where
  "demo_fleet = {(demo_world, new_server 7 demo_api)}"

lemma check_decodes:
  "check parse_url verify unmarshal net c = Inr m \<Longrightarrow> \<exists>bytes. Option.bind (unmarshal bytes) decode_manifest = Some m"
  by (auto simp: check_def split: sum.splits prod.splits if_splits option.splits)

lemma demo_fleet_ok: "fleet_ok demo_config demo_fleet"
proof -
  have r: "ac_root (sv_cfg (new_server 7 demo_api)) = ''/r''" by (simp add: new_server_def demo_api_def)
  have "path_join [''/r'', ''state'', ''blacklist.json''] = ''/r/state/blacklist.json''" by code_simp
  then have b: "api_blacklist_path (new_server 7 demo_api) = Some (c_blacklist demo_config)"
    by (simp add: api_blacklist_path_def r demo_names)
  have m: "m = demo_manifest" if "check_in demo_world cl = Inr m" for cl m
    using check_decodes [OF that [unfolded check_in_def]]
    by (auto simp: demo_world_def demo_manifest_decodes split: if_splits)
  have "plain_name (f_version demo_manifest)" by (simp add: demo_manifest_def plain_name_def)
  with r b m show ?thesis by (auto simp: fleet_ok_def demo_fleet_def demo_names)
qed

lemma sup_runs: "(sup_step c)\<^sup>*\<^sup>* x y \<Longrightarrow> (sys_step c fleet)\<^sup>*\<^sup>* x y"
  by (induction rule: rtranclp_induct) (auto intro: supervisor rtranclp.rtrancl_into_rtrancl)

lemma banned_listed: "banned c v f \<Longrightarrow> v \<in> listed_versions (c_blacklist c) f"
  using load_clean by (fastforce simp: banned_def listed_versions_def)

lemma demo_run: "\<exists>p s'. (sys_step demo_config demo_fleet)\<^sup>*\<^sup>* (AtTop, demo_sup banned_fs) (p, s')
    \<and> s' = snd (run_loop demo_config [idle_turn (StartFails ''e''), idle_turn (Started 7)] (demo_sup banned_fs))"
proof -
  obtain r s' where l: "run_loop demo_config [idle_turn (StartFails ''e''), idle_turn (Started 7)]
      (demo_sup banned_fs) = (r, s')" by fastforce
  from run_loop_steps [OF l] sup_runs l show ?thesis by fastforce
qed


lemma demo_install_step:
  "\<exists>f'. sys_step demo_config demo_fleet (Live ''v1'' demo_session, demo_sup one_version_fs)
     (Live ''v1'' demo_session, (demo_sup one_version_fs)\<lparr>s_fs := f'\<rparr>)
   \<and> link_at f' ''/r/current'' = Some ''versions/v2''"
proof -
  let ?sv = "new_server 7 demo_api"
  have sv: "ac_root (sv_cfg ?sv) = ''/r''" "sv_updater ?sv = Some (new_client ''https://h/'' ''stable'' 7)"
    "ac_restart (sv_cfg ?sv)" using demo_checked(1) by (simp_all add: new_server_def demo_api_def)
  obtain res f' where "demo_update = (Inr res, f')" using demo_apply_succeeds by blast
  from demo_install_at [OF sv this] obtain rep where
    h: "handle_update_install demo_world ''v1'' (seconds 100) ?sv one_version_fs = (rep, True, f')" "i_version rep = ''v2''"
    by blast
  have "(demo_world, ?sv) \<in> demo_fleet" by (simp add: demo_fleet_def)
  from installs [OF this h(1)] have "worker_step demo_config demo_fleet ''v1'' (s_fs (demo_sup one_version_fs)) f'"
    by (simp add: demo_sup_def)
  note st = worker [OF this, of demo_session]
  have "on_trial demo_config ''v2'' ''versions/v1'' (seconds 100) f'"
    using installed_state [OF h(1), of demo_config "''versions/v1''"] sv(1) demo_updatable h(2)
    by (simp add: demo_names time_is_zero_def time_encodable_def)
  moreover have "path_join [''versions'', ''v2''] = ''versions/v2''" by code_simp
  ultimately have "link_at f' ''/r/current'' = Some ''versions/v2''"
    by (simp add: on_trial_def link_at_def demo_names demo_paths)
  with st show ?thesis by blast
qed


subsection \<open>The supervisor always finds a version\<close>

lemma proto_keeps_current: "proto_step\<^sup>*\<^sup>* p q \<Longrightarrow> at_current p \<noteq> None \<Longrightarrow> at_current q \<noteq> None"
  by (induction rule: rtranclp_induct) (auto elim: proto_step.cases)

lemma rollback_resolved: "fst (rollback c v reason msg s) \<noteq> Some (ResolveFailed e)"
  by (auto simp: rollback_def split: option.splits prod.splits)

lemma install_health_resolved: "fst (rollback_for_install_health c v reason now s) \<noteq> Some (ResolveFailed e)"
  by (simp add: rollback_for_install_health_def Let_def rollback_resolved)

lemma finish_error: "fst (finish p) = Returned (Some e) \<longleftrightarrow> fst p = Some e"
  by (auto simp: finish_def split: prod.splits option.splits)

lemma after_spawn_resolved: "fst (after_spawn c v t out s) \<noteq> Returned (Some (ResolveFailed e))"
  by (cases "o_kind out")
    (simp_all add: after_spawn_def after_crash_def finish_error Let_def attempt_rollback_def
      attempt_worker_requested_rollback_def attempt_spawn_failure_rollback_def rollback_resolved install_health_resolved)

lemma check_blacklist_resolved: "fst (check_blacklist c v s) \<noteq> Inl (ResolveFailed e)"
proof -
  have "e' \<noteq> ResolveFailed e" if "rollback c v r m s1 = (Some e', s2)" for e' r m s1 s2
    using rollback_resolved [of c v r m s1 e] that by auto
  then show ?thesis by (auto simp: check_blacklist_def Let_def split: prod.splits option.splits sum.splits)
qed

lemma resolve_linked:
  assumes "layout c" "faults f = []" "link_at f (current_link (c_root c)) \<noteq> None"
  shows "\<exists>x. fst (resolve c f) = Inr x"
  using assms
  by (auto simp: layout_def resolve_current_def resolve_worker_binary_def os_readlink_def link_at_def Let_def
      split: option.splits node.splits)

lemma step_resolved:
  assumes "sound c fleet x" "at_current (tree_view c (snd x)) \<noteq> None" "sys_step c fleet x y" "fst x \<noteq> Halted (Some (ResolveFailed e))"
  shows "fst y \<noteq> Halted (Some (ResolveFailed e))"
proof
  assume y: "fst y = Halted (Some (ResolveFailed e))"
  have a: "layout c" "faults (s_fs (snd x)) = []" using assms(1) by (simp_all add: sound_def)
  from assms(3) show False
  proof cases
    case (supervisor)
    then show False
    proof cases
      case (unresolved s e' f)
      with resolve_linked [OF a(1), of "s_fs s"] a(2) assms(2) show False by (auto simp: tree_view_def)
    next
      case (refused s path v f e' s')
      with check_blacklist_resolved [of c v "s\<lparr>s_fs := f\<rparr>" e] y show False by simp
    next
      case (returned v t out s r s')
      with after_spawn_resolved [of c v t out s e] y show False by simp
    qed (use y in auto)
  qed (use y assms(4) in auto)
qed



subsection \<open>Two interleavings the code does not guard against\<close>

text \<open>
  The gate's pass deletes whatever marker is there. When an update is installed between READY and
  the pass of the running version's trial, the new version loses its own.
\<close>

lemma pass_drops_new_marker:
  assumes "layout c" "on_trial c w a at (s_fs s)" "tick now (s_gate s) = (GatePass, g)"
  shows "\<exists>st' s'. on_event c v \<lparr>e_at = now, e_kind = SelGate reply\<rparr> st s = (Inr st', s')
    \<and> nodes (s_fs s') (gate_marker_path (c_root c)) = None
    \<and> nodes (s_fs s') (current_link (c_root c)) = Some (Link (path_join [''versions'', w]))"
proof -
  have f: "faults (s_fs s) = []" "nodes (s_fs s) (gate_marker_path (c_root c)) \<noteq> Some Dir"
    "nodes (s_fs s) (current_link (c_root c)) = Some (Link (path_join [''versions'', w]))"
    using assms(2) by (simp_all add: on_trial_def)
  have "gate_marker_path (c_root c) \<noteq> current_link (c_root c)" using assms(1) by (auto simp: layout_def)
  with f assms(3) delete_clean [OF f(1,2)] show ?thesis by (simp add: on_event_def on_gate_timer_def)
qed

text \<open>
  A second update before the restart makes the first one, which never ran, the version a
  rollback returns to; the version that worked is named by no link any more.
\<close>

lemma second_install_drops_fallback:
  assumes "faults f = []" "root \<noteq> []" "link_at f (current_link root) = Some a"
    and "nodes f (previous_link root) \<noteq> Some Dir"
    and "a \<noteq> path_join [''versions'', v]" "path_join [''versions'', v] \<noteq> path_join [''versions'', w]"
    and "a \<noteq> path_join [''versions'', w]"
  shows "\<exists>r f1 r' f2. rotate_symlinks root v f = (Inr r, f1) \<and> rotate_symlinks root w f1 = (Inr r', f2)
    \<and> link_at f2 (previous_link root) = Some (path_join [''versions'', v])
    \<and> link_at f2 (current_link root) \<noteq> Some a"
proof -
  have n: "nodes f (current_link root) = Some (Link a)"
    using assms(3) by (auto simp: link_at_def split: option.splits node.splits)
  note d = link_paths_distinct(1) [OF assms(2)]
  obtain f1 where 1: "rotate_symlinks root v f = (Inr (a, path_join [''versions'', v], a), f1)" "faults f1 = []"
    "nodes f1 = (nodes f)(previous_link root \<mapsto> Link a, current_link root \<mapsto> Link (path_join [''versions'', v]))"
    using rotate_clean [OF assms(1,2) n assms(5,4)] by blast
  have m: "nodes f1 (current_link root) = Some (Link (path_join [''versions'', v]))"
    "nodes f1 (previous_link root) \<noteq> Some Dir" using 1(3) d by simp_all
  obtain f2 where 2: "rotate_symlinks root w f1 = (Inr (path_join [''versions'', v], path_join [''versions'', w],
      path_join [''versions'', v]), f2)"
    "nodes f2 = (nodes f1)(previous_link root \<mapsto> Link (path_join [''versions'', v]),
      current_link root \<mapsto> Link (path_join [''versions'', w]))"
    using rotate_clean [OF 1(2) assms(2) m(1) assms(6) m(2)] by blast
  show ?thesis
    by (intro exI conjI) (rule 1(1), rule 2(1), use 2(2) d assms(7) in \<open>simp_all add: link_at_def\<close>)
qed

end
