(* ===== verification/CrashLoop.thy ===== *)
theory CrashLoop
  imports Lifecycle Protocol
begin

section \<open>A version that keeps crashing is replaced\<close>

text \<open>
  The crash budget through the whole loop: every one of \<open>crash_cap\<close> iterations spawns the current
  version, its worker talks as it likes and dies, and the last one exchanges the links.
  \<open>crash_script\<close> is the shape of the events of such an iteration, \<open>fit\<close> the state of the files it
  needs; the lemmas take one iteration, the theorem all of them.
\<close>

fun crash_script :: "event list \<Rightarrow> bool" where
  \<comment> \<open>messages, datagrams and hangups, then an exit other than the two reserved ones\<close>
  "crash_script [] = False"
| "crash_script (e # es) =
     (case e_kind e of
        SelExit ws \<Rightarrow> classify_exit_code (from_process_state ws) \<notin> {ClassNoRestart, ClassRollback}
      | SelMsg \<Rightarrow> crash_script es | SelClosed \<Rightarrow> crash_script es | Arrive _ \<Rightarrow> crash_script es | Hup \<Rightarrow> crash_script es
      | _ \<Rightarrow> False)"

definition msg_times :: "event list \<Rightarrow> instant set" where
  "msg_times es = e_at ` {e \<in> set es. e_kind e = SelMsg}"

definition fit :: "config \<Rightarrow> string \<Rightarrow> string \<Rightarrow> fsys \<Rightarrow> bool" where
  \<comment> \<open>no call fails, the links name two versions, the current one is not listed and not on trial\<close>
  "fit c a b f \<longleftrightarrow> faults f = []
     \<and> nodes f (current_link (c_root c)) = Some (Link a) \<and> nodes f (previous_link (c_root c)) = Some (Link b) \<and> a \<noteq> b
     \<and> nodes f (swap_tmp (c_root c)) \<noteq> Some Dir \<and> nodes f (gate_marker_path (c_root c)) = None
     \<and> base_name a \<notin> listed_versions (c_blacklist c) f"

lemma fit_kept:
  assumes "layout c" "fit c a b f" "only_at {pid_path c} f g" "faults g = []"
  shows "fit c a b g"
proof -
  have "listed_versions (c_blacklist c) g = listed_versions (c_blacklist c) f"
    using pid_path_apart [OF assms(1,3)] assms(2,4) by (intro listed_same) (simp_all add: fit_def)
  with assms pid_path_apart [OF assms(1,3)] show ?thesis by (simp add: fit_def)
qed

subsection \<open>One session\<close>

definition untouched :: "sup \<Rightarrow> sup \<Rightarrow> instant set \<Rightarrow> bool" where
  \<comment> \<open>what a branch of the select keeps while no install is on trial\<close>
  "untouched s s' T \<longleftrightarrow> s_fs s' = s_fs s \<and> s_gate s' = s_gate s \<and> s_sleeps s' = s_sleeps s
     \<and> crashes (s_tracker s') = crashes (s_tracker s) \<and> policy (s_tracker s') = policy (s_tracker s)
     \<and> running (s_tracker s') \<in> insert (running (s_tracker s)) T"

lemma untouched_refl: "untouched s s T"
  by (simp add: untouched_def)

lemma untouched_trans: "untouched s t T \<Longrightarrow> untouched t u U \<Longrightarrow> T \<subseteq> V \<Longrightarrow> U \<subseteq> V \<Longrightarrow> untouched s u V"
  by (auto simp: untouched_def)

lemma on_kinds_untouched:
  "\<not> is_active (s_gate s) \<Longrightarrow> on_kinds c now ks st s = (st', s') \<Longrightarrow> untouched s s' {now}"
proof (induction ks arbitrary: st s)
  case (Cons k ks)
  obtain st1 s1 where k: "on_notify c now k st s = (st1, s1)" by fastforce
  have u: "untouched s s1 {now}" using k Cons.prems(1)
    by (auto simp: on_notify_def on_ready_kind_def untouched_def mark_running_def Let_def
        split: notify_kind.splits if_splits)
  then have "\<not> is_active (s_gate s1)" using Cons.prems(1) by (simp add: untouched_def)
  from Cons.IH [OF this, of st1] Cons.prems(2) k have "untouched s1 s' {now}" by simp
  with u show ?case using untouched_trans by blast
qed (simp add: untouched_refl)

lemma record_history_sleeps [simp]: "s_sleeps (record_history e v x r s) = s_sleeps s"
  by (simp add: record_history_def)

lemma script_crashes:
  assumes "crash_script es" "\<not> is_active (s_gate s)"
  shows "\<exists>out s'. select_loop c v es st s = (Inl out, s') \<and> o_kind out = OutCrash \<and> untouched s s' (msg_times es)"
  using assms
proof (induction es arbitrary: st s)
  case (Cons e es)
  have sub: "msg_times es \<subseteq> msg_times (e # es)" by (auto simp: msg_times_def)
  have step: ?case if "crash_script es" "on_event c v e st s = (Inr st1, s1)" "untouched s s1 (msg_times (e # es))" for st1 s1
  proof (cases "enabled e st s")
    case True
    have "\<not> is_active (s_gate s1)" using that(3) Cons.prems(2) by (simp add: untouched_def)
    from Cons.IH [OF that(1) this, of st1] obtain out s' where
      "select_loop c v es st1 s1 = (Inl out, s')" "o_kind out = OutCrash" "untouched s1 s' (msg_times es)" by blast
    with that True sub show ?thesis by (auto intro: untouched_trans)
  next
    case False
    from Cons.IH [OF that(1) Cons.prems(2), of st] obtain out s' where
      "select_loop c v es st s = (Inl out, s')" "o_kind out = OutCrash" "untouched s s' (msg_times es)" by blast
    with False sub show ?thesis using untouched_trans [OF untouched_refl] by fastforce
  qed
  show ?case
  proof (cases "e_kind e")
    case (SelExit ws)
    then show ?thesis
      using Cons.prems
      by (cases "classify_exit_code (from_process_state ws)")
        (auto simp: enabled_def on_event_def classify_outcome_def demote_def untouched_def Let_def)
  next
    case SelMsg
    then have cs: "crash_script es" using Cons.prems(1) by simp
    show ?thesis
    proof (cases "s_queue s")
      case Nil
      with SelMsg step [OF cs, of st s] show ?thesis by (simp add: on_event_def untouched_refl)
    next
      case (Cons m q)
      obtain st1 s1 where k: "on_kinds c (e_at e) (kinds m) st (s\<lparr>s_queue := q\<rparr>) = (st1, s1)" by fastforce
      have "untouched (s\<lparr>s_queue := q\<rparr>) s1 {e_at e}" using on_kinds_untouched [OF _ k] \<open>\<not> is_active (s_gate s)\<close> by simp
      then have "untouched s s1 (msg_times (e # es))" using SelMsg by (auto simp: untouched_def msg_times_def)
      with k SelMsg Cons step [OF cs, of st1 s1] show ?thesis by (simp add: on_event_def)
    qed
  next
    case SelClosed
    with Cons.prems(1) step [of st s] show ?thesis by (simp add: on_event_def untouched_refl)
  next
    case (Arrive d)
    with Cons.prems(1) step [of st "s\<lparr>s_queue := serve_datagram d (s_queue s)\<rparr>"] show ?thesis
      by (simp add: on_event_def untouched_def)
  next
    case Hup
    have "untouched s (forward_hup s) T" for T
      by (simp add: untouched_def forward_hup_def send_signal_def split: option.split)
    with Hup Cons.prems(1) step [of st "forward_hup s"] show ?thesis by (simp add: on_event_def)
  qed (use Cons.prems(1) in auto)
qed simp

subsection \<open>One iteration\<close>

definition crash_turn :: "turn \<Rightarrow> bool" where
  \<comment> \<open>the worker is spawned and crashes, and nobody cancels\<close>
  "crash_turn t \<longleftrightarrow> \<not> t_cancelled t \<and> (case t_spawn t of Started _ \<Rightarrow> True | StartFails _ \<Rightarrow> False)
     \<and> crash_script (t_events t) \<and> \<not> t_cancelled_end t \<and> \<not> t_woken t"

definition short_lived :: "policy \<Rightarrow> turn \<Rightarrow> bool" where
  \<comment> \<open>the worker did not run long enough to be given a clean slate\<close>
  "short_lived p t \<longleftrightarrow> (\<forall>x \<in> msg_times (t_events t). time_sub (t_end t) x < steady_reset p)"

lemma prepare_gate_unmarked:
  assumes "faults (s_fs s) = []" "nodes (s_fs s) (gate_marker_path (c_root c)) = None"
  shows "prepare_gate c v now s = s\<lparr>s_gate := gate_reset (s_gate s)\<rparr>"
proof -
  have "read_gate_marker (c_root c) (s_fs s) = (Inr zero_marker, s_fs s)"
    using assms by (simp add: read_gate_marker_def os_read_file_def)
  then show ?thesis by (cases s) (simp add: prepare_gate_def zero_marker_def Let_def)
qed

lemma gate_reset_inactive: "\<not> is_active (gate_reset g)"
  by (simp add: gate_reset_def is_active_def)

lemma turn_unlisted:
  assumes "layout c" "fit c a b (s_fs s)"
  shows "\<exists>path. resolve c (s_fs s) = (Inr (path, base_name a), s_fs s)"
    and "check_blacklist c (base_name a) s = (Inr False, s)"
proof -
  have f: "faults (s_fs s) = []" "nodes (s_fs s) (current_link (c_root c)) = Some (Link a)"
    and nl: "base_name a \<notin> listed_versions (c_blacklist c) (s_fs s)"
    using assms(2) by (simp_all add: fit_def)
  show "\<exists>path. resolve c (s_fs s) = (Inr (path, base_name a), s_fs s)"
    using assms(1) f by (simp add: layout_def resolve_current_def resolve_worker_binary_def os_readlink_def Let_def)
  obtain r where l: "load (c_blacklist c) (s_fs s) = (r, s_fs s)"
    using load_faults [OF f(1), of "c_blacklist c"] by (cases "load (c_blacklist c) (s_fs s)") simp
  show "check_blacklist c (base_name a) s = (Inr False, s)"
    using l nl by (cases r) (simp_all add: check_blacklist_def listed_versions_def)
qed

lemma worker_files:
  assumes "layout c" "fit c a b (s_fs s)"
  shows "fit c a b (s_fs (write_pid_file c pid s))" "fit c a b (s_fs (end_session c s))"
proof -
  have f: "faults (s_fs s) = []" using assms(2) by (simp add: fit_def)
  have "only_at {pid_path c} (s_fs s) (s_fs (write_pid_file c pid s))" "faults (s_fs (write_pid_file c pid s)) = []"
    using f by (simp_all add: write_pid_file_def only_at_def os_outside os_clean)
  then show "fit c a b (s_fs (write_pid_file c pid s))" by (rule fit_kept [OF assms])
  show "fit c a b (s_fs (end_session c s))"
    using end_session_clean [OF assms(1) f] by (intro fit_kept [OF assms]) simp_all
qed

lemma crash_iteration:
  assumes lay: "layout c" and fit: "fit c a b (s_fs s)" and t: "crash_turn t"
  shows "\<exists>s1. loop_step c t s = after_crash c (base_name a) t s1 \<and> fit c a b (s_fs s1) \<and> \<not> is_active (s_gate s1)
    \<and> crashes (s_tracker s1) = crashes (s_tracker s) \<and> policy (s_tracker s1) = policy (s_tracker s)
    \<and> running (s_tracker s1) \<in> insert (running (s_tracker s)) (msg_times (t_events t))
    \<and> spawned (s_log s1) = spawned (s_log s) @ [base_name a]"
proof -
  let ?v = "base_name a"
  obtain pid where pid: "t_spawn t = Started pid" using t by (auto simp: crash_turn_def split: spawn_try.splits)
  obtain path where r: "resolve c (s_fs s) = (Inr (path, ?v), s_fs s)" using turn_unlisted(1) [OF lay fit] by blast
  have same: "s\<lparr>s_fs := s_fs s\<rparr> = s" by simp
  let ?g = "s\<lparr>s_gate := gate_reset (s_gate s)\<rparr>"
  have g: "prepare_gate c ?v (t_start t) s = ?g" using fit by (intro prepare_gate_unmarked) (simp_all add: fit_def)
  let ?w = "write_pid_file c pid (record_history EvSpawn ?v None [] ?g\<lparr>s_current := Some pid\<rparr>)"
  have w: "s_gate ?w = gate_reset (s_gate s)" "s_tracker ?w = s_tracker s" "spawned (s_log ?w) = spawned (s_log s) @ [?v]"
    by (simp_all add: write_pid_file_def)
  have fw: "fit c a b (s_fs ?w)" using worker_files(1) [OF lay, of a b "record_history EvSpawn ?v None [] ?g\<lparr>s_current := Some pid\<rparr>"] fit
    by simp
  obtain out s1 where l: "select_loop c ?v (t_events t) (start_session c (t_start t) ?w) ?w = (Inl out, s1)"
    "o_kind out = OutCrash" "untouched ?w s1 (msg_times (t_events t))"
  proof -
    have "crash_script (t_events t)" "\<not> is_active (s_gate ?w)"
      using t w(1) gate_reset_inactive by (simp_all add: crash_turn_def)
    from script_crashes [OF this, of c ?v "start_session c (t_start t) ?w"] that show thesis by blast
  qed
  from select_loop_log [OF l(1)] l(2) have lg: "spawned (s_log s1) = spawned (s_log ?w)"
    by (auto simp: spawned_def)
  let ?e = "end_session c s1"
  have run: "run_one_spawn c ?v (t_spawn t) (t_start t) (t_events t) ?g = (Some out, ?e)"
    using l(1) by (simp add: run_one_spawn_def pid Let_def)
  have "loop_step c t s = after_spawn c ?v t out ?e"
    using t r turn_unlisted(2) [OF lay fit] g run by (simp add: loop_step_def crash_turn_def same)
  also have "\<dots> = after_crash c ?v t ?e" using l(2) by (simp add: after_spawn_def)
  finally have ls: "loop_step c t s = after_crash c ?v t ?e" .
  have "fit c a b (s_fs s1)" using fw l(3) by (simp add: untouched_def)
  from worker_files(2) [OF lay this] have fe: "fit c a b (s_fs ?e)" .
  show ?thesis
    using ls fe l(3) w lg gate_reset_inactive by (intro exI [of _ ?e]) (simp add: end_session_rest untouched_def)
qed

subsection \<open>The budget\<close>

lemma record_crash_within:
  assumes ok: "policy_ok (policy t)" and run: "running t = 0 \<or> time_sub now (running t) < steady_reset (policy t)"
    and near: "\<forall>x \<in> insert now (set (crashes t)). now - x \<le> crash_window (policy t)"
  shows "crashes (record_crash now t) = crashes t @ [now]" "running (record_crash now t) = 0"
    "policy (record_crash now t) = policy t"
proof -
  have "wrap64 (- crash_window (policy t)) = - crash_window (policy t)"
    using ok by (intro wrap64_id) (auto simp: policy_ok_def in_int64_def)
  then have "filter (\<lambda>ts. \<not> time_before ts (time_add now (wrap64 (- crash_window (policy t))))) (crashes t @ [now]) = crashes t @ [now]"
    using near by (intro filter_True) (auto simp: time_before_def time_add_def)
  then show "crashes (record_crash now t) = crashes t @ [now]" "running (record_crash now t) = 0"
    "policy (record_crash now t) = policy t"
    using run by (auto simp: record_crash_def Let_def time_is_zero_def)
qed

lemma crash_run:
  assumes lay: "layout c" and ok: "policy_ok p"
  shows "fit c a b (s_fs s) \<Longrightarrow> policy (s_tracker s) = p \<Longrightarrow> running (s_tracker s) = 0 \<Longrightarrow> ts \<noteq> [] \<Longrightarrow>
    int (length (crashes (s_tracker s)) + length ts) = crash_cap p \<Longrightarrow>
    \<forall>t \<in> set ts. crash_turn t \<and> short_lived p t \<Longrightarrow>
    \<forall>x \<in> set (crashes (s_tracker s)) \<union> t_end ` set ts. \<forall>y \<in> t_end ` set ts. y - x \<le> crash_window p \<Longrightarrow>
    \<exists>s'. run_loop c ts s = (Again, s') \<and> link_at (s_fs s') (current_link (c_root c)) = Some b
      \<and> link_at (s_fs s') (previous_link (c_root c)) = Some a \<and> crashes (s_tracker s') = []
      \<and> spawned (s_log s') = spawned (s_log s) @ replicate (length ts) (base_name a)
      \<and> h_event (last (s_log s')) = EvRollback \<and> h_version (last (s_log s')) = base_name a
      \<and> h_reason (last (s_log s')) = ''crash-loop''"
proof (induction ts arbitrary: s)
  case (Cons t ts)
  let ?v = "base_name a"
  have t: "crash_turn t" "short_lived p t" using Cons.prems(6) by simp_all
  obtain s1 where s1: "loop_step c t s = after_crash c ?v t s1" "fit c a b (s_fs s1)" "\<not> is_active (s_gate s1)"
    "crashes (s_tracker s1) = crashes (s_tracker s)" "policy (s_tracker s1) = p"
    "running (s_tracker s1) \<in> insert 0 (msg_times (t_events t))"
    "spawned (s_log s1) = spawned (s_log s) @ [?v]"
    using crash_iteration [OF lay Cons.prems(1) t(1)] Cons.prems(2,3) by auto
  let ?tr = "record_crash (t_end t) (s_tracker s1)"
  have near: "\<forall>x \<in> insert (t_end t) (set (crashes (s_tracker s1))). t_end t - x \<le> crash_window (policy (s_tracker s1))"
    using Cons.prems(7) ok s1(4,5) by (auto simp: policy_ok_def)
  have "running (s_tracker s1) = 0 \<or> time_sub (t_end t) (running (s_tracker s1)) < steady_reset (policy (s_tracker s1))"
    using s1(5,6) t(2) by (auto simp: short_lived_def)
  from record_crash_within [OF _ this near] ok s1(4,5)
  have tr: "crashes ?tr = crashes (s_tracker s) @ [t_end t]" "running ?tr = 0" "policy ?tr = p" by simp_all
  let ?s = "s1\<lparr>s_tracker := ?tr\<rparr>"
  show ?case
  proof (cases "ts = []")
    case True
    then have "should_rollback ?tr" using Cons.prems(5) tr by (simp add: should_rollback_def consecutive_def)
    then have ls: "loop_step c t s = finish (attempt_rollback c ?v ?s)" using s1(1,3) by (simp add: after_crash_def)
    have f: "faults (s_fs ?s) = []" "nodes (s_fs ?s) (current_link (c_root c)) = Some (Link a)"
      "nodes (s_fs ?s) (previous_link (c_root c)) = Some (Link b)" "a \<noteq> b"
      "nodes (s_fs ?s) (swap_tmp (c_root c)) \<noteq> Some Dir" using s1(2) by (simp_all add: fit_def)
    from rollback_clean [OF lay f, of ?v "''crash-loop''" "''crash-loop with no rollback target''"] obtain s' h where
      s': "attempt_rollback c ?v ?s = (None, s')" "link_at (s_fs s') (current_link (c_root c)) = Some b"
      "link_at (s_fs s') (previous_link (c_root c)) = Some a" "s_tracker s' = reset ?tr"
      "s_log s' = s_log s1 @ [h]" "h_event h = EvRollback" "h_version h = ?v" "h_reason h = ''crash-loop''"
      by (auto simp: attempt_rollback_def)
    have "spawned (s_log s') = spawned (s_log s) @ [?v]" using s1(7) s'(5,6) by (simp add: spawned_def)
    with s' ls True show ?thesis by (simp add: finish_def reset_def)
  next
    case False
    then have "\<not> should_rollback ?tr"
      using Cons.prems(5) tr by (cases ts) (simp_all add: should_rollback_def consecutive_def)
    then obtain d where ls: "loop_step c t s = (Again, ?s\<lparr>s_sleeps := d\<rparr>)"
      using s1(1,3) t(1) by (simp add: after_crash_def sleep_def crash_turn_def Let_def)
    let ?n = "?s\<lparr>s_sleeps := d\<rparr>"
    have "\<exists>s'. run_loop c ts ?n = (Again, s') \<and> link_at (s_fs s') (current_link (c_root c)) = Some b
      \<and> link_at (s_fs s') (previous_link (c_root c)) = Some a \<and> crashes (s_tracker s') = []
      \<and> spawned (s_log s') = spawned (s_log ?n) @ replicate (length ts) ?v
      \<and> h_event (last (s_log s')) = EvRollback \<and> h_version (last (s_log s')) = ?v
      \<and> h_reason (last (s_log s')) = ''crash-loop''"
      by (rule Cons.IH) (use s1 tr False Cons.prems(5-7) in auto)
    with ls s1(7) show ?thesis by auto
  qed
qed simp

text \<open>
  C8: a crash loop is broken. When the current version's worker crashes \<open>crash_cap\<close> times, the
  crashes lying within the window and no worker having lived long enough for a clean slate, whatever
  the workers send in between, whatever they exit with and whenever they are spawned, the loop makes
  exactly that many attempts and then the previous version current, keeps the bad one as previous,
  records the rollback with its reason and starts counting afresh.
\<close>
theorem crash_loop_rolls_back:
  assumes "layout c" and "fit c a b (s_fs s)" and "s_tracker s = new_tracker p" and "policy_ok p"
    and "int (length ts) = crash_cap p" and "ts \<noteq> []"
    and "\<forall>t \<in> set ts. crash_turn t \<and> short_lived p t"
    and "\<forall>t \<in> set ts. \<forall>u \<in> set ts. t_end u - t_end t \<le> crash_window p"
  shows "\<exists>s'. run_loop c ts s = (Again, s')
    \<and> link_at (s_fs s') (current_link (c_root c)) = Some b \<and> link_at (s_fs s') (previous_link (c_root c)) = Some a
    \<and> spawned (s_log s') = spawned (s_log s) @ replicate (length ts) (base_name a)
    \<and> h_event (last (s_log s')) = EvRollback \<and> h_version (last (s_log s')) = base_name a
    \<and> h_reason (last (s_log s')) = ''crash-loop'' \<and> consecutive (s_tracker s') = 0"
  using crash_run [OF assms(1,4,2), of ts] assms(3,5-8)
  by (auto simp: new_tracker_def consecutive_def)

definition dying_turn :: "instant \<Rightarrow> turn" where
  "dying_turn at = \<lparr>t_cancelled = False, t_start = at, t_spawn = Started 7,
     t_events = [\<lparr>e_at = at + millis 10, e_kind = Arrive ''READY=1''\<rparr>, \<lparr>e_at = at + millis 20, e_kind = SelMsg\<rparr>,
       \<lparr>e_at = at + millis 70, e_kind = SelExit (Some (Exited 1))\<rparr>],
     t_end = at + millis 70, t_rand = 0, t_cancelled_end = False, t_woken = False\<rparr>"

lemma dying_turn_crashes: "crash_turn (dying_turn at)" "short_lived new_backoff (dying_turn at)"
  by (auto simp: crash_turn_def dying_turn_def classify_exit_code_def short_lived_def msg_times_def
      new_backoff_def time_sub_def)

lemma crash_loop_rolls_back_witness:
  "\<exists>s'. run_loop demo_config [dying_turn (seconds 100), dying_turn (seconds 102), dying_turn (seconds 105)]
      (demo_sup (links_fs [])) = (Again, s')
    \<and> link_at (s_fs s') ''/r/current'' = Some ''versions/v1''
    \<and> spawned (s_log s') = [''v2'', ''v2'', ''v2'']"
proof -
  have b: "base_name ''versions/v2'' = ''v2''" by code_simp
  have f: "fit demo_config ''versions/v2'' ''versions/v1'' (s_fs (demo_sup (links_fs [])))"
    by (simp add: fit_def demo_sup_def links_fs_def demo_names demo_paths b listed_versions_def load_def
        os_read_file_def contains_def)
  have ok: "policy_ok new_backoff" by (simp add: policy_ok_def new_backoff_def in_int64_def)
  have tr: "s_tracker (demo_sup (links_fs [])) = new_tracker new_backoff" by (simp add: demo_sup_def)
  let ?ts = "[dying_turn (seconds 100), dying_turn (seconds 102), dying_turn (seconds 105)]"
  have "int (length ?ts) = crash_cap new_backoff" "?ts \<noteq> []" by (simp_all add: new_backoff_def)
  moreover have "\<forall>t \<in> set ?ts. crash_turn t \<and> short_lived new_backoff t" using dying_turn_crashes by simp
  moreover have "\<forall>t \<in> set ?ts. \<forall>u \<in> set ?ts. t_end u - t_end t \<le> crash_window new_backoff"
    by (simp add: dying_turn_def new_backoff_def)
  ultimately show ?thesis
    using crash_loop_rolls_back [OF demo_layout f tr ok, of ?ts] b
    by (auto simp: demo_names demo_paths demo_sup_def numeral_3_eq_3)
qed

end
