(* ===== verification/Gateway.thy ===== *)
theory Gateway
  imports Actions Discover
begin

section \<open>The manager's background work and its readers (internal/openclaw/poller.go, internal/agent)\<close>

text \<open>
  \<open>hub\<close> holds the fields of \<^verbatim>\<open>Manager\<close> the probes are parameterised by: the runner, the polling
  interval and the state directory; \<open>start_poller\<close> is \<^verbatim>\<open>Start\<close>, \<open>run_address_resolver\<close> the goroutine
  beside it. The handlers of the status and of the action log read what they leave. The lemmas
  reduce the poller to the interleavings of theory \<open>Poller\<close>, so that what holds of those holds of it.
\<close>

subsection \<open>Which openclaw is driven\<close>

record runner =
  rn_binary :: string
  rn_env :: "string list option"

record hub =
  hb_runner :: runner
  hb_interval :: duration
  hb_state_dir :: string

definition active_poll_interval :: duration where "active_poll_interval = seconds 1"
definition idle_poll_interval :: duration where "idle_poll_interval = seconds 2"

definition new_hub :: "runner \<Rightarrow> duration \<Rightarrow> hub" where
  \<comment> \<open>the other half of \<^verbatim>\<open>NewManager\<close>\<close>
  "new_hub r interval = \<lparr>hb_runner = r,
     hb_interval = (if interval \<le> 0 then active_poll_interval else interval), hb_state_dir = []\<rparr>"

definition with_state_dir :: "string \<Rightarrow> hub \<Rightarrow> hub" where
  "with_state_dir dir h = h\<lparr>hb_state_dir := dir\<rparr>"

definition resolve_runner :: "host \<Rightarrow> hub \<Rightarrow> runner \<times> discovery" where
  "resolve_runner h b =
     (let disc = \<lparr>d_path = [], d_source = SourceNone\<rparr>; r = hb_runner b
      in if rn_binary r \<noteq> [] then (r, disc)
         else (let disc = discover h (hb_state_dir b)
               in (if d_path disc \<noteq> [] then r\<lparr>rn_binary := d_path disc\<rparr> else r, disc)))"

definition manager_runner :: "host \<Rightarrow> hub \<Rightarrow> runner" where
  \<comment> \<open>\<^verbatim>\<open>Manager.Runner\<close>\<close>
  "manager_runner h b = fst (resolve_runner h b)"

text \<open>
  The binary is the one configured or one the discovery vouches for, and an empty one means that
  \<open>run_cmd\<close> looks the default name up on the path.
\<close>

lemma resolve_runner_binary:
  "rn_binary (manager_runner h b) = rn_binary (hb_runner b) \<and> (rn_binary (hb_runner b) \<noteq> [] \<or> d_path (discover h (hb_state_dir b)) = [])
   \<or> rn_binary (hb_runner b) = [] \<and> rn_binary (manager_runner h b) = d_path (discover h (hb_state_dir b))"
  by (simp add: manager_runner_def resolve_runner_def Let_def)

lemma resolve_runner_env: "rn_env (manager_runner h b) = rn_env (hb_runner b)"
  by (simp add: manager_runner_def resolve_runner_def Let_def)

text \<open>
  The discovery runs again on every call: a binary that appears between a probe and a repair is
  the one the repair drives, although the probe looked at none.
\<close>

lemma runner_rediscovers:
  assumes "rn_binary (hb_runner b) = []" "d_path (discover h (hb_state_dir b)) \<noteq> d_path (discover h' (hb_state_dir b))"
  shows "rn_binary (manager_runner h b) \<noteq> rn_binary (manager_runner h' b)"
  using assms by (auto simp: manager_runner_def resolve_runner_def Let_def)

subsection \<open>The loops\<close>

fun poll_rounds :: "(string \<Rightarrow> json option) \<Rightarrow> duration \<Rightarrow> (op list \<times> probe_env) list \<Rightarrow> manager \<Rightarrow> manager \<times> duration list" where
  \<comment> \<open>one wait after another: what the other goroutines do during it, then the probe; the list
    ends when the context is cancelled. Also the delays that were set.\<close>
  "poll_rounds um interval [] m = (m, [poll_delay interval m])"
| "poll_rounds um interval ((others, q) # rs) m =
     (let d = poll_delay interval m; (m, ds) = poll_rounds um interval rs (probe_now um q (run_ops um m others))
      in (m, d # ds))"

definition start_poller :: "(string \<Rightarrow> json option) \<Rightarrow> hub \<Rightarrow> probe_env \<Rightarrow> (op list \<times> probe_env) list \<Rightarrow> manager \<Rightarrow> manager \<times> duration list" where
  "start_poller um b q rs m = poll_rounds um (hb_interval b) rs (probe_now um q m)"

definition run_address_resolver ::
  "(string \<Rightarrow> json option) \<Rightarrow> string \<times> proc \<times> instant \<Rightarrow> (string \<times> proc \<times> instant) list \<Rightarrow> manager \<Rightarrow> manager" where
  \<comment> \<open>at once, then at every tick\<close>
  "run_address_resolver um r rs m = foldl (\<lambda>m (b, p, t). resolve_once um b p t m) m (r # rs)"

definition address_refresh_interval :: duration where "address_refresh_interval = minutes 5"

definition current_action :: "manager \<Rightarrow> string" where "current_action m = g_action m"

definition action_log_copy :: "manager \<Rightarrow> action_log" where
  \<comment> \<open>\<^verbatim>\<open>ActionLog\<close>: a nil slice is replaced by an empty one, which the model does not tell apart\<close>
  "action_log_copy m = g_log m"

definition store_set :: "(snapshot \<Rightarrow> snapshot) \<Rightarrow> manager \<Rightarrow> manager" where
  "store_set mut m = m\<lparr>g_store := mut (g_store m)\<rparr>"

lemma set_intent_store: "set_intent i = store_set (\<lambda>s. s\<lparr>n_intent := i\<rparr>)"
  by (simp add: fun_eq_iff set_intent_def store_set_def)

lemma run_ops_append: "run_ops um m (xs @ ys) = run_ops um (run_ops um m xs) ys"
  by (simp add: run_ops_def)

lemma probe_now_op: "probe_now um q m = apply_op um m (Probe (g_addr m) (g_store m) q)"
  by (simp add: probe_now_def)

lemma samples_append: "samples (xs @ ys) = samples xs @ samples ys"
  by (simp add: samples_def)

text \<open>The poller is one interleaving of operations, with a probe per round.\<close>

lemma poll_rounds_ops:
  "\<exists>ops. fst (poll_rounds um iv rs m) = run_ops um m ops
    \<and> length (samples ops) = length rs + sum_list (map (\<lambda>(others, q). length (samples others)) rs)"
proof (induction rs arbitrary: m)
  case Nil
  show ?case by (intro exI [of _ "[]"]) (simp add: run_ops_def samples_def)
next
  case (Cons r rs)
  obtain others q where r: "r = (others, q)" by (cases r)
  let ?m = "run_ops um m others"
  let ?p = "Probe (g_addr ?m) (g_store ?m) q"
  from Cons.IH [of "probe_now um q ?m"] obtain ops where
    ops: "fst (poll_rounds um iv rs (probe_now um q ?m)) = run_ops um (probe_now um q ?m) ops"
    "length (samples ops) = length rs + sum_list (map (\<lambda>(others, q). length (samples others)) rs)" by blast
  have "run_ops um m (others @ ?p # ops) = run_ops um (probe_now um q ?m) ops"
    by (simp add: run_ops_append) (simp add: run_ops_def probe_now_op)
  moreover have "length (samples (others @ ?p # ops)) = length (samples others) + 1 + length (samples ops)"
    by (simp add: samples_append) (simp add: samples_def)
  ultimately show ?case using ops r
    by (intro exI [of _ "others @ ?p # ops"]) (simp add: split_def)
qed

lemma start_poller_ops:
  "\<exists>ops. fst (start_poller um b q rs m) = run_ops um m ops \<and> length rs + 1 \<le> length (samples ops)"
proof -
  let ?p = "Probe (g_addr m) (g_store m) q"
  obtain ops where ops: "fst (poll_rounds um (hb_interval b) rs (probe_now um q m)) = run_ops um (probe_now um q m) ops"
    "length rs \<le> length (samples ops)" using poll_rounds_ops by (metis le_add1)
  have "run_ops um m (?p # ops) = run_ops um (probe_now um q m) ops" by (simp add: run_ops_def probe_now_op)
  with ops show ?thesis
    by (intro exI [of _ "?p # ops"]) (simp add: start_poller_def samples_def)
qed

text \<open>Every wait is one of two intervals, and a gateway seen alive is probed at the active one.\<close>

lemma poll_rounds_delays: "set (snd (poll_rounds um iv rs m)) \<subseteq> {iv, idle_poll_interval}"
proof (induction rs arbitrary: m)
  case (Cons r rs)
  show ?case
    using Cons.IH by (cases r) (auto simp: poll_delay_def idle_poll_interval_def split_def Let_def)
qed (simp add: poll_delay_def idle_poll_interval_def)

lemma new_hub_interval: "0 < hb_interval (new_hub r interval)"
  by (simp add: new_hub_def active_poll_interval_def)

lemma poller_never_spins: "d \<in> set (snd (start_poller um (new_hub r interval) q rs m)) \<Longrightarrow> 0 < d"
  using poll_rounds_delays [of um "hb_interval (new_hub r interval)" rs "probe_now um q m"] new_hub_interval [of r interval]
  by (auto simp: start_poller_def idle_poll_interval_def)

text \<open>The resolver writes the address only, and a resolution that fails leaves it.\<close>

lemma resolver_writes_address: "\<exists>a. run_address_resolver um r rs m = m\<lparr>g_addr := a\<rparr>"
proof -
  have one: "\<exists>a. resolve_once um b p t m = m\<lparr>g_addr := a\<rparr>" for b p t m
    by (cases "b = []") (auto simp: resolve_once_def intro: exI [of _ "g_addr m"])
  have "\<exists>a. foldl (\<lambda>m (b, p, t). resolve_once um b p t m) m xs = m\<lparr>g_addr := a\<rparr>" for xs
  proof (induction xs arbitrary: m)
    case Nil
    show ?case by (intro exI [of _ "g_addr m"]) simp
  next
    case (Cons x xs)
    obtain b p t where x: "x = (b, p, t)" by (cases x) auto
    from one obtain a where a: "resolve_once um b p t m = m\<lparr>g_addr := a\<rparr>" by blast
    from Cons.IH [of "m\<lparr>g_addr := a\<rparr>"] show ?case by (simp add: x a)
  qed
  then show ?thesis unfolding run_address_resolver_def .
qed

subsection \<open>The readers\<close>

definition handle_openclaw_status :: "manager option \<Rightarrow> int \<times> snapshot option" where
  "handle_openclaw_status m = (case m of None \<Rightarrow> (503, None) | Some m \<Rightarrow> (200, Some (get m)))"

definition handle_openclaw_action_log :: "manager option \<Rightarrow> int \<times> action_log option" where
  "handle_openclaw_action_log m = (case m of None \<Rightarrow> (503, None) | Some m \<Rightarrow> (200, Some (action_log_copy m)))"

fun drain_events :: "step_event list \<Rightarrow> step_event list" where
  \<comment> \<open>what is left of the channel when it is closed\<close>
  "drain_events [] = []"
| "drain_events (e # es) = drain_events es"

lemma drain_empties: "drain_events es = []"
  by (induction es) simp_all

text \<open>
  A client that reloads during an action reads the action's name from the status at once, whether
  or not a probe has run, and a log of that action.
\<close>

lemma reload_sees_action:
  assumes "name \<noteq> []"
  shows "\<exists>s l. handle_openclaw_status (Some (set_current_action name now m)) = (200, Some s) \<and> n_action s = name
    \<and> handle_openclaw_action_log (Some (set_current_action name now m)) = (200, Some l)
    \<and> l_name l = name \<and> l_running l \<and> l_events l = []"
  using assms
  by (simp add: handle_openclaw_status_def handle_openclaw_action_log_def action_log_copy_def get_def
      set_current_action_def reset_action_log_def)

end
