(* ===== verification/SdClient.thy ===== *)
theory SdClient
  imports Worker
begin

section \<open>The worker's notify client (internal/sdnotify) and its startup failure switch\<close>

text \<open>
  The life of \<^verbatim>\<open>sdnotify.Client\<close> on unix, where \<^verbatim>\<open>net.DialUnix\<close>, the write and the close are what
  the environment decides, and its stub on Windows; \<open>sd_open_of\<close> is what \<^verbatim>\<open>runWorker\<close> makes of
  the outcome. Then the two programs that fail on purpose, so that the supervisor's handling of
  them can be tried: the switch compiled in with the tag \<^verbatim>\<open>failstartup\<close> and the stand-in worker
  \<^verbatim>\<open>crash-after-ready\<close>.
\<close>

subsection \<open>Opening, sending and closing\<close>

record sd_client =
  sc_conn :: bool        \<comment> \<open>the connection is not nil\<close>
  sc_path :: string

datatype open_error = OpenNotSupervised | OpenDial string string | OpenUnsupported

definition sd_open :: "string \<Rightarrow> string option \<Rightarrow> open_error + sd_client" where
  \<comment> \<open>\<^verbatim>\<open>Open\<close>, of the value of NOTIFY_SOCKET and the error of the dial\<close>
  "sd_open path dial =
     (if path = [] then Inl OpenNotSupervised
      else case dial of Some e \<Rightarrow> Inl (OpenDial path e) | None \<Rightarrow> Inr \<lparr>sc_conn = True, sc_path = path\<rparr>)"

definition sd_path :: "sd_client option \<Rightarrow> string" where
  "sd_path c = (case c of None \<Rightarrow> [] | Some c \<Rightarrow> sc_path c)"

datatype client_error = SendError send_error | WriteFails string string

definition client_send :: "sd_client option \<Rightarrow> string option \<Rightarrow> string list \<Rightarrow> client_error + string" where
  \<comment> \<open>the datagram that left; the second argument is the error of the write\<close>
  "client_send c wr pairs =
     (case send (case c of None \<Rightarrow> False | Some c \<Rightarrow> sc_conn c) pairs of
        Inl e \<Rightarrow> Inl (SendError e)
      | Inr payload \<Rightarrow> (case wr of Some e \<Rightarrow> Inl (WriteFails (sd_path c) e) | None \<Rightarrow> Inr payload))"

definition sd_close :: "sd_client option \<Rightarrow> string option \<Rightarrow> string option \<times> sd_client option" where
  \<comment> \<open>the error returned and the client afterwards\<close>
  "sd_close c err =
     (case c of None \<Rightarrow> (None, None)
      | Some s \<Rightarrow> if \<not> sc_conn s then (None, Some s) else (err, Some (s\<lparr>sc_conn := False\<rparr>)))"

definition open_windows :: "open_error + sd_client" where "open_windows = Inl OpenUnsupported"

definition send_windows :: "string list \<Rightarrow> open_error option" where
  \<comment> \<open>\<^verbatim>\<open>Send\<close>, and with it \<^verbatim>\<open>Ready\<close>, \<^verbatim>\<open>Watchdog\<close> and \<^verbatim>\<open>Stopping\<close>\<close>
  "send_windows pairs = Some OpenUnsupported"

definition sd_open_of :: "open_error + sd_client \<Rightarrow> sd_open" where
  \<comment> \<open>the switch at the head of \<^verbatim>\<open>runWorker\<close>\<close>
  "sd_open_of r = (case r of Inr _ \<Rightarrow> SdOpen | Inl OpenNotSupervised \<Rightarrow> SdNotSupervised
     | Inl OpenUnsupported \<Rightarrow> SdUnsupported | Inl (OpenDial _ _) \<Rightarrow> SdFails)"

text \<open>A worker counts as supervised exactly when it holds a client, and then the client sends.\<close>

lemma supervised_client:
  assumes "sd_open path dial = r"
  shows "sd_open_of r = SdOpen \<longleftrightarrow> path \<noteq> [] \<and> dial = None"
    and "sd_open_of r = SdOpen \<Longrightarrow> \<exists>c. r = Inr c \<and> client_send (Some c) None [''READY=1''] = Inr ''READY=1''"
proof -
  show "sd_open_of r = SdOpen \<longleftrightarrow> path \<noteq> [] \<and> dial = None"
    using assms by (auto simp: sd_open_of_def sd_open_def split: option.splits if_splits)
  show "\<exists>c. r = Inr c \<and> client_send (Some c) None [''READY=1''] = Inr ''READY=1''" if "sd_open_of r = SdOpen"
  proof -
    have "r = Inr \<lparr>sc_conn = True, sc_path = path\<rparr>"
      using assms that by (auto simp: sd_open_of_def sd_open_def split: option.splits if_splits)
    then show ?thesis by (simp add: client_send_def send_def)
  qed
qed

text \<open>Closing is final and idempotent: later sends fail without a write, a second close does nothing.\<close>

lemma closed_client:
  assumes "sd_close c err = (e, c')"
  shows "client_send c' wr pairs = Inl (SendError NotSupervised)" "sd_close c' err' = (None, c')" "sd_path c' = sd_path c"
  using assms by (auto simp: sd_close_def client_send_def send_def sd_path_def split: option.splits if_splits)

text \<open>
  A stale socket path is fatal: the worker that cannot dial does not fall back to running
  unsupervised, but ends at once with status 1, and touches nothing.
\<close>

lemma dial_failure_fatal:
  assumes "wk_sd w = sd_open_of (sd_open path (Some e))" "path \<noteq> []" "run_worker w f = (r, f')"
  shows "wr_error r = Some SdOpenError \<and> worker_exit (wr_error r) = 1 \<and> f' = f"
  using assms by (auto simp: sd_open_of_def sd_open_def run_worker_def worker_exit_def Let_def)

subsection \<open>Failing on purpose\<close>

datatype startup = StartsUp | ExitsAtOnce int | HangsForever

definition simulate_startup_failure :: "bool \<Rightarrow> string \<Rightarrow> startup" where
  \<comment> \<open>\<^verbatim>\<open>maybeSimulateStartupFailure\<close>, of the build tag and CLAWMAST_FAIL_MODE\<close>
  "simulate_startup_failure tagged mode =
     (if \<not> tagged then StartsUp
      else if mode = ''crash'' then ExitsAtOnce 1
      else if mode = ''hang'' then HangsForever else StartsUp)"

lemma untagged_starts [simp]: "simulate_startup_failure False mode = StartsUp"
  by (simp add: simulate_startup_failure_def)

definition atoi_value :: "string \<Rightarrow> int" where
  \<comment> \<open>the value of \<^verbatim>\<open>strconv.Atoi\<close> when its error is dropped: the nearest representable number, or
    zero when the text is not a number\<close>
  "atoi_value s =
     (case parse_int s of
        Some n \<Rightarrow> n
      | None \<Rightarrow>
          (case parse_unsigned (if prefix ''-'' s \<or> prefix ''+'' s then tl s else s) of
             None \<Rightarrow> 0 | Some _ \<Rightarrow> if prefix ''-'' s then - (2 ^ 63) else 2 ^ 63 - 1))"

record stand_in =
  si_frames :: "string list"   \<comment> \<open>what it sends\<close>
  si_sleep :: duration         \<comment> \<open>how long it waits; at most zero is no wait\<close>
  si_exit :: int

definition crash_after_ready :: "(string \<Rightarrow> string) \<Rightarrow> string option \<Rightarrow> string option \<Rightarrow> stand_in" where
  \<comment> \<open>of the environment and the errors of the dial and of the write\<close>
  "crash_after_ready env dial wr =
     (let delay = atoi_value (env_or env ''CMBAD_DELAY_MS'' ''50'');
          ends = \<lparr>si_frames = [], si_sleep = (if delay > 0 then wrap64 (millis delay) else 0),
                  si_exit = atoi_value (env_or env ''CMBAD_EXIT'' ''1'')\<rparr>
      in if env ''CMBAD_SKIP_READY'' = ''1'' then ends
         else case sd_open (env ''NOTIFY_SOCKET'') dial of
           Inl _ \<Rightarrow> \<lparr>si_frames = [], si_sleep = 0, si_exit = 2\<rparr>
         | Inr c \<Rightarrow>
             (case client_send (Some c) wr [''READY=1''] of
                Inl _ \<Rightarrow> \<lparr>si_frames = [], si_sleep = 0, si_exit = 2\<rparr>
              | Inr d \<Rightarrow> ends\<lparr>si_frames := [d]\<rparr>))"

text \<open>
  Whatever happens to the socket, with the default settings the stand-in exits with a status the
  supervisor counts as a crash.
\<close>

lemma stand_in_crashes:
  assumes "env ''CMBAD_EXIT'' = []"
  shows "si_exit (crash_after_ready env dial wr) \<in> {1, 2}"
proof -
  have "parse_int ''1'' = Some 1"
    by (simp add: parse_int_def parse_unsigned_def digit_value_def in_int64_def)
  with assms show ?thesis
    by (simp add: crash_after_ready_def env_or_def atoi_value_def Let_def split: sum.split)
qed

end
