(* ===== verification/Spawning.thy ===== *)
theory Spawning
  imports Session SdClient "HOL-Library.Sublist"
begin

section \<open>Starting a worker and listening to it (internal/supervisor/session.go, notify.go)\<close>

text \<open>
  \<open>spawn\<close> builds the command of a worker and starts it; what \<^verbatim>\<open>cmd.Start\<close> does with the command is
  decided by the environment. \<open>serve\<close> is the loop of \<^verbatim>\<open>Listener.Serve\<close>, one step per read, beside a
  consumer that takes messages from the channel. The theorem follows the handshake through
  both programs: from the command to the socket the worker dials, to the datagram, to the session.
\<close>

subsection \<open>The command and its handle\<close>

record exec_cmd =
  cm_path :: string
  cm_args :: "string list"
  cm_group :: bool               \<comment> \<open>\<^verbatim>\<open>Setpgid\<close>\<close>
  cm_env :: "string list"

record wait_result =
  wt_info :: exit_info
  wt_err :: "string option"

record session =
  sn_pid :: int
  sn_path :: string
  sn_version :: string
  sn_args :: "string list"
  sn_grace :: duration
  sn_wait :: "wait_result list"  \<comment> \<open>the buffer of \<^verbatim>\<open>waitCh\<close>\<close>

definition spawn_command :: "config \<Rightarrow> string \<Rightarrow> string \<Rightarrow> string list \<Rightarrow> exec_cmd" where
  "spawn_command c path version environ =
     \<lparr>cm_path = path, cm_args = c_args c, cm_group = True, cm_env = worker_env c version environ\<rparr>"

definition spawn ::
  "config \<Rightarrow> string \<Rightarrow> string \<Rightarrow> string list \<Rightarrow> (exec_cmd \<Rightarrow> string + int) \<Rightarrow> string + session" where
  "spawn c path version environ start =
     (case start (spawn_command c path version environ) of
        Inl e \<Rightarrow> Inl (''supervisor: spawn '' @ path @ '': '' @ e)
      | Inr pid \<Rightarrow> Inr \<lparr>sn_pid = pid, sn_path = path, sn_version = version, sn_args = c_args c,
          sn_grace = c_stop_grace c, sn_wait = []\<rparr>)"

definition reaped :: "wait_status option \<Rightarrow> string option \<Rightarrow> session \<Rightarrow> session" where
  \<comment> \<open>the goroutine of \<^verbatim>\<open>spawn\<close> once \<^verbatim>\<open>cmd.Wait\<close> returns\<close>
  "reaped ws err sn = sn\<lparr>sn_wait := sn_wait sn @ [\<lparr>wt_info = from_process_state ws, wt_err = err\<rparr>]\<rparr>"

definition session_pid :: "session \<Rightarrow> int" where
  "session_pid sn = sn_pid sn"

definition try_of :: "string + session \<Rightarrow> spawn_try" where
  \<comment> \<open>what \<^verbatim>\<open>runOneSpawn\<close> uses of the result\<close>
  "try_of r = (case r of Inl e \<Rightarrow> StartFails e | Inr sn \<Rightarrow> Started (session_pid sn))"

text \<open>
  A binary that cannot be started is named in the history: the reason of the crash entry begins
  with the path the supervisor resolved.
\<close>

lemma failed_spawn_named:
  assumes "start (spawn_command c path v environ) = Inl e"
  shows "\<exists>s'. run_one_spawn c v (try_of (spawn c path v environ start)) now es s =
      (Some \<lparr>o_kind = OutSpawnFailure, o_info = \<lparr>code = 71, signaled = False\<rparr>\<rparr>, s')
    \<and> h_reason (last (s_log s')) = ''spawn-failed: supervisor: spawn '' @ path @ '': '' @ e"
  using assms by (simp add: spawn_def try_of_def run_one_spawn_def record_history_def)

text \<open>The exit is delivered once, and what it says is what \<open>Session\<close> classifies.\<close>

lemma reaped_once:
  "spawn c path v environ start = Inr sn \<Longrightarrow> sn_wait (reaped ws err sn) = [\<lparr>wt_info = from_process_state ws, wt_err = err\<rparr>]"
  by (auto simp: spawn_def reaped_def split: sum.splits)

subsection \<open>The listener\<close>

record listener =
  ls_open :: bool
  ls_path :: string
  ls_queue :: "notify_message list"

definition new_listener :: "string \<Rightarrow> listener" where
  "new_listener path = \<lparr>ls_open = True, ls_path = path, ls_queue = []\<rparr>"

definition listener_path :: "listener \<Rightarrow> string" where "listener_path l = ls_path l"

definition listener_messages :: "listener \<Rightarrow> notify_message list" where "listener_messages l = ls_queue l"

definition close_listener :: "string option \<Rightarrow> listener \<Rightarrow> fsys \<Rightarrow> string option \<times> listener \<times> fsys" where
  \<comment> \<open>of the error of closing the connection\<close>
  "close_listener err l f = (err, l\<lparr>ls_open := False\<rparr>, snd (os_remove (ls_path l) f))"

datatype serve_step =
    Cancelled                     \<comment> \<open>the context is found cancelled at the head of the loop\<close>
  | Datagram string
  | ReadTimeout bool              \<comment> \<open>\<^verbatim>\<open>ctx.Err() != nil\<close> after the failed read\<close>
  | ReadFails bool string
  | Received                      \<comment> \<open>the consumer takes a message\<close>

fun serve :: "serve_step list \<Rightarrow> notify_message list \<Rightarrow> string option option \<times> notify_message list \<times> notify_message list" where
  \<comment> \<open>what \<^verbatim>\<open>Serve\<close> returned (\<open>None\<close> while it serves), what was taken, and the channel\<close>
  "serve [] q = (None, [], q)"
| "serve (Cancelled # xs) q = (Some None, [], q)"
| "serve (Datagram d # xs) q = serve xs (serve_datagram d q)"
| "serve (ReadTimeout gone # xs) q = (if gone then (Some None, [], q) else serve xs q)"
| "serve (ReadFails gone e # xs) q = (if gone then (Some None, [], q) else (Some (Some (''supervisor: notify read: '' @ e)), [], q))"
| "serve (Received # xs) q =
     (case q of [] \<Rightarrow> serve xs []
      | m # q \<Rightarrow> (case serve xs q of (r, got, q) \<Rightarrow> (r, m # got, q)))"

definition datagrams :: "serve_step list \<Rightarrow> string list" where
  "datagrams xs = List.map_filter (\<lambda>x. case x of Datagram d \<Rightarrow> Some d | _ \<Rightarrow> None) xs"

lemma datagrams_simps [simp]:
  "datagrams [] = []" "datagrams (Datagram d # xs) = d # datagrams xs"
  "datagrams (Cancelled # xs) = datagrams xs" "datagrams (ReadTimeout b # xs) = datagrams xs"
  "datagrams (ReadFails b e # xs) = datagrams xs" "datagrams (Received # xs) = datagrams xs"
  by (simp_all add: datagrams_def List.map_filter_def)

text \<open>
  However reads and receives alternate, the channel never holds more than sixteen messages, and
  what the consumer got, with what is still in the channel, is part of what was sent, in order.
\<close>

lemma serve_bounded:
  "serve xs q = (r, got, q') \<Longrightarrow> length q \<le> queue_capacity \<Longrightarrow> length q' \<le> queue_capacity"
proof (induction xs q arbitrary: got r q' rule: serve.induct)
  case (3 d xs q)
  then show ?case by (simp add: serve_datagram_def enqueue_bound)
next
  case (6 xs q)
  then show ?case by (cases q) (auto split: prod.splits)
qed (auto split: if_splits)

lemma subseq_front: "subseq zs (ys @ xs) \<Longrightarrow> subseq zs (ys @ x # xs)"
proof -
  have "subseq (ys @ xs) (ys @ x # xs)" by (simp add: subseq_append' list_emb_Cons)
  then show "subseq zs (ys @ xs) \<Longrightarrow> subseq zs (ys @ x # xs)" using subseq_order.trans by blast
qed

lemma serve_in_order:
  "serve xs q = (r, got, q') \<Longrightarrow> subseq (got @ q') (q @ map (\<lambda>d. parse_notify_frame (take 4096 d)) (datagrams xs))"
proof (induction xs q arbitrary: got r q' rule: serve.induct)
  case (3 d xs q)
  then show ?case
    by (auto simp: serve_datagram_def enqueue_def intro!: subseq_front split: if_splits)
next
  case (6 xs q)
  then show ?case by (cases q) (auto split: prod.splits)
qed (auto split: if_splits)

text \<open>An error ends \<open>serve\<close> only when a read fails while nobody asked it to end.\<close>

lemma serve_error:
  "serve xs q = (Some (Some m), got, q') \<Longrightarrow> \<exists>e. ReadFails False e \<in> set xs \<and> m = ''supervisor: notify read: '' @ e"
proof (induction xs q arbitrary: got q' rule: serve.induct)
  case (6 xs q)
  then show ?case by (cases q) (auto split: prod.splits)
qed (auto split: if_splits)

text \<open>
  After such an error the channel is closed and nothing reads the socket. The branch of the
  select for messages is then always ready and does nothing, so the loop spins; and as no datagram
  arrives any more, no worker, however healthy, is ever seen running: its start deadline is
  the only end of the session besides its exit.
\<close>

definition deaf :: "event list \<Rightarrow> bool" where
  "deaf es \<longleftrightarrow> (\<forall>e \<in> set es. \<forall>d. e_kind e \<noteq> Arrive d)"

lemma closed_spins:
  assumes "e_kind e = SelClosed"
  shows "enabled e st s" "on_event c v e st s = (Inr st, s)"
  using assms by (simp_all add: enabled_def on_event_def)

lemma deaf_step:
  assumes "on_event c v e st s = (Inr st', s')" "s_queue s = []" "cur st = Starting"
    and "\<And>d. e_kind e \<noteq> Arrive d"
  shows "s_queue s' = [] \<and> cur st' = Starting"
  using assms
  by (auto simp: on_event_def on_gate_timer_def forward_hup_def send_signal_def Let_def split_def
      split: event_kind.splits gate_outcome.splits if_splits option.splits)

lemma deaf_never_runs:
  assumes "select_loop c v es st s = (Inr st', s')" "deaf es" "s_queue s = []" "cur st = Starting"
  shows "cur st' = Starting"
  using assms
proof (induction es arbitrary: st s)
  case (Cons e es)
  show ?case
  proof (cases "enabled e st s")
    case True
    with Cons.prems(1) obtain st1 s1 where e: "on_event c v e st s = (Inr st1, s1)"
      "select_loop c v es st1 s1 = (Inr st', s')" by (auto split: prod.splits sum.splits)
    have "s_queue s1 = [] \<and> cur st1 = Starting"
      using deaf_step [OF e(1) Cons.prems(3,4)] Cons.prems(2) by (auto simp: deaf_def)
    with Cons.IH [OF e(2)] Cons.prems(2) show ?thesis by (simp add: deaf_def)
  next
    case False
    with Cons show ?thesis by (simp add: deaf_def)
  qed
qed simp

subsection \<open>The handshake\<close>

definition child_env :: "exec_cmd \<Rightarrow> string \<Rightarrow> string" where
  \<comment> \<open>\<^verbatim>\<open>os.Getenv\<close> in the started process\<close>
  "child_env cm k = (case env_lookup (cm_env cm) k of Some x \<Rightarrow> x | None \<Rightarrow> [])"

lemma child_socket: "child_env (spawn_command c path v environ) ''NOTIFY_SOCKET'' = c_socket c"
  by (simp add: child_env_def spawn_command_def worker_env_lookup)

text \<open>
  C11: a worker that says it is ready is heard. Take the worker the supervisor spawns, whatever
  else its environment holds. The client its library opens, if the dial works, talks to the socket the
  supervisor listens on; the datagram it sends for READY is read and received; and the session then
  counts as running, with the start deadline off and the watchdog armed.
\<close>
theorem handshake:
  assumes "spawn c path v environ start = Inr sn" and "c_socket c \<noteq> []"
    and "serve [Datagram d, Received] [] = (None, got, [])"
    and "client_send (Some cl) None [''READY=1''] = Inr d"
    and "sd_open (child_env (spawn_command c path v environ) ''NOTIFY_SOCKET'') None = Inr cl"
    and "s_queue s = []" and "cur st = Starting"
    and "e_kind e = Arrive d" and "e_kind e' = SelMsg"
  shows "sd_path (Some cl) = listener_path (new_listener (c_socket c))
    \<and> map kinds got = [[NotifyReady]]
    \<and> (\<exists>st' s'. select_loop c v [e, e'] st s = (Inr st', s') \<and> cur st' = Running \<and> start_at st' = None
        \<and> watchdog_at st' = Some (time_add (e_at e') (c_watchdog c)) \<and> s_queue s' = [])"
proof -
  have cl: "cl = \<lparr>sc_conn = True, sc_path = c_socket c\<rparr>"
    using assms(2,5) by (simp add: sd_open_def child_socket)
  have d: "d = ''READY=1''" using assms(4) by (simp add: client_send_def cl send_def)
  have p: "parse_notify_frame (take 4096 d) = \<lparr>kinds = [NotifyReady], raw = ''READY=1''\<rparr>"
    unfolding d by code_simp
  then have q: "serve_datagram d [] = [\<lparr>kinds = [NotifyReady], raw = ''READY=1''\<rparr>]"
    by (simp add: serve_datagram_def enqueue_def queue_capacity_def)
  have g: "map kinds got = [[NotifyReady]]" using assms(3) by (auto simp: q)
  have "\<exists>st' s'. select_loop c v [e, e'] st s = (Inr st', s') \<and> cur st' = Running \<and> start_at st' = None
        \<and> watchdog_at st' = Some (time_add (e_at e') (c_watchdog c)) \<and> s_queue s' = []"
    using assms(6-9) q
    by (simp add: enabled_def on_event_def on_notify_def on_ready_kind_def Let_def)
  with g show ?thesis by (simp add: cl sd_path_def listener_path_def new_listener_def)
qed

lemma handshake_witness:
  "\<exists>sn st' s'. spawn (plain_config\<lparr>c_socket := ''/s''\<rparr>) ''/w'' ''v1'' [''NOTIFY_SOCKET=/x''] (\<lambda>_. Inr 7) = Inr sn
    \<and> select_loop (plain_config\<lparr>c_socket := ''/s''\<rparr>) ''v1''
        [\<lparr>e_at = 5, e_kind = Arrive ''READY=1''\<rparr>, \<lparr>e_at = 6, e_kind = SelMsg\<rparr>]
        \<lparr>cur = Starting, start_at = Some 9, watchdog_at = None, gate_at = None\<rparr>
        \<lparr>s_fs = \<lparr>nodes = Map.empty, faults = []\<rparr>, s_log = [], s_tracker = new_tracker new_backoff,
         s_gate = new_gate 0 0, s_queue = [], s_current = Some 7, s_signals = [], s_sleeps = []\<rparr> = (Inr st', s')
    \<and> cur st' = Running"
proof -
  let ?c = "plain_config\<lparr>c_socket := ''/s''\<rparr>" and ?cl = "\<lparr>sc_conn = True, sc_path = ''/s''\<rparr>"
  have sp: "\<exists>sn. spawn ?c ''/w'' ''v1'' [''NOTIFY_SOCKET=/x''] (\<lambda>_. Inr 7) = Inr sn" by (simp add: spawn_def)
  have op: "sd_open (child_env (spawn_command ?c ''/w'' ''v1'' [''NOTIFY_SOCKET=/x'']) ''NOTIFY_SOCKET'') None = Inr ?cl"
    by (simp add: child_socket sd_open_def)
  have sd: "client_send (Some ?cl) None [''READY=1''] = Inr ''READY=1''" by (simp add: client_send_def send_def)
  have sv: "serve [Datagram ''READY=1'', Received] [] = (None, [parse_notify_frame (take 4096 ''READY=1'')], [])"
    by (simp add: serve_datagram_def enqueue_def queue_capacity_def)
  let ?s = "\<lparr>s_fs = \<lparr>nodes = Map.empty, faults = []\<rparr>, s_log = [], s_tracker = new_tracker new_backoff,
      s_gate = new_gate 0 0, s_queue = [], s_current = Some 7, s_signals = [], s_sleeps = []\<rparr>"
  have sk: "c_socket ?c \<noteq> []" by simp
  from sp obtain sn where sn: "spawn ?c ''/w'' ''v1'' [''NOTIFY_SOCKET=/x''] (\<lambda>_. Inr 7) = Inr sn" by blast
  from handshake [OF sn sk sv sd op, of ?s "\<lparr>cur = Starting, start_at = Some 9, watchdog_at = None, gate_at = None\<rparr>"
      "\<lparr>e_at = 5, e_kind = Arrive ''READY=1''\<rparr>" "\<lparr>e_at = 6, e_kind = SelMsg\<rparr>"] sn
  show ?thesis unfolding sup.select_convs sess.select_convs event.select_convs by blast
qed

end
