(* ===== verification/Serving.thy ===== *)
theory Serving
  imports Lifecycle SdClient CrashLoop Auth
begin

section \<open>The life of the HTTP server (internal/agent/server.go) inside the worker's\<close>

text \<open>
  \<open>start_http\<close> is \<^verbatim>\<open>Server.Start\<close>: the listener, the background checks beside it and how it ends.
  What \<^verbatim>\<open>net.Listen\<close>, \<^verbatim>\<open>Serve\<close> and \<^verbatim>\<open>http.Server.Shutdown\<close> do is decided by the environment. The
  lemmas follow a failure of the server into the exit status the supervisor reads, and the stand-in
  worker of the rollback smoke test into the supervisor's loop.
\<close>

datatype serve_end = CtxDone "string option" | ServeEnds "string option"
  \<comment> \<open>the context is cancelled, with the error of the shutdown; \<^verbatim>\<open>Serve\<close> returns, \<open>None\<close> for
    \<^verbatim>\<open>http.ErrServerClosed\<close>\<close>

record http_run =
  hr_addr :: "string option"      \<comment> \<open>the bound address; \<^verbatim>\<open>ln\<close> is not nil\<close>
  hr_started :: instant
  hr_checks :: bool               \<comment> \<open>\<^verbatim>\<open>RunBackgroundChecks\<close> runs beside it\<close>
  hr_result :: "string option"    \<comment> \<open>the error \<^verbatim>\<open>Start\<close> returns\<close>

definition shutdown_http :: "bool \<Rightarrow> string option \<Rightarrow> string option" where
  \<comment> \<open>\<^verbatim>\<open>Shutdown\<close>, of whether \<^verbatim>\<open>srv\<close> is set and the error of the graceful shutdown within 3 s\<close>
  "shutdown_http serving err = (if \<not> serving then None else err)"

definition start_http :: "'k server \<Rightarrow> string + string \<Rightarrow> instant \<Rightarrow> serve_end \<Rightarrow> http_run" where
  "start_http s listen now w =
     (case listen of
        Inl e \<Rightarrow> \<lparr>hr_addr = None, hr_started = 0, hr_checks = False,
                  hr_result = Some (''agent: listen '' @ ac_addr (sv_cfg s) @ '': '' @ e)\<rparr>
      | Inr addr \<Rightarrow> \<lparr>hr_addr = Some addr, hr_started = now, hr_checks = ac_interval (sv_cfg s) > 0,
                     hr_result = (case w of CtxDone err \<Rightarrow> shutdown_http True err | ServeEnds e \<Rightarrow> e)\<rparr>)"

definition http_addr :: "http_run \<Rightarrow> string" where
  "http_addr r = (case hr_addr r of None \<Rightarrow> [] | Some a \<Rightarrow> a)"

definition http_handler :: "token \<Rightarrow> request \<Rightarrow> Auth.gate" where
  \<comment> \<open>\<^verbatim>\<open>Handler\<close>\<close>
  "http_handler tok = public_handler tok"

definition raw_mux :: "request \<Rightarrow> Auth.gate" where
  \<comment> \<open>\<^verbatim>\<open>RawMux\<close>: no bearer middleware\<close>
  "raw_mux r = Pass"

definition handle_update_check :: "'k world \<Rightarrow> string \<Rightarrow> 'k server \<Rightarrow> int \<times> update_check" where
  "handle_update_check w label s = (200, run_update_check w label s)"

text \<open>
  A port that cannot be bound is an error of the worker, and the address is empty exactly then;
  the server the worker boots always checks for updates in the background.
\<close>

lemma bind_failure: "hr_result (start_http s (Inl e) now w) \<noteq> None" "http_addr (start_http s (Inl e) now w) = []"
  by (simp_all add: start_http_def http_addr_def)

lemma new_server_interval: "ac_interval (sv_cfg (new_server d cfg)) = ac_interval cfg"
  by (simp add: new_server_def Let_def)

lemma boot_server_interval:
  assumes "boot_server p root f = (Inr (s, tok), f')"
  shows "ac_interval (sv_cfg s) = seconds 21600"
  using assms unfolding boot_server_def Let_def
  by (clarsimp simp: new_server_interval split: sum.split_asm prod.split_asm)

lemma booted_checks:
  assumes "boot_server p root f = (Inr (s, tok), f')"
  shows "hr_checks (start_http s (Inr a) now w)"
  using boot_server_interval [OF assms] by (simp add: start_http_def)

definition http_wake :: "http_run \<Rightarrow> wake" where
  \<comment> \<open>what \<^verbatim>\<open>runWorker\<close> receives from \<^verbatim>\<open>httpErrCh\<close>\<close>
  "http_wake r = WakeHttp (hr_result r)"

text \<open>
  The worker serves before it says READY, so a taken port shows as a worker that was ready and
  then exits with status 1: a crash for the supervisor.
\<close>

lemma taken_port_crashes:
  assumes "run_worker p f = (r, f')" "wr_server r = Some s" "wk_ready p" "wk_wake p = http_wake (start_http s (Inl e) now w)"
    and "on_event c v ev st x = (Inl out, x')" "e_kind ev = SelExit (Some (Exited (worker_exit (wr_error r))))"
  shows "o_kind out = OutCrash"
proof -
  have "worker_exit (wr_error r) = 1"
    using worker_exit_served [OF assms(1-3)] assms(4) by (simp add: http_wake_def start_http_def)
  with exit_outcome(1) [OF assms(5,6)] show ?thesis by simp
qed

subsection \<open>The rollback smoke test\<close>

definition stand_in_events :: "instant \<Rightarrow> stand_in \<Rightarrow> event list" where
  \<comment> \<open>what the supervisor sees of the stand-in spawned at an instant\<close>
  "stand_in_events at si =
     concat (map (\<lambda>d. [\<lparr>e_at = at, e_kind = Arrive d\<rparr>, \<lparr>e_at = at, e_kind = SelMsg\<rparr>]) (si_frames si))
     @ [\<lparr>e_at = at + si_sleep si, e_kind = SelExit (Some (Exited (si_exit si)))\<rparr>]"

lemma stand_in_script:
  assumes "env ''CMBAD_EXIT'' = []"
  shows "crash_script (stand_in_events at (crash_after_ready env dial wr))"
proof -
  have "crash_script (concat (map (\<lambda>d. [\<lparr>e_at = at, e_kind = Arrive d\<rparr>, \<lparr>e_at = at, e_kind = SelMsg\<rparr>]) ds)
      @ [\<lparr>e_at = t, e_kind = SelExit (Some (Exited n))\<rparr>])" if "n \<in> {1, 2}" for ds t n
    using that by (induction ds) (auto simp: classify_exit_code_def)
  with stand_in_crashes [of env dial wr] assms show ?thesis by (simp add: stand_in_events_def)
qed

lemma smoke_times: "msg_times (stand_in_events at si) \<subseteq> {at}"
  by (auto simp: msg_times_def stand_in_events_def)

end
