(* ===== verification/Fronts.thy ===== *)
theory Fronts
  imports Daemon Cli Signing SdClient Layout
begin

section \<open>The edges of the programs: levels, error texts, embedded key, platforms\<close>

text \<open>
  Small pieces of the command packages that the larger components call: the worker's log level
  beside the supervisor's, the texts of the typed exit errors, the embedded update key, the hash of
  an artifact and the call of the compiler in the release tool, and the branches that differ on
  Windows. Also the fact that the daemon always runs on the default layout of its install root.
\<close>

subsection \<open>Log levels\<close>

definition worker_log_level :: "string \<Rightarrow> log_level" where
  \<comment> \<open>\<^verbatim>\<open>parseLogLevel\<close> of cmd/clawmast\<close>
  "worker_log_level s =
     (let l = to_lower (trim_space s)
      in if l = ''debug'' then LevelDebug
         else if l = ''warn'' \<or> l = ''warning'' then LevelWarn
         else if l = ''error'' then LevelError else LevelInfo)"

text \<open>The two programs read a level alike; only where the supervisor refuses one, the worker goes on with info.\<close>

lemma log_levels_agree:
  "worker_log_level s = (case parse_log_level s of Some l \<Rightarrow> l | None \<Rightarrow> LevelInfo)"
  by (simp add: worker_log_level_def parse_log_level_def Let_def)

text \<open>Levels are ordered by slog's numbers, and a handler drops what is below its own level.\<close>

fun level_rank :: "log_level \<Rightarrow> int" where
  "level_rank LevelDebug = -4"
| "level_rank LevelInfo = 0"
| "level_rank LevelWarn = 4"
| "level_rank LevelError = 8"

lemma level_rank_inj: "level_rank a = level_rank b \<Longrightarrow> a = b"
  by (cases a; cases b) simp_all

instantiation log_level :: linorder
begin

definition less_eq_log_level :: "log_level \<Rightarrow> log_level \<Rightarrow> bool" where
  "less_eq_log_level a b \<longleftrightarrow> level_rank a \<le> level_rank b"

definition less_log_level :: "log_level \<Rightarrow> log_level \<Rightarrow> bool" where
  "less_log_level a b \<longleftrightarrow> level_rank a < level_rank b"

instance
  by intro_classes (auto simp: less_eq_log_level_def less_log_level_def intro: level_rank_inj)

end

text \<open>
  No setting silences errors in either program, and only the level error silences the warnings
  of the worker.
\<close>

lemma errors_logged: "worker_log_level s \<le> LevelError" "parse_log_level s = Some l \<Longrightarrow> l \<le> LevelError"
  by (cases "worker_log_level s"; simp add: less_eq_log_level_def) (cases l; simp add: less_eq_log_level_def)

lemma warnings_logged: "worker_log_level s \<le> LevelWarn \<longleftrightarrow> to_lower (trim_space s) \<noteq> ''error''"
  by (simp add: worker_log_level_def less_eq_log_level_def Let_def)

subsection \<open>Exit errors\<close>

definition stop_error_text :: "int \<Rightarrow> string \<Rightarrow> string" where
  "stop_error_text n reason = ''supervisor: exiting with code '' @ show_int n @ '' ('' @ reason @ '')''"

definition worker_exit_text :: "int \<Rightarrow> string \<Rightarrow> string" where
  "worker_exit_text n reason = ''worker exit '' @ show_int n @ '' ('' @ reason @ '')''"

definition daemon_exit_text :: "int \<Rightarrow> string \<Rightarrow> string" where
  "daemon_exit_text n reason = (if reason = [] then ''exit code '' @ show_int n else reason)"

subsection \<open>The embedded key (internal/updater/keys.go)\<close>

definition dev_public_key :: "(string \<Rightarrow> 'k option) \<Rightarrow> string \<Rightarrow> 'k option" where
  \<comment> \<open>of \<^verbatim>\<open>UnmarshalText\<close> and the embedded text; \<open>None\<close> is the error\<close>
  "dev_public_key unmarshal txt = (case unmarshal txt of None \<Rightarrow> None | Some k \<Rightarrow> Some k)"

datatype 'k key_result = Panics | Key 'k

definition must_dev_public_key :: "(string \<Rightarrow> 'k option) \<Rightarrow> string \<Rightarrow> 'k key_result" where
  "must_dev_public_key unmarshal txt = (case dev_public_key unmarshal txt of None \<Rightarrow> Panics | Some k \<Rightarrow> Key k)"

subsection \<open>Artifacts and the compiler (cmd/clawmast-release)\<close>

definition size_and_sha256 :: "(string \<Rightarrow> string) \<Rightarrow> (string \<Rightarrow> string option) \<Rightarrow> string \<Rightarrow> (int \<times> string) option" where
  "size_and_sha256 sha256 disk path =
     (case disk path of None \<Rightarrow> None | Some bytes \<Rightarrow> Some (int (length bytes), sha256 bytes))"

lemma hash_artifacts_sizes:
  assumes "hash_artifacts sha256 disk dir url ts = Inr as" "a \<in> set as"
  shows "size_and_sha256 sha256 disk (path_join [dir, tarball_name (a_os a) (a_arch a)]) = Some (a_size a, a_sha a)"
  using assms
proof (induction ts arbitrary: as)
  case (Cons t ts)
  obtain os arch where t: "t = (os, arch)" by (cases t)
  with Cons.prems(1) obtain bytes bs where
    b: "disk (path_join [dir, tarball_name os arch]) = Some bytes" "hash_artifacts sha256 disk dir url ts = Inr bs"
    "as = \<lparr>a_os = os, a_arch = arch, a_url = url @ ''/'' @ tarball_name os arch, a_size = int (length bytes),
       a_sha = sha256 bytes\<rparr> # bs"
    by (auto split: option.splits sum.splits)
  then show ?case using Cons.IH [OF b(2)] Cons.prems(2) by (auto simp: size_and_sha256_def)
qed simp

definition go_build ::
  "(string list \<Rightarrow> string list \<Rightarrow> bool) \<Rightarrow> string list \<Rightarrow> string \<Rightarrow> string \<Rightarrow> string \<Rightarrow> string \<Rightarrow> string \<Rightarrow> string
   \<Rightarrow> string \<Rightarrow> string option" where
  \<comment> \<open>of running a command with an environment, then the arguments of the source; the error\<close>
  "go_build run environ out pkg os arch version hash build_time =
     (if run (go_build_argv out pkg version hash build_time) (go_build_env environ os arch) then None
      else Some (''go build '' @ pkg))"

subsection \<open>Windows\<close>

definition inode_of :: "bool \<Rightarrow> int option \<Rightarrow> int" where
  \<comment> \<open>of whether this is a unix build, and the inode when \<^verbatim>\<open>Sys()\<close> is a \<^verbatim>\<open>Stat_t\<close>\<close>
  "inode_of unix st = (if \<not> unix then 0 else case st of Some n \<Rightarrow> n | None \<Rightarrow> 0)"

definition apply_windows :: "apply_config \<Rightarrow> fsys \<Rightarrow> (string + apply_result) \<times> fsys" where
  \<comment> \<open>the stub of \<^verbatim>\<open>Apply\<close>; the string stands for the wrapped \<^verbatim>\<open>errors.ErrUnsupported\<close>\<close>
  "apply_windows cfg f = (Inl ''unsupported operation'', f)"

definition run_windows :: daemon_error where
  \<comment> \<open>the \<^verbatim>\<open>exitError\<close> the stub of \<^verbatim>\<open>run\<close> returns\<close>
  "run_windows = ExitErr 2 ''clawmastd supervisor is not supported on windows; run clawmast.exe directly''"

lemma windows_exits: "exit_code_for run_windows = 2" "daemon_exit_text 2 r = (if r = [] then ''exit code 2'' else r)"
proof -
  have "show_int 2 = ''2''" by code_simp
  then show "daemon_exit_text 2 r = (if r = [] then ''exit code 2'' else r)" by (simp add: daemon_exit_text_def)
qed (simp add: run_windows_def)

text \<open>On Windows a rotated log is never reopened, since every file has the same identity.\<close>

lemma windows_same_file: "inode_of False a = inode_of False b"
  by (simp add: inode_of_def)

subsection \<open>The daemon runs on the default layout\<close>

lemma daemon_standard:
  assumes "new_supervisor (daemon_config pd env full opts) f = Inr (c, s)" "o_root opts = abs_path es"
    and "list_all plain_name es"
  shows "standard es c"
proof -
  have "with_defaults (daemon_config pd env full opts) = Inr c"
    using assms(1) by (auto simp: new_supervisor_def split: sum.splits)
  then show ?thesis
    by (rule defaults_standard [OF _ assms(3)]) (use assms(2) in \<open>simp_all add: daemon_config_def\<close>)
qed

end
