(* ===== verification/Trial.thy ===== *)
theory Trial
  imports CrashLoop
begin

section \<open>A trial that is passed (internal/supervisor/healthgate.go, loop.go)\<close>

text \<open>
  A life of a worker on trial, followed through the select loop: it becomes ready, beats for a
  while and is still there when the gate's timer fires. The theorem is the other half of what the
  trial promises: a version that proves itself is kept and loses its special treatment.
\<close>

subsection \<open>Beats\<close>

definition beat :: "event \<Rightarrow> bool" where
  \<comment> \<open>datagrams, messages and hangups\<close>
  "beat e \<longleftrightarrow> (case e_kind e of SelMsg \<Rightarrow> True | SelClosed \<Rightarrow> True | Arrive _ \<Rightarrow> True | Hup \<Rightarrow> True | _ \<Rightarrow> False)"

lemma select_loop_append:
  "select_loop c v (xs @ ys) st s =
     (case select_loop c v xs st s of (Inl out, s') \<Rightarrow> (Inl out, s') | (Inr st', s') \<Rightarrow> select_loop c v ys st' s')"
  by (induction xs arbitrary: st s) (auto split: prod.split sum.split)

lemma on_kinds_running:
  "cur st = Running \<Longrightarrow> on_kinds c now ks st s = (st', s') \<Longrightarrow> cur st' = Running \<and> gate_at st' = gate_at st \<and> s' = s"
proof (induction ks arbitrary: st s)
  case (Cons k ks)
  obtain st1 s1 where k: "on_notify c now k st s = (st1, s1)" by fastforce
  then have "cur st1 = Running \<and> gate_at st1 = gate_at st \<and> s1 = s"
    using Cons.prems(1) by (auto simp: on_notify_def on_ready_kind_def split: notify_kind.splits)
  with Cons.IH [of st1 s1] Cons.prems(2) k show ?case by simp
qed simp

definition undisturbed :: "sess \<times> sup \<Rightarrow> sess \<times> sup \<Rightarrow> bool" where
  \<comment> \<open>the running worker, the trial, the files and the history are as before\<close>
  "undisturbed x y \<longleftrightarrow> cur (fst y) = Running \<and> gate_at (fst y) = gate_at (fst x) \<and> s_gate (snd y) = s_gate (snd x)
     \<and> s_fs (snd y) = s_fs (snd x) \<and> s_log (snd y) = s_log (snd x)"

lemma beat_undisturbed:
  assumes "beat e" "cur st = Running"
  shows "\<exists>st' s'. on_event c v e st s = (Inr st', s') \<and> undisturbed (st, s) (st', s')"
proof (cases "e_kind e = SelMsg \<and> s_queue s \<noteq> []")
  case True
  then obtain m q where q: "s_queue s = m # q" by (cases "s_queue s") auto
  obtain st' s' where k: "on_kinds c (e_at e) (kinds m) st (s\<lparr>s_queue := q\<rparr>) = (st', s')" by fastforce
  from on_kinds_running [OF assms(2) k] True q k show ?thesis by (simp add: on_event_def undisturbed_def)
qed (use assms in \<open>auto simp: beat_def on_event_def forward_hup_def undisturbed_def split: event_kind.splits list.splits\<close>)

lemma beats_undisturbed:
  "list_all beat es \<Longrightarrow> cur st = Running \<Longrightarrow> \<exists>st' s'. select_loop c v es st s = (Inr st', s') \<and> undisturbed (st, s) (st', s')"
proof (induction es arbitrary: st s)
  case (Cons e es)
  show ?case
  proof (cases "enabled e st s")
    case True
    obtain st1 s1 where e: "on_event c v e st s = (Inr st1, s1)" "undisturbed (st, s) (st1, s1)"
      using beat_undisturbed [of e st c v s] Cons.prems by auto
    with Cons.IH [of st1 s1] Cons.prems True show ?thesis by (auto simp: undisturbed_def)
  next
    case False
    with Cons show ?thesis by simp
  qed
qed (simp add: undisturbed_def)

subsection \<open>The gate's timer\<close>

lemma ready_on_trial:
  assumes "cur st = Starting" "gstate (s_gate s) = GateArmed" "s_queue s = []"
    and "e_kind e1 = Arrive ''READY=1''" "e_kind e2 = SelMsg"
    and "gate_ok (s_gate s)" "e_at e2 + stable_for (s_gate s) \<le> deadline (s_gate s)"
  shows "\<exists>st' s'. select_loop c v [e1, e2] st s = (Inr st', s') \<and> cur st' = Running
    \<and> gate_at st' = Some (e_at e2 + max (millis 10) (stable_for (s_gate s)))
    \<and> s_gate s' = on_ready (e_at e2) (s_gate s) \<and> s_fs s' = s_fs s \<and> s_log s' = s_log s"
proof -
  let ?g = "on_ready (e_at e2) (s_gate s)" and ?d = "stable_for (s_gate s)"
  have ok: "0 < ?d" "in_int64 ?d" using assms(6) by (simp_all add: gate_ok_def)
  have g: "gstate ?g = GateStabilizing" "ready_at ?g = e_at e2" "stable_for ?g = ?d" "deadline ?g = deadline (s_gate s)"
    using assms(2) by (simp_all add: on_ready_def)
  have u: "until_non_negative (e_at e2 + ?d) (e_at e2) = ?d"
    using ok by (simp add: until_non_negative_def time_sub_def in_int64_def)
  have w: "next_wake (e_at e2) ?g = ?d"
    unfolding next_wake_def g gate_state.case Let_def time_add_def time_before_def
    using u assms(7) by (auto simp: order_le_less)
  have "clamp_wake ?d = max (millis 10) ?d" by (simp add: clamp_wake_def)
  then show ?thesis
    using assms(1-5) w
    by (simp add: enabled_def on_event_def serve_datagram_def ready_frame enqueue_def queue_capacity_def on_notify_def
        on_ready_kind_def is_active_def time_add_def Let_def)
qed

lemma gate_passes:
  assumes "e_kind e = SelGate reply" "s_gate s = on_ready r g" "gstate g = GateArmed" "gate_ok g"
    and "r + stable_for g \<le> e_at e" "gate_at st = Some w" "w \<le> e_at e"
  shows "select_loop c v [e] st s = (Inr (st\<lparr>gate_at := None\<rparr>),
      s\<lparr>s_fs := snd (delete_gate_marker (c_root c) (s_fs s)), s_gate := gate_reset ((on_ready r g)\<lparr>gstate := GatePassed\<rparr>)\<rparr>)"
proof -
  have "tick (e_at e) (on_ready r g) = (GatePass, (on_ready r g)\<lparr>gstate := GatePassed\<rparr>)"
    using assms(3-5) by (simp add: tick_def on_ready_def go_time gate_ok_def)
  then show ?thesis using assms(1,2,6,7) by (simp add: enabled_def due_def on_event_def on_gate_timer_def)
qed

lemma armed_on_trial:
  assumes "on_trial c v a inst (s_fs s)" "v \<noteq> []" "start < inst + window (s_gate s)"
  shows "prepare_gate c v start s = s\<lparr>s_gate := (gate_reset (s_gate s))\<lparr>gstate := GateArmed, gversion := v,
     deadline := inst + window (s_gate s), ready_at := 0, gfail := NoFail\<rparr>\<rparr>"
proof -
  have cl: "faults (s_fs s) = []" and mark: "nodes (s_fs s) (gate_marker_path (c_root c)) =
      Some (File (Doc (encode_marker \<lparr>m_version = v, m_installed_at = inst\<rparr>)))"
    using assms(1) by (simp_all add: on_trial_def)
  show ?thesis
    using read_marker_clean [OF cl mark] assms(2,3)
    by (simp add: prepare_gate_def arm_def gate_reset_def time_before_def time_add_def Let_def)
qed

text \<open>
  C7: a good update is kept. Take a version on trial that is not listed and whose worker starts
  within the window, says READY early enough to be watched for the whole settling time, and
  lives on, with any datagrams and hangups in between, until the gate's timer fires after that
  time. Then the trial is over: the marker is gone and the gate inactive, so that a later crash is
  an ordinary one; the version stays current with its predecessor as the fallback, the
  worker runs on, no crash is recorded and the blacklist is as it was.
\<close>
theorem good_update_kept:
  assumes "layout c" and "on_trial c v a inst (s_fs s)" and "plain_name v" and "recoverable c es (s_fs s)"
    and "\<not> contains es v" and "gate_ok (s_gate s)" and "s_queue s = []"
    and "\<not> t_cancelled t" and "t_spawn t = Started pid" and "t_start t < inst + window (s_gate s)"
    and "t_events t = [e1, e2] @ beats @ [e3]" and "e_kind e1 = Arrive ''READY=1''" and "e_kind e2 = SelMsg"
    and "list_all beat beats" and "e_kind e3 = SelGate reply"
    and "e_at e2 + stable_for (s_gate s) \<le> inst + window (s_gate s)"
    and "e_at e2 + max (millis 10) (stable_for (s_gate s)) \<le> e_at e3"
  shows "\<exists>s'. loop_step c t s = (Supervising, s') \<and> \<not> is_active (s_gate s')
    \<and> nodes (s_fs s') (gate_marker_path (c_root c)) = None
    \<and> link_at (s_fs s') (current_link (c_root c)) = Some (path_join [''versions'', v])
    \<and> link_at (s_fs s') (previous_link (c_root c)) = Some a
    \<and> nodes (s_fs s') (c_blacklist c) = nodes (s_fs s) (c_blacklist c)
    \<and> map h_event (drop (length (s_log s)) (s_log s')) = [EvSpawn]"
proof -
  let ?g = "(gate_reset (s_gate s))\<lparr>gstate := GateArmed, gversion := v, deadline := inst + window (s_gate s),
      ready_at := 0, gfail := NoFail\<rparr>"
  let ?w = "write_pid_file c pid (record_history EvSpawn v None [] (s\<lparr>s_gate := ?g\<rparr>)\<lparr>s_current := Some pid\<rparr>)"
  have v: "v \<noteq> []" using assms(3) by (simp add: plain_name_def)
  obtain path g where p: "resolve c (s_fs s) = (Inr (path, v), s_fs s)" "check_blacklist c v s = (Inr False, s)"
    using turn_on_trial [OF assms(1-5,10)] by blast
  note arm = armed_on_trial [OF assms(2) v assms(10)]
  have f: "faults (s_fs s) = []" using assms(2) by (simp add: on_trial_def)
  then have only: "only_at {pid_path c} (s_fs s) (s_fs ?w)" "faults (s_fs ?w) = []"
    by (simp_all add: write_pid_file_def only_at_def os_outside os_clean)
  note apart = pid_path_apart [OF assms(1) only(1)]
  have tr: "on_trial c v a inst (s_fs ?w)" by (rule on_trial_ended [OF assms(1) only assms(2)])
  have gw: "s_gate ?w = ?g" "gstate ?g = GateArmed" "stable_for ?g = stable_for (s_gate s)"
    "deadline ?g = inst + window (s_gate s)" "gate_ok ?g" using assms(6) by (simp_all add: gate_ok_def)
  let ?st = "start_session c (t_start t) ?w"
  obtain st1 s1 where one: "select_loop c v [e1, e2] ?st ?w = (Inr st1, s1)" "cur st1 = Running"
    "gate_at st1 = Some (e_at e2 + max (millis 10) (stable_for (s_gate s)))" "s_gate s1 = on_ready (e_at e2) ?g"
    "s_fs s1 = s_fs ?w" "s_log s1 = s_log ?w"
    using ready_on_trial [of ?st ?w e1 e2 c v] assms(7,12,13,16) gw by (auto simp: start_session_def)
  obtain st2 s2 where two: "select_loop c v beats st1 s1 = (Inr st2, s2)" "undisturbed (st1, s1) (st2, s2)"
    using beats_undisturbed [OF assms(14) one(2)] by blast
  let ?s3 = "s2\<lparr>s_fs := snd (delete_gate_marker (c_root c) (s_fs s2)),
      s_gate := gate_reset ((on_ready (e_at e2) ?g)\<lparr>gstate := GatePassed\<rparr>)\<rparr>"
  have three: "select_loop c v [e3] st2 s2 = (Inr (st2\<lparr>gate_at := None\<rparr>), ?s3)"
    using two(2) one(3,4) assms(17) gw
    by (intro gate_passes [OF assms(15)]) (simp_all add: undisturbed_def)
  have "select_loop c v (t_events t) ?st ?w = (Inr (st2\<lparr>gate_at := None\<rparr>), ?s3)"
    by (simp only: assms(11) select_loop_append one(1) two(1) three prod.case sum.case)
  then have "loop_step c t s = (Supervising, ?s3)"
    using assms(8) p arm by (simp add: loop_step_def run_one_spawn_def assms(9) Let_def)
  moreover have fs: "s_fs s2 = s_fs ?w" "s_log s2 = s_log ?w" using two(2) one(5,6) by (simp_all add: undisturbed_def)
  moreover have "snd (delete_gate_marker (c_root c) (s_fs ?w)) = put_node (gate_marker_path (c_root c)) None (s_fs ?w)"
    using delete_clean [of "s_fs ?w" "c_root c"] tr by (simp add: on_trial_def)
  moreover have "c_blacklist c \<noteq> gate_marker_path (c_root c)" "current_link (c_root c) \<noteq> gate_marker_path (c_root c)"
    "previous_link (c_root c) \<noteq> gate_marker_path (c_root c)" using assms(1) by (auto simp: layout_def)
  ultimately show ?thesis
    using tr apart [of "c_blacklist c"] by (intro exI [of _ ?s3]) (simp add: on_trial_def put_node_def link_at_def)
qed

lemma demo_on_trial:
  assumes "demo_update = (Inr res, f')"
  shows "on_trial demo_config ''v2'' ''versions/v1'' (seconds 100) f'"
proof -
  have m: "p_root demo_apply = ''/r''" "p_manifest demo_apply = Some demo_manifest" "f_version demo_manifest = ''v2''"
    by (simp_all add: demo_apply_def demo_manifest_def)
  have t: "\<not> time_is_zero (seconds 100)" "time_encodable (seconds 100)" by (simp_all add: time_is_zero_def time_encodable_def)
  have u: "updatable (p_root demo_apply) (f_version demo_manifest) ''versions/v1'' one_version_fs"
    using demo_updatable by (simp only: m)
  have n: "''versions/v1'' \<noteq> path_join [''versions'', ''v2'']" using u by (simp add: updatable_def m)
  from update_effect [OF assms m(2) u t] n show ?thesis
    unfolding on_trial_def demo_names m by (auto simp: link_at_def split: option.splits node.splits)
qed

definition settling_turn :: turn where
  "settling_turn = (idle_turn (Started 7))\<lparr>t_events :=
     [\<lparr>e_at = seconds 101, e_kind = Arrive ''READY=1''\<rparr>, \<lparr>e_at = seconds 101, e_kind = SelMsg\<rparr>]
     @ [\<lparr>e_at = seconds 110, e_kind = Arrive ''WATCHDOG=1''\<rparr>, \<lparr>e_at = seconds 110, e_kind = SelMsg\<rparr>]
     @ [\<lparr>e_at = seconds 116, e_kind = SelGate (Reaped None)\<rparr>]\<rparr>"

lemma good_update_kept_witness:
  "\<exists>res f' s'. demo_update = (Inr res, f') \<and> loop_step demo_config settling_turn (demo_sup f') = (Supervising, s')
    \<and> \<not> is_active (s_gate s') \<and> link_at (s_fs s') ''/r/previous'' = Some ''versions/v1''"
proof -
  obtain res f' where a: "demo_update = (Inr res, f')" using demo_apply_succeeds by blast
  have g: "gate_ok (s_gate (demo_sup f'))" "window (s_gate (demo_sup f')) = seconds 90"
    "stable_for (s_gate (demo_sup f')) = seconds 15" "s_queue (demo_sup f') = []" "s_fs (demo_sup f') = f'"
    by (simp_all add: demo_sup_def new_gate_def default_gate_window_def default_gate_stable_for_def gate_ok_def in_int64_def)
  have tr: "on_trial demo_config ''v2'' ''versions/v1'' (seconds 100) (s_fs (demo_sup f'))"
    using demo_on_trial [OF a] by (simp only: g(5))
  have rc: "recoverable demo_config [] (s_fs (demo_sup f'))" using demo_update_exit(2) [OF a] by (simp only: g(5))
  have t: "\<not> t_cancelled settling_turn" "t_spawn settling_turn = Started 7" "t_start settling_turn = seconds 100"
    by (simp_all add: settling_turn_def idle_turn_def)
  have ev: "t_events settling_turn =
     [\<lparr>e_at = seconds 101, e_kind = Arrive ''READY=1''\<rparr>, \<lparr>e_at = seconds 101, e_kind = SelMsg\<rparr>]
     @ [\<lparr>e_at = seconds 110, e_kind = Arrive ''WATCHDOG=1''\<rparr>, \<lparr>e_at = seconds 110, e_kind = SelMsg\<rparr>]
     @ [\<lparr>e_at = seconds 116, e_kind = SelGate (Reaped None)\<rparr>]"
    by (simp add: settling_turn_def)
  have nc: "\<not> contains [] ''v2''" by (simp add: contains_def)
  have st: "t_start settling_turn < seconds 100 + window (s_gate (demo_sup f'))" by (simp add: t(3) g(2))
  obtain s' where "loop_step demo_config settling_turn (demo_sup f') = (Supervising, s')" "\<not> is_active (s_gate s')"
    "link_at (s_fs s') (previous_link (c_root demo_config)) = Some ''versions/v1''"
    using good_update_kept [OF demo_layout tr demo_names(5) rc nc g(1,4) t(1,2) st ev] g(2,3) by (auto simp: beat_def)
  with a show ?thesis by (auto simp: demo_names demo_paths)
qed

end
