(* ===== verification/Healing.thy ===== *)
theory Healing
  imports Gateway Worker
begin

section \<open>The healing of the gateway without an operator (internal/openclaw/poller.go, cmd/clawmast/run.go)\<close>

text \<open>
  What a probe's trigger starts, and when it is sure to start. Theory \<open>Poller\<close> shows that a
  recovery needs evidence and keeps its distance from the last; here is the other half, that a gateway which
  stays down is not left alone.
\<close>

subsection \<open>The trigger\<close>

definition autoheal_trigger :: "cascade_env \<Rightarrow> prog" where
  \<comment> \<open>the closure \<^verbatim>\<open>applyAutoheal\<close> installs: the cascade, whose events are drained\<close>
  "autoheal_trigger env = cascade env"

definition trigger_timeout :: duration where
  \<comment> \<open>of the goroutine \<^verbatim>\<open>ProbeNow\<close> starts\<close>
  "trigger_timeout = seconds 90"

definition liveness_timeout :: duration where "liveness_timeout = millis 1500"

definition healthy_timeout :: duration where
  \<comment> \<open>of one \<^verbatim>\<open>healthyAfter\<close>\<close>
  "healthy_timeout = seconds 5"

text \<open>The cascade's own limits end every tier and probe before the deadline of the trigger does.\<close>

lemma trigger_covers_cascade:
  "doctor_timeout + healthy_timeout + gateway_timeout + healthy_timeout + os_restart_timeout
     + liveness_timeout + probe_timeout \<le> trigger_timeout"
  by (simp add: doctor_timeout_def healthy_timeout_def gateway_timeout_def os_restart_timeout_def
      liveness_timeout_def probe_timeout_def trigger_timeout_def)

subsection \<open>A gateway that stays down\<close>

definition down_watch :: "(string \<Rightarrow> json option) \<Rightarrow> instant \<Rightarrow> op \<Rightarrow> bool" where
  \<comment> \<open>nobody starts an action or asks for a stop, and every probe, from an instant on, finds the
    CLI but no gateway\<close>
  "down_watch um since x = (case x of
     Probe addr prev q \<Rightarrow> \<not> http_ok q \<and> \<not> n_cli_missing (probe um addr q prev) \<and> since \<le> q_commit q
   | Intend i \<Rightarrow> i \<noteq> IntentStopped | Begin a t \<Rightarrow> False | _ \<Rightarrow> True)"

definition probes :: "op list \<Rightarrow> int" where
  "probes xs = int (length (filter (\<lambda>x. case x of Probe addr prev q \<Rightarrow> True | _ \<Rightarrow> False) xs))"

definition watching :: "manager \<Rightarrow> int \<Rightarrow> manager \<Rightarrow> bool" where
  \<comment> \<open>nothing has been triggered since, after so many probes\<close>
  "watching m k m' \<longleftrightarrow> g_triggers m' = g_triggers m \<and> g_action m' = [] \<and> n_intent (g_store m') \<noteq> IntentStopped
     \<and> n_ah_next (g_store m') = n_ah_next (g_store m) \<and> g_autoheal m' = g_autoheal m
     \<and> k \<le> n_ah_down (g_store m') \<and> (k = 0 \<or> k < ah_threshold (g_autoheal m))"

lemma probes_snoc:
  "probes (xs @ [Probe addr prev q]) = probes xs + 1"
  "\<nexists>addr prev q. x = Probe addr prev q \<Longrightarrow> probes (xs @ [x]) = probes xs"
  by (simp add: probes_def) (cases x; simp add: probes_def)

lemma probe_fires:
  assumes "watching m k m'" "down_watch um since (Probe addr prev q)" "ah_enabled (g_autoheal m)"
    and "n_ah_next (g_store m) \<le> since"
  shows "(ah_threshold (g_autoheal m) \<le> k + 1 \<longrightarrow> g_triggers (apply_op um m' (Probe addr prev q)) = g_triggers m @ [q_commit q])
    \<and> (g_triggers (apply_op um m' (Probe addr prev q)) = g_triggers m @ [q_commit q]
       \<or> watching m (k + 1) (apply_op um m' (Probe addr prev q)))"
proof (cases "ah_threshold (g_autoheal m) \<le> n_ah_down (g_store m') + 1")
  case True
  with assms show ?thesis
    by (simp add: watching_def down_watch_def commit_autoheal should_autoheal_iff merge_facts probe_facts)
next
  case False
  with assms have "watching m (k + 1) (apply_op um m' (Probe addr prev q))"
    by (simp add: watching_def down_watch_def commit_store commit_autoheal should_autoheal_iff merge_facts probe_facts)
      (simp add: commit_def should_autoheal_iff merge_facts probe_facts Let_def)
  with False assms(1) show ?thesis by (simp add: watching_def)
qed

lemma other_keeps_watching:
  assumes "watching m k m'" "down_watch um since x" "\<nexists>addr prev q. x = Probe addr prev q"
  shows "watching m k (apply_op um m' x)"
  using assms by (cases x) (auto simp: watching_def down_watch_def handler_defs)

lemma triggers_grow: "\<exists>ys. g_triggers (apply_op um m x) = g_triggers m @ ys"
  by (cases x) (auto simp: commit_autoheal handler_defs)

lemma watch_fires:
  assumes "watching m 0 m" "ah_enabled (g_autoheal m)" "n_ah_next (g_store m) \<le> since" "list_all (down_watch um since) xs"
  shows "(\<exists>t ys. since \<le> t \<and> g_triggers (run_ops um m xs) = g_triggers m @ t # ys) \<or> watching m (probes xs) (run_ops um m xs)"
  using assms(4)
proof (induction xs rule: rev_induct)
  case Nil
  then show ?case using assms(1) by (simp add: run_ops_def probes_def)
next
  case (snoc x xs)
  show ?case
  proof (cases "\<exists>t ys. since \<le> t \<and> g_triggers (run_ops um m xs) = g_triggers m @ t # ys")
    case True
    then show ?thesis using triggers_grow [of um "run_ops um m xs" x] by (auto simp: run_ops_snoc)
  next
    case False
    with snoc have w: "watching m (probes xs) (run_ops um m xs)" by auto
    have d: "down_watch um since x" using snoc.prems by simp
    show ?thesis
    proof (cases x)
      case (Probe addr prev q)
      have "since \<le> q_commit q" using d Probe by (simp add: down_watch_def)
      with probe_fires [OF w d [unfolded Probe] assms(2,3)] Probe show ?thesis
        unfolding run_ops_snoc Probe probes_snoc(1) by auto
    qed (use other_keeps_watching [OF w d] in \<open>simp_all add: run_ops_snoc probes_snoc\<close>)
  qed
qed

text \<open>
  C32: a gateway that stays down is healed. From any state in which autoheal is enabled, no action
  is in flight, the operator has not asked for a stop and the cooldown of the last recovery is
  over, let other requests come in as they may, short of an action or a stop: by the time as many
  probes as the threshold asks for have found the gateway down, a recovery has been started.
\<close>
theorem autoheal_fires:
  assumes "ah_enabled cfg" and "\<forall>addr prev q. Probe addr prev q \<in> set ops \<longrightarrow> 0 \<le> q_commit q"
    and "g_action (run_ops um (new_manager cfg) ops) = []"
    and "n_intent (g_store (run_ops um (new_manager cfg) ops)) \<noteq> IntentStopped"
    and "\<forall>t \<in> set (g_triggers (run_ops um (new_manager cfg) ops)). t + ah_cooldown (with_autoheal cfg) \<le> since"
    and "0 \<le> since" and "list_all (down_watch um since) xs" and "ah_threshold (with_autoheal cfg) \<le> probes xs"
  shows "\<exists>t ys. since \<le> t \<and> g_triggers (run_ops um (new_manager cfg) (ops @ xs))
    = g_triggers (run_ops um (new_manager cfg) ops) @ t # ys"
proof -
  let ?m = "run_ops um (new_manager cfg) ops"
  have a: "cooling ?m" "g_autoheal ?m = with_autoheal cfg" using run_cooling [OF assms(2)] by simp_all
  have th: "1 \<le> ah_threshold (with_autoheal cfg)" "ah_enabled (with_autoheal cfg)"
    using assms(1) by (simp_all add: with_autoheal_def Let_def)
  have nx: "n_ah_next (g_store ?m) \<le> since"
    using a assms(5,6) by (auto simp: cooling_def Let_def split: if_splits)
  have "watching ?m 0 ?m" using assms(3,4) ah_down_nonneg by (simp add: watching_def)
  from watch_fires [OF this _ nx assms(7)] a(2) th(2) consider
      (fired) t ys where "since \<le> t" "g_triggers (run_ops um ?m xs) = g_triggers ?m @ t # ys"
    | (quiet) "watching ?m (probes xs) (run_ops um ?m xs)" by auto
  then show ?thesis
  proof cases
    case fired
    then show ?thesis by (auto simp: run_ops_append)
  next
    case quiet
    with th(1) assms(8) a(2) show ?thesis by (simp add: watching_def)
  qed
qed

lemma autoheal_fires_witness:
  "\<exists>t ys. seconds 10 \<le> t \<and> g_triggers (run_ops (\<lambda>_. None) (new_manager demo_autoheal)
     ([] @ [down_probe (seconds 10), Intend IntentRunning, down_probe (seconds 12)])) = t # ys"
proof -
  have d: "list_all (down_watch (\<lambda>_. None) (seconds 10)) [down_probe (seconds 10), Intend IntentRunning, down_probe (seconds 12)]"
    by code_simp
  have "g_triggers (run_ops (\<lambda>_. None) (new_manager demo_autoheal) []) = []" "g_action (run_ops (\<lambda>_. None) (new_manager demo_autoheal) []) = []"
    "n_intent (g_store (run_ops (\<lambda>_. None) (new_manager demo_autoheal) [])) \<noteq> IntentStopped"
    by (simp_all add: run_ops_def new_manager_def zero_snapshot_def)
  with autoheal_fires [of demo_autoheal "[]" "\<lambda>_. None" "seconds 10"
      "[down_probe (seconds 10), Intend IntentRunning, down_probe (seconds 12)]"] d
  show ?thesis by (simp add: demo_autoheal_def with_autoheal_def probes_def down_probe_def)
qed

end
