(* ===== verification/Installed.thy ===== *)
theory Installed
  imports Layout Lifecycle
begin

section \<open>From the signed manifest to the program that runs\<close>

text \<open>
  The path from the download to the launch: the bytes that were checked are the ones that
  \<^verbatim>\<open>Apply\<close> moves into place and that the supervisor's default resolver finds behind the
  \<open>current\<close> link.
\<close>

definition verified_node ::
  "(string \<Rightarrow> tar_stream option) \<Rightarrow> (string \<Rightarrow> string) \<Rightarrow> download_reply option \<Rightarrow> artifact \<Rightarrow> node option \<Rightarrow> bool" where
  \<comment> \<open>a file with the data of a worker entry of an archive that has the artifact's size and digest\<close>
  "verified_node untar sha256 reply art x \<longleftrightarrow> (\<exists>r entries e. reply = Some r
     \<and> int (length (d_body r)) = a_size art \<and> equal_fold (sha256 (d_body r)) (a_sha art)
     \<and> untar (d_body r) = Some entries \<and> e \<in> set (tar_entries entries) \<and> worker_entry e
     \<and> x = Some (File (Text (t_data e))))"

lemma download_places:
  assumes "download_and_extract untar sha256 reply art (staging_dir root v) f = (r, f')"
    and "in_int64 (a_size art)" and "0 < a_size art"
  shows "steady (protected_path root v) f f' \<and> (\<forall>n. r = Inr n \<longrightarrow>
      only_at {path_join [staging_dir root v, worker_file]} f f'
      \<and> verified_node untar sha256 reply art (nodes f' (path_join [staging_dir root v, worker_file])))"
  using download_steady [OF assms(1)] download_verified [of untar sha256 reply art "staging_dir root v" f _ f'] assms
  unfolding holds_worker_def verified_node_def by metis

subsection \<open>The names of the worker's file\<close>

lemma join_rel_path:
  assumes "list_all plain_name es" "list_all plain_name fs" "fs \<noteq> []"
  shows "path_join [abs_path es, rel_path fs] = abs_path (es @ fs)"
proof -
  let ?p = "abs_path es @ CHR ''/'' # rel_path fs"
  have a: "is_abs ?p" by (simp add: is_abs_def abs_path_def)
  have e: "foldl (clean_step True) [] (split_on (CHR ''/'') (abs_path es)) = rev es"
    using arg_cong [OF clean_elems_abs [OF assms(1)], of rev] by (simp add: clean_elems_def)
  have "clean_elems ?p = es @ fs"
    unfolding clean_elems_def split_on_middle clean_rel_path(2) [OF assms(2,3)] foldl_append
    using a by (simp add: e clean_steps_plain [OF assms(2)])
  then show ?thesis
    unfolding path_join_two [OF is_abs_path(2) rel_path_ne [OF assms(2,3)]] clean_abs_path [OF a] by simp
qed

lemma current_target: "plain_name v \<Longrightarrow> path_join [''versions'', v] = rel_path [''versions'', v]"
  using clean_rel_path(1) [of "[''versions'', v]"] default_names(1)
  by (simp add: path_join_def rel_path_def plain_name_def)

lemma worker_paths:
  assumes "list_all plain_name es" "plain_name v"
  shows "path_join [staging_dir (abs_path es) v, worker_file] = staging_dir (abs_path es) v @ ''/clawmast''"
    "path_join [path_join [abs_path es, path_join [''versions'', v]], ''clawmast''] = target_dir (abs_path es) v @ ''/clawmast''"
    "path_join [staging_dir (abs_path es) v, ''MANIFEST.json''] = staging_dir (abs_path es) v @ ''/MANIFEST.json''"
proof -
  note vp = version_paths [OF assms] and n = default_names(1,12,13)
  have s: "abs_path (es @ [x, y, z]) = abs_path (es @ [x, y]) @ CHR ''/'' # z" for x y z
    using abs_path_snoc [of "es @ [x, y]" z] by simp
  show "path_join [staging_dir (abs_path es) v, worker_file] = staging_dir (abs_path es) v @ ''/clawmast''"
    "path_join [staging_dir (abs_path es) v, ''MANIFEST.json''] = staging_dir (abs_path es) v @ ''/MANIFEST.json''"
    unfolding worker_file_def vp(3) using vp(4) [OF n(2)] vp(4) [OF n(3)] s by simp_all
  have t: "list_all plain_name (es @ [''versions'', v])" using assms n(1) by simp
  show "path_join [path_join [abs_path es, path_join [''versions'', v]], ''clawmast''] = target_dir (abs_path es) v @ ''/clawmast''"
    unfolding current_target [OF assms(2)] vp(2)
    using join_rel_path [OF assms(1), of "[''versions'', v]"] join_abs_path [OF t n(2)] s assms(2) n(1) by simp
qed

lemma apart_dirs:
  assumes "list_all plain_name es" "plain_name v"
  shows "staging_dir (abs_path es) v @ CHR ''/'' # n \<notin> tree (target_dir (abs_path es) v)"
    "staging_dir (abs_path es) v \<notin> tree (target_dir (abs_path es) v)"
proof -
  note vp = version_paths [OF assms] and s = plain_staging [OF assms(2)]
  let ?st = "''.'' @ v @ ''.partial''" 
  have e: "split_on (CHR ''/'') (abs_path (es @ [''versions'', ?st])) = [] # es @ [''versions'', ?st]"
    by (rule split_abs_path) (use assms s default_names(1) in auto)
  have t: "split_on (CHR ''/'') (abs_path (es @ [''versions'', v])) = [] # es @ [''versions'', v]"
    by (rule split_abs_path) (use assms default_names(1) in auto)
  have "False" if "p \<in> tree (target_dir (abs_path es) v)"
    "split_on (CHR ''/'') p = [] # es @ ''versions'' # ?st # r" for p r
  proof -
    from that(1) consider "p = target_dir (abs_path es) v" | q where "p = target_dir (abs_path es) v @ CHR ''/'' # q"
      by (auto simp: tree_def below_def prefix_def)
    then have "\<exists>r. split_on (CHR ''/'') p = [] # es @ ''versions'' # v # r"
      unfolding vp(2) by cases (auto simp: t split_on_middle)
    with that(2) show False by auto
  qed
  note no = this
  show "staging_dir (abs_path es) v @ CHR ''/'' # n \<notin> tree (target_dir (abs_path es) v)"
    unfolding vp(3)
    using no [of "abs_path (es @ [''versions'', ?st]) @ CHR ''/'' # n" "split_on (CHR ''/'') n", unfolded split_on_middle e] by auto
  show "staging_dir (abs_path es) v \<notin> tree (target_dir (abs_path es) v)"
    unfolding vp(3) using no [of _ "[]"] e by auto
qed

subsection \<open>The staged file reaches its place\<close>

lemma prepare_made:
  assumes "prepare_staging root v f = (Inr u, g)"
  shows "nodes g (staging_dir root v) = Some Dir"
proof -
  obtain f1 f2 where "os_mkdir_all (staging_dir root v) f2 = (Inr u, g)"
    using assms by (auto simp: prepare_staging_def split: sum.splits prod.splits)
  then show ?thesis by (rule_tac os_mkdir_all_E [of "staging_dir root v" f2]) auto
qed

lemma promote_moves:
  assumes "promote root v f = (Inr u, g)" "faults f = []" "nodes f (staging_dir root v) = Some Dir"
    and "staging_dir root v \<notin> tree (target_dir root v)" "staging_dir root v @ CHR ''/'' # n \<notin> tree (target_dir root v)"
  shows "nodes g (target_dir root v @ CHR ''/'' # n) = nodes f (staging_dir root v @ CHR ''/'' # n)"
proof -
  obtain h where h: "os_rename (staging_dir root v) (target_dir root v) h = (Inr u, g)" "faults h = []"
    "\<And>q. q \<notin> tree (target_dir root v) \<Longrightarrow> nodes h q = nodes f q"
    using assms(1,2)
    by (cases "nodes f (target_dir root v)")
      (auto simp: promote_def os_stat_ok_def os_remove_all_def tree_def)
  have "nodes h (staging_dir root v) = Some Dir" using h(3) assms(3,4) by simp
  then have "nodes g = move_tree (staging_dir root v) (target_dir root v) (nodes h)"
    using h(1,2) by (auto simp: os_rename_def split: if_splits)
  then show ?thesis using h(3) [OF assms(5)] by (simp add: move_tree_def below_def)
qed

subsection \<open>Apply in steps\<close>

datatype apply_pc = AtPrepare | AtFetch | AtCleanup apply_error | AtManifest int | AtPromote int
  | AtRotate int | AtMarker int string string string | Finished "apply_error + apply_result"

record install_job =
  j_fetch :: "fsys \<Rightarrow> (download_error + int) \<times> fsys"   \<comment> \<open>the download into the staging directory\<close>
  j_version :: string
  j_artifact :: artifact
  j_time :: instant

definition job_step :: "string \<Rightarrow> install_job \<Rightarrow> apply_pc \<Rightarrow> fsys \<Rightarrow> apply_pc \<times> fsys" where
  "job_step root j pc f =
     (let v = j_version j
      in case pc of
        AtPrepare \<Rightarrow>
          (case prepare_staging root v f of
             (Inl e, f) \<Rightarrow> (Finished (Inl (Prepare e)), f) | (Inr _, f) \<Rightarrow> (AtFetch, f))
      | AtFetch \<Rightarrow>
          (case j_fetch j f of (Inl e, f) \<Rightarrow> (AtCleanup (Download e), f) | (Inr n, f) \<Rightarrow> (AtManifest n, f))
      | AtCleanup e \<Rightarrow> (Finished (Inl e), snd (os_remove_all (staging_dir root v) f))
      | AtManifest n \<Rightarrow>
          (case write_version_manifest (staging_dir root v) v (j_artifact j) (j_time j) f of
             (Inl e, f) \<Rightarrow> (AtCleanup (VersionManifest e), f) | (Inr _, f) \<Rightarrow> (AtPromote n, f))
      | AtPromote n \<Rightarrow>
          (case promote root v f of
             (Inl e, f) \<Rightarrow> (Finished (Inl (Promote e)), f) | (Inr _, f) \<Rightarrow> (AtRotate n, f))
      | AtRotate n \<Rightarrow>
          (case rotate_symlinks root v f of
             (Inl e, f) \<Rightarrow> (Finished (Inl (Rotate e)), f)
           | (Inr (before, after, prev), f) \<Rightarrow> (AtMarker n before after prev, f))
      | AtMarker n before after prev \<Rightarrow>
          (case write_gate_marker root \<lparr>m_version = v, m_installed_at = j_time j\<rparr> (j_time j) f of
             (Some e, f) \<Rightarrow> (Finished (Inl (Marker e)), f)
           | (None, f) \<Rightarrow> (Finished (Inr \<lparr>r_version_dir = target_dir root v, r_before = before,
                r_after = after, r_previous = prev, r_bytes = n\<rparr>), f))
      | Finished r \<Rightarrow> (Finished r, f))"

fun job_steps :: "nat \<Rightarrow> string \<Rightarrow> install_job \<Rightarrow> apply_pc \<times> fsys \<Rightarrow> apply_pc \<times> fsys" where
  "job_steps 0 root j x = x"
| "job_steps (Suc n) root j x = job_steps n root j (case x of (pc, f) \<Rightarrow> job_step root j pc f)"

lemma job_steps_finished: "job_steps n root j (Finished r, f) = (Finished r, f)"
  by (induction n) (simp_all add: job_step_def)

lemma install_steps:
  "job_steps 6 root j (AtPrepare, f) =
     (case install_artifact (j_fetch j) root (j_version j) (j_artifact j) (j_time j) f of (r, f') \<Rightarrow> (Finished r, f'))"
  unfolding install_artifact_def activate_def
  by (simp add: eval_nat_numeral job_step_def job_steps_finished split: sum.split prod.split option.split)


definition update_job ::
  "(string \<Rightarrow> tar_stream option) \<Rightarrow> (string \<Rightarrow> string) \<Rightarrow> download_reply option \<Rightarrow> string \<Rightarrow> string
   \<Rightarrow> artifact \<Rightarrow> instant \<Rightarrow> install_job" where
  \<comment> \<open>what \<open>apply_update\<close> runs for a manifest that passed its guards\<close>
  "update_job untar sha256 reply root v art now =
     \<lparr>j_fetch = download_and_extract untar sha256 reply art (staging_dir root v),
      j_version = v, j_artifact = art, j_time = now\<rparr>"

subsection \<open>What each phase leaves behind\<close>

definition placed :: "string \<Rightarrow> string \<Rightarrow> (node option \<Rightarrow> bool) \<Rightarrow> apply_pc \<Rightarrow> fsys \<Rightarrow> bool" where
  \<comment> \<open>where the downloaded file is at each point of \<^verbatim>\<open>Apply\<close>\<close>
  "placed root v P pc f \<longleftrightarrow>
     (case pc of
        AtFetch \<Rightarrow> nodes f (staging_dir root v) = Some Dir
      | AtManifest _ \<Rightarrow> nodes f (staging_dir root v) = Some Dir \<and> P (nodes f (staging_dir root v @ ''/clawmast''))
      | AtPromote _ \<Rightarrow> nodes f (staging_dir root v) = Some Dir \<and> P (nodes f (staging_dir root v @ ''/clawmast''))
      | AtRotate _ \<Rightarrow> P (nodes f (target_dir root v @ ''/clawmast''))
      | AtMarker _ _ _ _ \<Rightarrow> P (nodes f (target_dir root v @ ''/clawmast''))
      | Finished (Inr _) \<Rightarrow> P (nodes f (target_dir root v @ ''/clawmast''))
      | _ \<Rightarrow> True)"

definition fetches :: "string \<Rightarrow> (node option \<Rightarrow> bool) \<Rightarrow> install_job \<Rightarrow> bool" where
  \<comment> \<open>the download keeps to the staging directory and, when it succeeds, leaves a file with \<open>P\<close>\<close>
  "fetches root P j \<longleftrightarrow> (\<forall>f r f'. j_fetch j f = (r, f') \<longrightarrow> steady (protected_path root (j_version j)) f f'
     \<and> (\<forall>n. r = Inr n \<longrightarrow> only_at {path_join [staging_dir root (j_version j), worker_file]} f f'
          \<and> P (nodes f' (path_join [staging_dir root (j_version j), worker_file]))))"

lemma update_job_fetches:
  "in_int64 (a_size art) \<Longrightarrow> 0 < a_size art \<Longrightarrow>
   fetches root (verified_node untar sha256 reply art) (update_job untar sha256 reply root v art now)"
  using download_places unfolding fetches_def update_job_def by simp

lemma rotate_frame:
  assumes "rotate_symlinks root v f = (r, g)" "faults f = []"
  shows "faults g = [] \<and> only_at {current_link root, previous_link root} f g"
proof -
  define t where "t = path_join [''versions'', v]"
  show ?thesis
    using assms unfolding rotate_symlinks_def Let_def t_def [symmetric]
    by (auto simp: rotate_previous_def os_defs only_at_def split: option.splits node.splits if_splits)
qed

lemma marker_frame:
  assumes "write_gate_marker root m now f = (r, g)" "faults f = []"
  shows "faults g = [] \<and> only_at (marker_paths root) f g"
  using assms
  by (auto simp: write_gate_marker_def os_defs only_at_def marker_paths_def Let_def split: option.splits node.splits if_splits)

lemma link_paths_elsewhere:
  assumes "standard es c" "list_all plain_name (x # xs)"
  shows "abs_path (es @ ''versions'' # x # xs) \<notin> {current_link (c_root c), previous_link (c_root c)} \<union> marker_paths (c_root c)"
proof -
  have "list_all plain_name es" using assms(1) by (simp add: standard_def)
  then have "abs_path (es @ ''versions'' # x # xs) \<noteq> abs_path (es @ y # ys)"
    if "list_all plain_name (y # ys)" "y \<noteq> ''versions''" for y ys
    using abs_path_inj [of "es @ ''versions'' # x # xs" "es @ y # ys"] assms(2) default_names(1) that by simp
  then show ?thesis
    unfolding marker_paths_def standard_paths [OF assms(1)] using default_names by simp
qed

lemma installed_file:
  assumes "list_all plain_name es" "plain_name v"
  shows "target_dir (abs_path es) v @ ''/clawmast'' = abs_path (es @ [''versions'', v, ''clawmast''])"
    "staging_dir (abs_path es) v @ ''/clawmast'' = abs_path (es @ [''versions'', ''.'' @ v @ ''.partial'', ''clawmast''])"
  using version_paths(2,3) [OF assms] abs_path_snoc [of "es @ [''versions'', v]" "''clawmast''"]
    abs_path_snoc [of "es @ [''versions'', ''.'' @ v @ ''.partial'']" "''clawmast''"] by simp_all

lemma protected_sibling:
  assumes "list_all plain_name es" "plain_name w" "list_all plain_name (x # xs)" "x \<noteq> w" "x \<noteq> ''.'' @ w @ ''.partial''"
  shows "protected_path (abs_path es) w (abs_path (es @ ''versions'' # x # xs))"
proof -
  note vp = version_paths [OF assms(1,2)]
  have q: "list_all plain_name (es @ ''versions'' # x # xs)" using assms(1,3) default_names(1) by simp
  have t: "abs_path (es @ ''versions'' # x # xs) \<notin> tree (abs_path (es @ [''versions'', m]))"
    if "plain_name m" "x \<noteq> m" for m
    using tree_abs_path [OF _ q, of "es @ [''versions'', m]"] assms(1) default_names(1) that by auto
  have e: "abs_path (es @ ''versions'' # x # xs) \<noteq> abs_path (es @ ''versions'' # ms)"
    if "list_all plain_name ms" "ms \<noteq> x # xs" for ms
    using abs_path_inj [OF q, of "es @ ''versions'' # ms"] assms(1) default_names(1) that by auto
  show ?thesis
    unfolding protected_path_def worker_file_def vp(1-3) vp(4) [OF default_names(12)] vp(4) [OF default_names(13)]
    using t [OF assms(2,4)] t [OF plain_staging [OF assms(2)] assms(5)] e [of "[]"]
      e [of "[''.'' @ w @ ''.partial'', ''clawmast'']"] e [of "[''.'' @ w @ ''.partial'', ''MANIFEST.json'']"]
      plain_staging [OF assms(2)] default_names(12,13) assms(5) by simp
qed

lemma step_steady:
  assumes "job_step root j pc f = (pc', g)" "fetches root P j" "\<And>n. pc \<noteq> AtRotate n"
    and "\<And>n x y z. pc \<noteq> AtMarker n x y z"
  shows "steady (protected_path root (j_version j)) f g"
proof -
  let ?v = "j_version j"
  note s = prepare_steady [of root ?v f] promote_steady [of root ?v f] steady_os(3) [of root ?v f]
    steady_os(6) [of root ?v f "Doc (version_manifest ?v (j_artifact j) (j_time j))"]
  have "steady (protected_path root ?v) f f'" if "j_fetch j f = (r, f')" for r f'
    using assms(2) that unfolding fetches_def by blast
  with assms(1,3,4) s show ?thesis
    by (cases pc) (auto simp: job_step_def write_version_manifest_def steady_refl Let_def split: sum.splits prod.splits)
qed

lemma step_apart:
  assumes "standard es c" "job_step (c_root c) j pc f = (pc', g)" "faults f = []" "fetches (c_root c) P j"
    and "list_all plain_name (x # xs)" "protected_path (c_root c) (j_version j) (abs_path (es @ ''versions'' # x # xs))
      \<or> (\<exists>n. pc = AtRotate n) \<or> (\<exists>n y z w. pc = AtMarker n y z w)"
  shows "faults g = []" "nodes g (abs_path (es @ ''versions'' # x # xs)) = nodes f (abs_path (es @ ''versions'' # x # xs))"
proof -
  note e = link_paths_elsewhere [OF assms(1,5)]
  have "faults g = [] \<and> nodes g (abs_path (es @ ''versions'' # x # xs)) = nodes f (abs_path (es @ ''versions'' # x # xs))"
  proof (cases "(\<exists>n. pc = AtRotate n) \<or> (\<exists>n y z w. pc = AtMarker n y z w)")
    case True
    then show ?thesis
    proof (elim disjE exE)
      fix n assume "pc = AtRotate n"
      with assms(2) obtain x where "rotate_symlinks (c_root c) (j_version j) f = (x, g)"
        by (auto simp: job_step_def split: sum.splits prod.splits)
      from rotate_frame [OF this assms(3)] e show ?thesis unfolding only_at_def by blast
    next
      fix n y z w assume "pc = AtMarker n y z w"
      with assms(2) obtain m x where "write_gate_marker (c_root c) m (j_time j) f = (x, g)"
        by (auto simp: job_step_def Let_def split: option.splits prod.splits)
      from marker_frame [OF this assms(3)] e show ?thesis unfolding only_at_def by blast
    qed
  next
    case False
    then show ?thesis using step_steady [OF assms(2,4)] assms(3,6) by (auto simp: steady_def)
  qed
  then show "faults g = []" "nodes g (abs_path (es @ ''versions'' # x # xs)) = nodes f (abs_path (es @ ''versions'' # x # xs))"
    by simp_all
qed

lemma step_clean:
  assumes "standard es c" "job_step (c_root c) j pc f = (pc', g)" "faults f = []" "fetches (c_root c) P j"
  shows "faults g = []"
proof (cases "(\<exists>n. pc = AtRotate n) \<or> (\<exists>n y z w. pc = AtMarker n y z w)")
  case True
  then show ?thesis using step_apart(1) [OF assms, of "''clawmast''" "[]"] default_names(12) by auto
next
  case False
  then show ?thesis using step_steady [OF assms(2,4)] assms(3) by (auto simp: steady_def)
qed

lemma step_placed:
  assumes std: "standard es c" and v: "plain_name (j_version j)" and step: "job_step (c_root c) j pc f = (pc', g)"
    and clean: "faults f = []" and fetch: "fetches (c_root c) P j" and pl: "placed (c_root c) (j_version j) P pc f"
  shows "placed (c_root c) (j_version j) P pc' g"
proof -
  let ?r = "c_root c" and ?v = "j_version j"
  have es: "?r = abs_path es" "list_all plain_name es" using std by (simp_all add: standard_def)
  note wp = worker_paths [OF es(2) v, folded es(1)] and ap = apart_dirs [OF es(2) v, folded es(1)]
  have vn: "list_all plain_name [?v, ''clawmast'']" using v default_names(12) by simp
  note t = step_apart(2) [OF std step clean fetch vn, folded installed_file(1) [OF es(2) v, folded es(1)]]
  have keep: "nodes h q = nodes f q" if "write_version_manifest (staging_dir ?r ?v) ?v art now f = (x, h)"
    "q \<noteq> staging_dir ?r ?v @ ''/MANIFEST.json''" for q art now x h
    using os_outside(2) [OF that(2), of "Doc (version_manifest ?v art now)" f] that(1)
    by (simp add: write_version_manifest_def wp)
  show ?thesis
  proof (cases pc)
    case AtPrepare
    with step show ?thesis by (auto simp: job_step_def placed_def prepare_made split: sum.splits prod.splits)
  next
    case AtFetch
    with step pl fetch show ?thesis
      by (auto simp: job_step_def placed_def fetches_def only_at_def wp Let_def split: sum.splits prod.splits)
  next
    case (AtManifest n)
    with step pl show ?thesis by (auto simp: job_step_def placed_def keep Let_def split: sum.splits prod.splits)
  next
    case (AtPromote n)
    with step pl promote_moves [OF _ clean _ ap(2,1)] show ?thesis
      by (auto simp: job_step_def placed_def split: sum.splits prod.splits)
  next
    case (AtRotate n)
    with step pl t show ?thesis by (auto simp: job_step_def placed_def split: sum.splits prod.splits)
  next
    case (AtMarker n x y z)
    with step pl t show ?thesis by (auto simp: job_step_def placed_def Let_def split: option.splits prod.splits)
  qed (use step pl in \<open>auto simp: job_step_def placed_def split: sum.splits\<close>)
qed

lemma steps_placed:
  assumes "standard es c" "plain_name (j_version j)" "fetches (c_root c) P j" "job_steps n (c_root c) j (pc, f) = (pc', g)"
    and "faults f = []" "placed (c_root c) (j_version j) P pc f"
  shows "placed (c_root c) (j_version j) P pc' g"
  using assms(4-6)
proof (induction n arbitrary: pc f)
  case (Suc n)
  obtain p1 f1 where s: "job_step (c_root c) j pc f = (p1, f1)" by fastforce
  from Suc.IH [of p1 f1] Suc.prems s step_clean [OF assms(1) s _ assms(3)] step_placed [OF assms(1,2) s _ assms(3)]
  show ?case by simp
qed simp

lemma resolve_installed:
  assumes "standard es c" "c_binary c = ''clawmast''" "plain_name v" "faults f = []"
    and "link_at f (current_link (c_root c)) = Some (path_join [''versions'', v])"
  shows "resolve c f = (Inr (target_dir (c_root c) v @ ''/clawmast'', v), f)"
proof -
  have r: "c_root c = abs_path es" "list_all plain_name es" "resolve c = resolve_current (c_root c) (c_binary c)"
    using assms(1) by (simp_all add: standard_def)
  have l: "nodes f (current_link (c_root c)) = Some (Link (path_join [''versions'', v]))"
    using assms(5) by (auto simp: link_at_def split: option.splits node.splits)
  have n: "\<not> is_abs (path_join [''versions'', v])"
    using rel_path_not_abs [of "[''versions'', v]"] assms(3) default_names(1) by (simp add: current_target)
  show ?thesis
    using assms(2,4) l n base_name_join [OF assms(3), of "''versions''"] worker_paths(2) [OF r(2) assms(3)]
    by (simp add: r(1,3) resolve_current_def resolve_worker_binary_def os_readlink_def)
qed

text \<open>
  C1: what runs is what was signed. After an update that succeeds, the path the supervisor's
  resolver returns for its next launch holds the data of a worker entry of the downloaded
  archive, and that archive has the size and the digest the manifest names for this host.
\<close>
theorem current_is_verified:
  assumes "apply_update untar sha256 net goos goarch cfg now f = (Inr res, f')"
    and "p_manifest cfg = Some m" and "for_host goos goarch m = Some art" and "in_int64 (a_size art)"
    and "standard es c" and "c_root c = p_root cfg" and "c_binary c = ''clawmast''"
    and "plain_name (f_version m)" and "updatable (p_root cfg) (f_version m) a f"
    and "\<not> time_is_zero now" and "time_encodable now"
  shows "\<exists>path. resolve c f' = (Inr (path, f_version m), f')
    \<and> verified_node untar sha256 (net (a_url art)) art (nodes f' path)"
proof -
  let ?r = "p_root cfg" and ?v = "f_version m"
  let ?d = "download_and_extract untar sha256 (net (a_url art)) art (staging_dir ?r ?v)"
  from assms(1-3) have run: "install_artifact ?d ?r ?v art now f = (Inr res, f')" and val: "validate m = None"
    by (auto simp: apply_update_def split: if_splits option.splits)
  have "art \<in> set (f_artifacts m)" using assms(3) by (auto simp: for_host_def find_Some_iff)
  then have pos: "0 < a_size art" using val by (auto simp: validate_None sound_artifact_def)
  let ?j = "update_job untar sha256 (net (a_url art)) ?r ?v art now"
  have "job_steps 6 (c_root c) ?j (AtPrepare, f) = (Finished (Inr res), f')"
    using run by (simp add: install_steps update_job_def assms(6))
  from steps_placed [OF assms(5) _ _ this, of "verified_node untar sha256 (net (a_url art)) art"]
    update_job_fetches [OF assms(4) pos] assms(6,8,9)
  have "verified_node untar sha256 (net (a_url art)) art (nodes f' (target_dir ?r ?v @ ''/clawmast''))"
    by (simp add: placed_def update_job_def updatable_def)
  moreover have "resolve c f' = (Inr (target_dir ?r ?v @ ''/clawmast'', ?v), f')"
    using resolve_installed [OF assms(5,7,8)] update_effect [OF assms(1,2,9-11)] assms(6) by simp
  ultimately show ?thesis by blast
qed

lemma current_is_verified_witness:
  "\<exists>res f' path. demo_update = (Inr res, f') \<and> resolve demo_config f' = (Inr (path, ''v2''), f')
    \<and> (\<exists>e \<in> set (tar_entries demo_archive). worker_entry e \<and> nodes f' path = Some (File (Text (t_data e))))"
proof -
  obtain res f' where u: "demo_update = (Inr res, f')" using demo_apply_succeeds by blast
  have h: "for_host ''linux'' ''amd64'' demo_manifest = Some demo_artifact"
    by (simp add: for_host_def demo_manifest_def demo_artifact_def)
  have "in_int64 (a_size demo_artifact)" by (simp add: demo_artifact_def in_int64_def)
  from current_is_verified [OF u _ h this demo_standard, of "''versions/v1''"] u show ?thesis
    by (auto simp: demo_apply_def demo_manifest_def demo_config_def demo_updatable verified_node_def
        plain_name_def time_is_zero_def time_encodable_def)
qed

subsection \<open>Example requests\<close>

text \<open>One artifact, the archive with its digest and another one; requests to install it as any version.\<close>

definition race_artifact :: artifact where
  "race_artifact = demo_artifact\<lparr>a_sha := ''a1''\<rparr>"

definition race_untar :: "string \<Rightarrow> tar_stream option" where
  "race_untar b = Some (if b = ''0123456789'' then demo_archive
     else TarEntry \<lparr>t_name = ''clawmast'', t_regular = True, t_mode = 493, t_data = ''forged'', t_complete = True\<rparr> TarEnd)"

definition race_sha256 :: "string \<Rightarrow> string" where
  "race_sha256 b = (if b = ''0123456789'' then ''A1'' else ''B2'')"

definition race_job :: "string \<Rightarrow> string \<Rightarrow> install_job" where
  "race_job body v = update_job race_untar race_sha256
     (Some \<lparr>d_status = 200, d_body = body, d_broken = False\<rparr>) ''/r'' v race_artifact (seconds 100)"

lemma race_artifact_size: "in_int64 (a_size race_artifact)" "0 < a_size race_artifact"
  by (simp_all add: race_artifact_def demo_artifact_def in_int64_def)

end
