(* ===== verification/Racing.thy ===== *)
theory Racing
  imports Installed
begin

section \<open>Overlapping requests (internal/agent/handlers.go, blacklist.go)\<close>

text \<open>
  Package \<^verbatim>\<open>net/http\<close> serves every request on a goroutine of its own, and neither
  \<^verbatim>\<open>handleUpdateInstall\<close> nor \<^verbatim>\<open>handleBlacklistAdd\<close> takes a lock. \<open>race\<close> lets two installations take
  turns, phase by phase, in the order of a schedule. Installations of different versions
  do not harm each other's files; two of the same version share their staging directory, and one
  can be made to activate what the other has rejected. Two overlapping additions to the
  blacklist are their reads followed by their writes.
\<close>

subsection \<open>Two installations\<close>

fun race :: "string \<Rightarrow> install_job \<Rightarrow> install_job \<Rightarrow> bool list \<Rightarrow> apply_pc \<times> apply_pc \<times> fsys
    \<Rightarrow> apply_pc \<times> apply_pc \<times> fsys" where
  \<comment> \<open>a schedule says at each point whether the first or the second makes its next step\<close>
  "race root a b [] x = x"
| "race root a b (t # ts) (p, q, f) =
     race root a b ts
       (if t then (case job_step root a p f of (p, f) \<Rightarrow> (p, q, f))
        else (case job_step root b q f of (q, f) \<Rightarrow> (p, q, f)))"

subsection \<open>Different versions\<close>

definition side_by_side :: "install_job \<Rightarrow> install_job \<Rightarrow> bool" where
  \<comment> \<open>versions that pass \<^verbatim>\<open>Validate\<close>, spelt as one path element each\<close>
  "side_by_side a b \<longleftrightarrow> plain_name (j_version a) \<and> plain_name (j_version b) \<and> j_version a \<noteq> j_version b
     \<and> prefix ''v'' (j_version a) \<and> prefix ''v'' (j_version b)"

lemma step_beside:
  assumes std: "standard es c" and ab: "side_by_side a b" and step: "job_step (c_root c) a p f = (p', g)"
    and clean: "faults f = []" and fetch: "fetches (c_root c) P a" and pl: "placed (c_root c) (j_version b) Q q f"
  shows "placed (c_root c) (j_version b) Q q g"
proof -
  have es: "c_root c = abs_path es" "list_all plain_name es" using std by (simp_all add: standard_def)
  have v: "plain_name (j_version a)" "plain_name (j_version b)" "j_version b \<noteq> j_version a"
    "prefix ''v'' (j_version a)" "prefix ''v'' (j_version b)" using ab by (auto simp: side_by_side_def)
  then have d: "j_version b \<noteq> ''.'' @ j_version a @ ''.partial''" "''.'' @ j_version b @ ''.partial'' \<noteq> j_version a"
    by (auto simp: prefix_def)
  have k: "nodes g (abs_path (es @ ''versions'' # x # xs)) = nodes f (abs_path (es @ ''versions'' # x # xs))"
    if "list_all plain_name (x # xs)" "x \<noteq> j_version a" "x \<noteq> ''.'' @ j_version a @ ''.partial''" for x xs
    using step_apart(2) [OF std step clean fetch that(1)] protected_sibling [OF es(2) v(1) that] unfolding es(1) by blast
  have n: "plain_name ''clawmast''" "plain_name (''.'' @ j_version b @ ''.partial'')"
    by (rule default_names plain_staging [OF v(2)])+
  have "nodes g (staging_dir (c_root c) (j_version b)) = nodes f (staging_dir (c_root c) (j_version b))"
    "nodes g (staging_dir (c_root c) (j_version b) @ ''/clawmast'') = nodes f (staging_dir (c_root c) (j_version b) @ ''/clawmast'')"
    "nodes g (target_dir (c_root c) (j_version b) @ ''/clawmast'') = nodes f (target_dir (c_root c) (j_version b) @ ''/clawmast'')"
    unfolding es(1) installed_file [OF es(2) v(2)] unfolding version_paths(3) [OF es(2) v(2)]
    using k [of "''.'' @ j_version b @ ''.partial''" "[]"] k [of "''.'' @ j_version b @ ''.partial''" "[''clawmast'']"]
      k [of "j_version b" "[''clawmast'']"] n v d by simp_all
  with pl show ?thesis by (simp add: placed_def split: apply_pc.splits sum.splits)
qed

lemma side_by_side_sym: "side_by_side a b \<Longrightarrow> side_by_side b a"
  by (auto simp: side_by_side_def)

lemma race_placed:
  assumes std: "standard es c" and ab: "side_by_side a b" and fa: "fetches (c_root c) P a" and fb: "fetches (c_root c) Q b"
    and "race (c_root c) a b ts (p, q, f) = (p', q', g)" and "faults f = []"
    and "placed (c_root c) (j_version a) P p f" and "placed (c_root c) (j_version b) Q q f"
  shows "placed (c_root c) (j_version a) P p' g \<and> placed (c_root c) (j_version b) Q q' g"
  using assms(5-8)
proof (induction ts arbitrary: p q f)
  case (Cons t ts)
  note ba = side_by_side_sym [OF ab]
  have va: "plain_name (j_version a)" and vb: "plain_name (j_version b)" using ab by (simp_all add: side_by_side_def)
  show ?case
  proof (cases t)
    case True
    obtain p1 f1 where s: "job_step (c_root c) a p f = (p1, f1)" by fastforce
    from Cons.IH [of p1 q f1] Cons.prems s True step_clean [OF std s _ fa]
      step_placed [OF std va s _ fa] step_beside [OF std ab s _ fa]
    show ?thesis by simp
  next
    case False
    obtain q1 f1 where s: "job_step (c_root c) b q f = (q1, f1)" by fastforce
    from Cons.IH [of p q1 f1] Cons.prems s False step_clean [OF std s _ fb]
      step_placed [OF std vb s _ fb] step_beside [OF std ba s _ fb]
    show ?thesis by simp
  qed
qed simp

text \<open>
  C15: updates to different versions may overlap. However the phases of two installations
  are interleaved and however either of them ends, the one that reports success has in its version
  directory a worker from an archive with the size and the digest of its own artifact.
\<close>
theorem overlapping_updates_verified:
  assumes "standard es c" and "faults f = []" and "side_by_side a b"
    and "a = update_job untar sha256 ra (c_root c) v art now" and "b = update_job untar sha256 rb (c_root c) w art' now'"
    and "in_int64 (a_size art)" and "0 < a_size art" and "in_int64 (a_size art')" and "0 < a_size art'"
    and "race (c_root c) a b schedule (AtPrepare, AtPrepare, f) = (p, q, g)"
  shows "(\<forall>res. p = Finished (Inr res) \<longrightarrow>
            verified_node untar sha256 ra art (nodes g (target_dir (c_root c) v @ ''/clawmast'')))
    \<and> (\<forall>res. q = Finished (Inr res) \<longrightarrow>
            verified_node untar sha256 rb art' (nodes g (target_dir (c_root c) w @ ''/clawmast'')))"
proof -
  have f: "fetches (c_root c) (verified_node untar sha256 ra art) a"
    "fetches (c_root c) (verified_node untar sha256 rb art') b"
    unfolding assms(4,5) using update_job_fetches assms(6-9) by simp_all
  have "placed (c_root c) (j_version a) (verified_node untar sha256 ra art) p g
      \<and> placed (c_root c) (j_version b) (verified_node untar sha256 rb art') q g"
    by (rule race_placed [OF assms(1,3) f assms(10,2)]) (simp_all add: placed_def)
  then show ?thesis by (auto simp: placed_def assms(4,5) update_job_def)
qed

lemma two_versions_race:
  "case race ''/r'' (race_job ''0123456789'' ''v2'') (race_job ''0123456789'' ''v3'')
      [True, False, False, True, True, False, True, False, False, False, True, True] (AtPrepare, AtPrepare, one_version_fs) of
     (Finished (Inr _), Finished (Inr _), _) \<Rightarrow> True | _ \<Rightarrow> False"
  by code_simp

lemma overlapping_updates_verified_witness:
  "\<exists>p q g res res'. race ''/r'' (race_job ''0123456789'' ''v2'') (race_job ''0123456789'' ''v3'')
      [True, False, False, True, True, False, True, False, False, False, True, True] (AtPrepare, AtPrepare, one_version_fs)
      = (Finished (Inr res), Finished (Inr res'), g)
    \<and> verified_node race_untar race_sha256 (Some \<lparr>d_status = 200, d_body = ''0123456789'', d_broken = False\<rparr>)
        race_artifact (nodes g (target_dir ''/r'' ''v2'' @ ''/clawmast''))"
proof -
  let ?a = "race_job ''0123456789'' ''v2''" and ?b = "race_job ''0123456789'' ''v3''"
  let ?s = "[True, False, False, True, True, False, True, False, False, False, True, True]"
  obtain res res' g where r: "race ''/r'' ?a ?b ?s (AtPrepare, AtPrepare, one_version_fs) =
      (Finished (Inr res), Finished (Inr res'), g)"
    using two_versions_race
    by (cases "race ''/r'' ?a ?b ?s (AtPrepare, AtPrepare, one_version_fs)")
      (auto split: apply_pc.splits sum.splits)
  have c: "c_root demo_config = ''/r''" by (simp add: demo_config_def)
  have s: "side_by_side ?a ?b" by (simp add: side_by_side_def race_job_def update_job_def plain_name_def)
  have f: "faults one_version_fs = []" by (simp add: one_version_fs_def)
  note o = overlapping_updates_verified [OF demo_standard f s _ _ race_artifact_size race_artifact_size, unfolded c, OF race_job_def race_job_def r]
  with r show ?thesis by blast
qed

subsection \<open>The same version\<close>

lemma same_version_race:
  "case race ''/r'' (race_job ''0123456789'' ''v2'') (race_job ''9876543210'' ''v2'')
      [True, True, False, False, True, True, True, True, False] (AtPrepare, AtPrepare, one_version_fs) of
     (p, q, g) \<Rightarrow> (case p of Finished (Inr _) \<Rightarrow> True | _ \<Rightarrow> False)
       \<and> q = Finished (Inl (Download BadSha256))
       \<and> fst (resolve demo_config g) = Inr (''/r/versions/v2/clawmast'', ''v2'')
       \<and> nodes g ''/r/versions/v2/clawmast'' = Some (File (Text ''forged''))"
  by code_simp


subsection \<open>The blacklist\<close>

definition add_write :: "string \<Rightarrow> bl_entry \<Rightarrow> bl_entry list \<Rightarrow> fsys \<Rightarrow> (bl_error + bl_entry list) \<times> fsys" where
  \<comment> \<open>\<^verbatim>\<open>Add\<close> from the merge on, with the list its \<^verbatim>\<open>Load\<close> returned\<close>
  "add_write path e es f =
     (case save path (upsert e es) f of (Some err, f) \<Rightarrow> (Inl err, f) | (None, f) \<Rightarrow> (Inr (upsert e es), f))"

lemma add_is_read_write:
  "bl_version e \<noteq> [] \<Longrightarrow> \<not> time_is_zero (bl_time e) \<Longrightarrow>
   add path e now f = (case load path f of (Inl err, f) \<Rightarrow> (Inl err, f) | (Inr es, f) \<Rightarrow> add_write path e es f)"
  by (auto simp: add_def add_write_def split: sum.split prod.split option.split)

lemma save_ready:
  assumes "save path es f = (None, g)" "faults f = []" "dir_of path \<noteq> path" "dir_of path \<noteq> tmp_of path"
  shows "nodes g (dir_of path) \<in> {None, Some Dir}"
  using assms
  by (auto simp: save_def save_tail_def os_defs Let_def split: option.splits node.splits if_splits)

text \<open>
  C17: two marks can become one. When two requests to mark different versions have both read the
  list before either has written it, both report success, and the version marked by the one
  that writes first is not on the list: the supervisor will launch it.
\<close>
theorem overlapping_marks_lose_one:
  assumes "faults f = []" and "load path f = (Inr es, f)"
    and "nodes f path \<noteq> Some Dir" and "nodes f (tmp_of path) \<noteq> Some Dir" and "nodes f (dir_of path) \<in> {None, Some Dir}"
    and "dir_of path \<noteq> path" and "dir_of path \<noteq> tmp_of path"
    and "\<forall>x \<in> set (upsert a es) \<union> set (upsert b es). time_encodable (bl_time x)"
    and "\<not> contains es (bl_version a)" and "bl_version a \<noteq> bl_version b"
  shows "\<exists>g h. add_write path a es f = (Inr (upsert a es), g) \<and> add_write path b es g = (Inr (upsert b es), h)
    \<and> load path h = (Inr (upsert b es), h) \<and> \<not> contains (upsert b es) (bl_version a)"
proof -
  obtain g where g: "save path (upsert a es) f = (None, g)" "faults g = []"
    "nodes g path = Some (File (Doc (JArr (map encode_entry (upsert a es)))))"
    using save_clean [of f "upsert a es" path] assms by auto
  have "nodes g (tmp_of path) \<noteq> Some Dir"
    using save_clean_tmp [OF assms(1,4,7), of "upsert a es"] g(1) by simp
  then obtain h where h: "save path (upsert b es) g = (None, h)" "faults h = []"
    "nodes h path = Some (File (Doc (JArr (map encode_entry (upsert b es)))))"
    using save_clean [of g "upsert b es" path] save_ready [OF g(1) assms(1,6,7)] g(2,3) assms(6-8) by auto
  have "\<not> contains (upsert b es) (bl_version a)"
    using assms(9,10) by (auto simp: ledger.listed_mark)
  with g h load_clean [OF h(2,3)] show ?thesis by (simp add: add_write_def)
qed

lemma overlapping_marks_lose_one_witness:
  "\<exists>g h. add_write ''/r/state/blacklist.json'' \<lparr>bl_version = ''v2'', bl_time = seconds 9, bl_reason = []\<rparr> []
        one_version_fs = (Inr [\<lparr>bl_version = ''v2'', bl_time = seconds 9, bl_reason = []\<rparr>], g)
    \<and> load ''/r/state/blacklist.json'' h = (Inr [\<lparr>bl_version = ''v3'', bl_time = seconds 9, bl_reason = []\<rparr>], h)"
proof -
  have p: "tmp_of ''/r/state/blacklist.json'' = ''/r/state/blacklist.json.tmp''"
    "dir_of ''/r/state/blacklist.json'' = ''/r/state''" by code_simp+
  have l: "load ''/r/state/blacklist.json'' one_version_fs = (Inr [], one_version_fs)"
    by (simp add: load_def os_read_file_def one_version_fs_def)
  from overlapping_marks_lose_one [OF _ l, of "\<lparr>bl_version = ''v2'', bl_time = seconds 9, bl_reason = []\<rparr>"
      "\<lparr>bl_version = ''v3'', bl_time = seconds 9, bl_reason = []\<rparr>", unfolded p]
  show ?thesis
    by (auto simp: one_version_fs_def contains_def upsert_def time_encodable_def)
qed

end
