(* ===== verification/Interrupted.thy ===== *)
theory Interrupted
  imports Installed
begin

section \<open>An update that is cut off (internal/selfupdate: install_unix.go, rotate_unix.go)\<close>

text \<open>
  The worker can be killed at any time, for instance when its watchdog expires in the middle of
  \<^verbatim>\<open>Apply\<close>. Between two phases this is harmless: what is current can be started, and it is
  either the old worker or the verified new one. Inside the rotation of the links it is not: between
  the removal of \<open>current\<close> and its replacement there is no current version, and a supervisor that
  starts then gives up although \<open>previous\<close> names the version that ran.
\<close>

subsection \<open>Between two phases\<close>

definition cut_off :: "config \<Rightarrow> string \<Rightarrow> string \<Rightarrow> (node option \<Rightarrow> bool) \<Rightarrow> node option \<Rightarrow> apply_pc \<Rightarrow> fsys \<Rightarrow> bool" where
  \<comment> \<open>the old worker is untouched, and the link names it or, from the rotation on, the placed new one\<close>
  "cut_off c w v P old pc g \<longleftrightarrow> faults g = [] \<and> nodes g (previous_link (c_root c)) \<noteq> Some Dir
     \<and> nodes g (target_dir (c_root c) w @ ''/clawmast'') = old
     \<and> (nodes g (current_link (c_root c)) = Some (Link (path_join [''versions'', w]))
        \<or> ((\<exists>n x y z. pc = AtMarker n x y z) \<or> (\<exists>r. pc = Finished r))
          \<and> nodes g (current_link (c_root c)) = Some (Link (path_join [''versions'', v]))
          \<and> P (nodes g (target_dir (c_root c) v @ ''/clawmast'')))"

lemma current_target_inj:
  assumes "plain_name v" "plain_name w" "path_join [''versions'', v] = path_join [''versions'', w]"
  shows "v = w"
  using path_join_inj [OF assms(3,1,2)] by simp

lemma step_cut_off:
  assumes std: "standard es c" and v: "plain_name (j_version j)" "plain_name w" "w \<noteq> j_version j"
    "w \<noteq> ''.'' @ j_version j @ ''.partial''"
    and step: "job_step (c_root c) j pc f = (pc', g)" and fetch: "fetches (c_root c) P j"
    and pl: "placed (c_root c) (j_version j) P pc f" and inv: "cut_off c w (j_version j) P old pc f"
  shows "cut_off c w (j_version j) P old pc' g"
proof -
  let ?r = "c_root c" and ?v = "j_version j"
  let ?c = "current_link ?r" and ?p = "previous_link ?r" and ?w = "target_dir ?r w @ ''/clawmast''" and ?t = "target_dir ?r ?v @ ''/clawmast''"
  have es: "?r = abs_path es" "list_all plain_name es" using std by (simp_all add: standard_def)
  note inst = installed_file(1) [OF es(2), folded es(1)]
  have clean: "faults f = []" using inv by (simp add: cut_off_def)
  have ne: "?r \<noteq> []" unfolding es(1) by simp
  have el: "?w \<notin> {?c, ?p} \<union> marker_paths ?r" "?t \<notin> {?c, ?p} \<union> marker_paths ?r"
    unfolding inst [OF v(2)] inst [OF v(1)]
    by (rule link_paths_elsewhere [OF std]; simp add: v default_names(12))+
  have ml: "?c \<notin> marker_paths ?r" "?p \<notin> marker_paths ?r"
    using standard_apart [OF std] by (auto simp: store_apart_def)
  consider (rotate) n where "pc = AtRotate n" | (marker) n x y z where "pc = AtMarker n x y z"
    | (other) "\<And>n. pc \<noteq> AtRotate n" "\<And>n x y z. pc \<noteq> AtMarker n x y z" by blast
  then show ?thesis
  proof cases
    case rotate
    with inv have cur: "nodes f ?c = Some (Link (path_join [''versions'', w]))" "nodes f ?p \<noteq> Some Dir"
      "nodes f ?w = old" by (auto simp: cut_off_def)
    have "path_join [''versions'', w] \<noteq> path_join [''versions'', ?v]"
      using current_target_inj [OF v(2,1)] v(3) by blast
    from rotate_clean [OF clean ne cur(1) this cur(2)] obtain h where
      h: "rotate_symlinks ?r ?v f = (Inr (path_join [''versions'', w], path_join [''versions'', ?v], path_join [''versions'', w]), h)"
        "faults h = []" "nodes h = (nodes f)(?p \<mapsto> Link (path_join [''versions'', w]), ?c \<mapsto> Link (path_join [''versions'', ?v]))"
      by blast
    have "P (nodes f ?t)" using pl rotate by (simp add: placed_def)
    with h step rotate el cur link_paths_distinct(1) [OF ne] show ?thesis
      by (auto simp: job_step_def cut_off_def Let_def)
  next
    case marker
    with step obtain m x r where m: "write_gate_marker ?r m (j_time j) f = (x, g)" "pc' = Finished r"
      by (auto simp: job_step_def Let_def split: option.splits prod.splits)
    have "nodes g q = nodes f q" if "q \<notin> marker_paths ?r" for q
      using marker_frame [OF m(1) clean] that by (simp add: only_at_def)
    then have "nodes g ?c = nodes f ?c" "nodes g ?p = nodes f ?p" "nodes g ?w = nodes f ?w" "nodes g ?t = nodes f ?t"
      using el ml by blast+
    with inv marker m(2) marker_frame [OF m(1) clean] show ?thesis by (auto simp: cut_off_def)
  next
    case other
    have k: "steady (protected_path ?r ?v) f g" by (rule step_steady [OF step fetch other])
    have pp: "protected_path ?r ?v ?c" "protected_path ?r ?v ?p"
      unfolding standard_paths [OF std] unfolding es(1)
      by (rule protected_elsewhere [OF es(2) v(1)]; simp add: default_names)+
    have pw: "protected_path ?r ?v ?w"
      unfolding inst [OF v(2)] unfolding es(1)
      by (rule protected_sibling [OF es(2) v(1)]) (use v default_names in simp_all)
    have same: "nodes g ?c = nodes f ?c" "nodes g ?p = nodes f ?p" "nodes g ?w = nodes f ?w" "faults g = []"
      using k pp pw clean unfolding steady_def by blast+
    show ?thesis
    proof (cases "\<exists>r. pc = Finished r")
      case True
      with step have "pc' = pc" "g = f" by (auto simp: job_step_def)
      with inv show ?thesis by simp
    next
      case False
      with inv other have "nodes f ?c = Some (Link (path_join [''versions'', w]))" "nodes f ?p \<noteq> Some Dir" "nodes f ?w = old"
        by (auto simp: cut_off_def)
      with same show ?thesis by (simp add: cut_off_def)
    qed
  qed
qed

lemma steps_cut_off:
  assumes "standard es c" "plain_name (j_version j)" "plain_name w" "w \<noteq> j_version j"
    "w \<noteq> ''.'' @ j_version j @ ''.partial''" "fetches (c_root c) P j"
    and "job_steps n (c_root c) j (pc, f) = (pc', g)"
    and "placed (c_root c) (j_version j) P pc f" and "cut_off c w (j_version j) P old pc f"
  shows "cut_off c w (j_version j) P old pc' g"
  using assms(7-9)
proof (induction n arbitrary: pc f)
  case (Suc n)
  obtain p1 f1 where s: "job_step (c_root c) j pc f = (p1, f1)" by fastforce
  have "faults f = []" using Suc.prems(3) by (simp add: cut_off_def)
  from Suc.IH [of p1 f1] Suc.prems s step_placed [OF assms(1,2) s this assms(6)]
    step_cut_off [OF assms(1-5) s assms(6)]
  show ?case by simp
qed simp

text \<open>
  C13: a worker killed between two phases of an update leaves a tree that works. After any
  number of phases the supervisor resolves a worker to start: the one that ran before, whose file
  is as it was, or the new one, whose file is from an archive with the size and the digest of the manifest.
\<close>
theorem interrupted_update_safe:
  assumes "standard es c" and "c_binary c = ''clawmast''" and "faults f = []"
    and "nodes f (current_link (c_root c)) = Some (Link (path_join [''versions'', w]))"
    and "nodes f (previous_link (c_root c)) \<noteq> Some Dir"
    and "plain_name v" and "plain_name w" and "w \<noteq> v" and "w \<noteq> ''.'' @ v @ ''.partial''"
    and "in_int64 (a_size art)" and "0 < a_size art"
    and "job_steps n (c_root c) (update_job untar sha256 reply (c_root c) v art now) (AtPrepare, f) = (pc, g)"
  shows "(\<exists>path. resolve c g = (Inr (path, w), g) \<and> nodes g path = nodes f path)
    \<or> (\<exists>path. resolve c g = (Inr (path, v), g) \<and> verified_node untar sha256 reply art (nodes g path))"
proof -
  let ?j = "update_job untar sha256 reply (c_root c) v art now" and ?P = "verified_node untar sha256 reply art"
  have v: "j_version ?j = v" by (simp add: update_job_def)
  have "cut_off c w (j_version ?j) ?P (nodes f (target_dir (c_root c) w @ ''/clawmast'')) pc g"
    by (rule steps_cut_off [OF assms(1) _ assms(7) _ _ update_job_fetches [OF assms(10,11)] assms(12)])
      (use assms in \<open>simp_all add: v placed_def cut_off_def\<close>)
  then have i: "faults g = []" "nodes g (target_dir (c_root c) w @ ''/clawmast'') = nodes f (target_dir (c_root c) w @ ''/clawmast'')"
    "link_at g (current_link (c_root c)) = Some (path_join [''versions'', w])
     \<or> link_at g (current_link (c_root c)) = Some (path_join [''versions'', v]) \<and> ?P (nodes g (target_dir (c_root c) v @ ''/clawmast''))"
    unfolding v by (auto simp: cut_off_def link_at_def)
  with resolve_installed [OF assms(1,2,6) i(1)] resolve_installed [OF assms(1,2,7) i(1)]
  show ?thesis by blast
qed

definition interrupted_fs :: fsys where
  "interrupted_fs = \<lparr>nodes = [''/r/current'' \<mapsto> Link ''versions/v1'', ''/r/versions/v1'' \<mapsto> Dir,
     ''/r/versions/v1/clawmast'' \<mapsto> File (Text ''old'')], faults = []\<rparr>"

lemma demo_interrupted:
  "case job_steps 4 ''/r'' (race_job ''0123456789'' ''v2'') (AtPrepare, interrupted_fs) of
     (AtPromote _, g) \<Rightarrow> False | (AtRotate _, g) \<Rightarrow> (case fst (resolve demo_config g) of Inr (_, v) \<Rightarrow> v = ''v1'' | _ \<Rightarrow> False)
   | _ \<Rightarrow> False"
  by code_simp

lemma interrupted_update_safe_witness:
  "\<exists>n g path. job_steps 4 ''/r'' (race_job ''0123456789'' ''v2'') (AtPrepare, interrupted_fs) = (AtRotate n, g)
    \<and> resolve demo_config g = (Inr (path, ''v1''), g) \<and> nodes g path = nodes interrupted_fs path"
proof -
  obtain n g where s: "job_steps 4 ''/r'' (race_job ''0123456789'' ''v2'') (AtPrepare, interrupted_fs) = (AtRotate n, g)"
    and o: "\<And>path v. fst (resolve demo_config g) = Inr (path, v) \<Longrightarrow> v = ''v1''"
    using demo_interrupted
    by (cases "job_steps 4 ''/r'' (race_job ''0123456789'' ''v2'') (AtPrepare, interrupted_fs)") (auto split: apply_pc.splits sum.splits)
  have r: "c_root demo_config = ''/r''" "c_binary demo_config = ''clawmast''" by (simp_all add: demo_config_def)
  have "path_join [''versions'', ''v1''] = ''versions/v1''" by code_simp
  then have l: "nodes interrupted_fs (current_link ''/r'') = Some (Link (path_join [''versions'', ''v1'']))"
    "nodes interrupted_fs (previous_link ''/r'') \<noteq> Some Dir" "faults interrupted_fs = []"
    by (simp_all add: demo_install_paths interrupted_fs_def)
  have p: "plain_name ''v1''" "plain_name ''v2''" by (simp_all add: plain_name_def)
  have "\<not> (\<exists>path. resolve demo_config g = (Inr (path, ''v2''), g) \<and> Q path)" for Q
    using o [of _ "''v2''"] by auto
  with interrupted_update_safe [OF demo_standard r(2) l(3) _ _ p(2,1) _ _ race_artifact_size, unfolded r, OF l(1,2) _ _ s [unfolded race_job_def]] s
  show ?thesis by auto
qed

subsection \<open>Inside the rotation\<close>

text \<open>
  C14: cut off in the rotation, the tree has no current version. When the last call of
  \<^verbatim>\<open>rotateSymlinks\<close> fails, or is not reached any more, \<open>current\<close> is gone and \<open>previous\<close> names
  the version that was running; the next turn of the supervisor's loop returns the error of the missing
  link and does not look at \<open>previous\<close>.
\<close>
theorem rotation_can_strand:
  assumes "layout c" and "nodes f (current_link (c_root c)) = Some (Link a)" and "a \<noteq> path_join [''versions'', v]"
    and "nodes f (previous_link (c_root c)) = Some (Link b)" and "faults f = [False, False, False, False, True]"
    and "\<not> t_cancelled t"
  shows "\<exists>g. rotate_symlinks (c_root c) v f = (Inl IOFault, g)
    \<and> nodes g (current_link (c_root c)) = None \<and> link_at g (previous_link (c_root c)) = Some a
    \<and> (\<forall>s. s_fs s = g \<longrightarrow> loop_step c t s = (Returned (Some (ResolveFailed NotExist)), s))"
proof -
  have ne: "c_root c \<noteq> []" using assms(1) by (simp add: layout_def)
  define g where "g = \<lparr>nodes = (nodes f)(previous_link (c_root c) \<mapsto> Link a, current_link (c_root c) := None), faults = []\<rparr>"
  define w where "w = path_join [''versions'', v]"
  have r: "rotate_symlinks (c_root c) v f = (Inl IOFault, g)"
    using assms(2-5) link_paths_distinct(1) [OF ne] unfolding rotate_symlinks_def rotate_previous_def Let_def w_def [symmetric]
    by (simp add: os_defs guarded_def faulty_def g_def put_node_def)
  have "resolve c g = (Inl NotExist, g)"
    using assms(1) by (simp add: layout_def resolve_current_def resolve_worker_binary_def os_readlink_def g_def)
  then have "s_fs s = g \<Longrightarrow> loop_step c t s = (Returned (Some (ResolveFailed NotExist)), s)" for s
    using assms(6) by (cases s) (simp add: loop_step_def)
  with r show ?thesis
    using link_paths_distinct(1) [OF ne] by (intro exI [of _ g]) (simp add: g_def link_at_def)
qed

lemma rotation_can_strand_witness:
  "\<exists>g. rotate_symlinks ''/r'' ''v3'' (links_fs [False, False, False, False, True]) = (Inl IOFault, g)
    \<and> loop_step demo_config (idle_turn (Started 7)) (demo_sup g) = (Returned (Some (ResolveFailed NotExist)), demo_sup g)"
proof -
  have r: "c_root demo_config = ''/r''" by (simp add: demo_config_def)
  have l: "nodes (links_fs x) (current_link ''/r'') = Some (Link ''versions/v2'')"
    "nodes (links_fs x) (previous_link ''/r'') = Some (Link ''versions/v1'')" "faults (links_fs x) = x" for x
    by (simp_all add: demo_links links_fs_def)
  from rotation_can_strand [OF demo_layout, unfolded r, OF l(1) _ l(2,3), of "''v3''" "idle_turn (Started 7)"]
  obtain g where "rotate_symlinks ''/r'' ''v3'' (links_fs [False, False, False, False, True]) = (Inl IOFault, g)"
    "\<And>s. s_fs s = g \<Longrightarrow> loop_step demo_config (idle_turn (Started 7)) s = (Returned (Some (ResolveFailed NotExist)), s)"
    by (auto simp: demo_target idle_turn_def)
  then show ?thesis by (auto simp: demo_sup_def)
qed

end
