(* ===== verification/Spec2Isabelle.thy ===== *)
theory Spec2Isabelle
  imports Backoff HealthGate ExitCode Notify SupConfig Session Supervisor Blacklist Ledger
    GateMarker Symlinks Updater SelfUpdate Snapshot GatewayAddr Discover Poller Actions Auth Channel
    Api Paths Worker Daemon Release Signing Cli Lifecycle Layout Protocol System CrashLoop Gateway
    SdClient Spawning Serving Fronts Trial Healing Installed Racing Interrupted
begin

text \<open>
  Clawmast installs, runs, supervises and updates one worker process, and looks after the OpenClaw
  gateway that runs beside it. This library is a model of its Go code with proofs about it. Paths
  below are relative to the repository root.

  \<^bold>\<open>How the program is put together.\<close> A small supervisor (cmd/clawmastd, internal/supervisor)
  starts the worker named by the symbolic link current under the install root, watches it over
  a datagram socket (READY, WATCHDOG and STOPPING frames), restarts it with a growing delay, and swaps current
  with previous when it crashes too often, when a newly installed version fails its trial, or when
  the worker asks for it by its exit code. The worker (cmd/clawmast, internal/agent) serves the
  local API, checks a signed manifest for updates (internal/updater), installs them
  (internal/selfupdate) and leaves a marker from which the supervisor arms the trial of the next start.
  It also polls the gateway (internal/openclaw) and heals it when it stays down. The two processes
  share nothing but files under the install root, the socket and the worker's exit status. A
  separate tool (cmd/clawmast-release) builds and signs what the workers install.

  \<^bold>\<open>Shared groundwork.\<close> Prelude: results (error + value), maps, lists. GoStrings, Paths: the functions of
  Go's strings, path and time packages the code uses. Strconv, Json: numbers and the JSON values
  the code reads and writes; JSON text is kept as a document (Json.json), its concrete syntax is the
  standard library's. FileSys: a file system as a map from paths to nodes together with a list of faults,
  one per call, so that every system call of the code may fail at every point; the code's order of calls
  is the order in which faults are used up.

  \<^bold>\<open>The supervisor\<close> (internal/supervisor). Backoff (backoff.go): delay and crash budget.
  HealthGate (healthgate.go): the trial of an install as a state machine. ExitCode (exitcode.go).
  Notify (notify.go, internal/sdnotify): frames and the bounded queue. SupConfig (config.go, session.go):
  defaults and the worker's environment. Session (loop.go, session.go): one life of a worker, with
  one event per turn of the select statement. Supervisor (supervisor.go, loop.go): the outer loop; a turn
  is given by what the environment does in it (Supervisor.turn), so a run is a list of turns.
  Daemon (cmd/clawmastd, Run of supervisor.go): from the command line to the exit status.
  Spawning (session.go, notify.go): the command of a worker, its handle, and the listener's loop
  beside the consumer of its channel. SdClient (internal/sdnotify): the worker's end of the socket,
  with the two programs that fail on purpose (fail_startup_on.go, crash-after-ready).
  Blacklist (internal/blacklist), Ledger (history.go, internal/history), GateMarker
  (internal/selfupdate/marker.go), Symlinks (symlinks.go, internal/selfupdate/rotate_unix.go): the
  four kinds of durable state.

  \<^bold>\<open>Updates.\<close> Updater (internal/updater): manifest and client; signature verification, HTTP and URL
  parsing are arguments. SelfUpdate (internal/selfupdate): download, extraction and Apply; untar and
  sha256 are arguments. Installed: Apply cut into its phases, where the downloaded file is at
  each of them, and what the supervisor's resolver finds at the end. Racing: two installations or
  two additions to the blacklist that overlap. Interrupted: an update cut off between two
  of its phases, and inside the rotation of the links. Channel (internal/agent/channel.go): which manifest is read. Release, Signing
  (cmd/clawmast-release): archives, manifests, keys and signatures; the Go compiler and the
  minisign library are arguments.

  \<^bold>\<open>The gateway\<close> (internal/openclaw). Snapshot (snapshot.go, phase.go, autoheal.go): the pure decisions. Discover
  (discover.go), GatewayAddr (gateway_addr.go, exec.go): where the CLI and the gateway are. Poller
  (poller.go, status.go, actionlog.go): the manager's state with
  every locked section as one atomic operation; a run is any interleaving of them. Actions (action.go,
  cascade.go, internal/agent/handlers_openclaw.go): an action is a program whose steps are those
  operations; between two of its steps the environment may run any others. Gateway: the runner
  with its discovery, the polling loop, the address resolver and the readers of what they leave.
  Healing: the trigger of the autoheal policy and when it is sure to fire.

  \<^bold>\<open>The worker.\<close> Auth (internal/agent/auth.go): token and routes. Api (internal/agent: server.go,
  handlers.go, blacklist.go): the server's state and the version, health, blacklist, history and
  update handlers, with their error codes. Worker (cmd/clawmast: run.go, main.go): environment,
  boot, the event that ends it and the exit status. Cli (cmd/clawmast: cmd_*.go): status, doctor, logs
  and open. Serving (server.go): the life of the HTTP server inside the worker. Fronts: log levels,
  error texts, embedded key, compiler call and the branches that differ on Windows. Lifecycle: the
  steps between a handler of the worker and the next turn of the loop.

  \<^bold>\<open>The system.\<close> Layout: the paths below an absolute install root never collide. Protocol: the
  abstract protocol of the install tree (current, previous, bad, launched) with its contract, and
  what each operation of the supervisor, the installer and the API does to it. System: the loop cut
  into the steps between which the worker's handlers and other programs act (sup_step, worker_step,
  sys_step); the loop is proved equal to its steps, every interleaving to be a run of the
  protocol. CrashLoop: a run of crashing workers through the loop to the rollback. Trial: a worker
  that passes its trial.

  \<^bold>\<open>What the lemmas show.\<close> Each theory proves an invariant or the behaviour of every branch of its operations,
  then its properties, which carry the ids C1, C2, ... in the text before them. The contracts
  that clients rely on are locales: Backoff.crash_budget (what the loop uses of the tracker),
  HealthGate.install_gate (what the session uses of the gate), Blacklist.version_ledger (what is
  used of a durable list of versions), Protocol.guarded_launch (marks stay, nothing marked is
  launched), Protocol.simulation (how a refinement carries invariants over); each is interpreted on
  the model's own definitions. This root theory composes the worker and the supervisor through the files they
  share: what a handler writes and how the worker exits is what the next turns of the loop act on.
  Two of its properties show where that composition goes wrong: a restart into an update is taken
  for a failed trial or for a crash.

  \<^bold>\<open>Bounds and fuel.\<close> Times are integers in nanoseconds; Go's int64 overflow is written out where
  the code computes with it (Backoff, durations). The one counter of turns, in Cli.climb, is the code's own
  loop bound of four. All other runs are recursive on the list of events, turns or
  operations the environment provides, and statements about termination quantify over that list.

  \<^bold>\<open>Limits of the system model.\<close> In System a handler of the worker is one step. The code takes no
  lock there, so requests can overlap inside a handler: Racing shows what then holds (installations of
  different versions do not disturb each other) and what does not (two installations of the same version, two
  additions to the blacklist). Handlers run only while a worker lives, since
  its process serves them. Its theorems are about a file system that works (no faults);
  what single operations do when calls fail is proved in their own theories. Published versions
  are taken to be plain names there, because one with .. elements escapes the tree.

  \<^bold>\<open>Not modelled.\<close> Opening and shutting down sockets, starting processes, signals, logging, the
  scheduling inside the Go runtime: their results are arguments. JSON syntax, gzip and tar,
  SHA-256 and minisign are arguments as well. Usage texts and the timeouts of the HTTP clients are
  left out. The web interface and the shell scripts are not Go.
\<close>

section \<open>The properties of the whole program\<close>

text \<open>
  C4: a bad update is taken back by itself. Take an update the worker's installer reports as
  installed, on a root whose supervisor then runs one iteration within the trial window, with
  the version not listed as bad. If the new binary cannot be started, that one iteration
  records the attempt, makes the version that ran before current again, removes the trial's
  marker and lists the new version as bad.
\<close>
theorem bad_update_undone:
  assumes "apply_update untar sha256 net goos goarch cfg now f = (Inr res, f')"
    and "p_manifest cfg = Some m" and "updatable (p_root cfg) (f_version m) a f"
    and "\<not> time_is_zero now" and "time_encodable now"
    and "layout c" and "c_root c = p_root cfg" and "plain_name (f_version m)"
    and "recoverable c es f'" and "\<not> contains es (f_version m)"
    and "s_fs s = f'" and "\<not> t_cancelled t" and "t_start t < now + window (s_gate s)"
    and "t_spawn t = StartFails err" and "\<not> time_is_zero (t_end t)" and "time_encodable (t_end t)"
  shows "\<exists>s'. loop_step c t s = (Again, s')
    \<and> link_at (s_fs s') (current_link (c_root c)) = Some a
    \<and> nodes (s_fs s') (gate_marker_path (c_root c)) = None
    \<and> banned c (f_version m) (s_fs s')
    \<and> map h_event (take 2 (drop (length (s_log s)) (s_log s'))) = [EvSpawn, EvCrash]"
proof -
  let ?v = "f_version m" and ?new = "path_join [''versions'', f_version m]"
  note up = update_effect [OF assms(1-5)]
  have cl: "faults f' = []" and cur: "nodes f' (current_link (c_root c)) = Some (Link ?new)"
    and prev: "nodes f' (previous_link (c_root c)) = Some (Link a)"
    and mark: "nodes f' (gate_marker_path (c_root c)) =
        Some (File (Doc (encode_marker \<lparr>m_version = ?v, m_installed_at = now\<rparr>)))"
    using up assms(7) by (auto simp: link_at_def split: option.splits node.splits)
  have v: "?v \<noteq> []" using assms(8) by (simp add: plain_name_def)
  have ne: "a \<noteq> ?new" using assms(3) by (simp add: updatable_def)
  obtain path where res: "resolve c f' = (Inr (path, ?v), f')"
    using resolve_new [OF assms(6) cl cur assms(8)] by blast
  have same: "s\<lparr>s_fs := f'\<rparr> = s" using assms(11) by (cases s) simp
  have bl: "check_blacklist c ?v s = (Inr False, s)"
    using assms(9-11) v by (simp add: check_blacklist_def recoverable_def same)
  let ?g = "(gate_reset (s_gate s))\<lparr>gstate := GateArmed, gversion := ?v,
      deadline := now + window (s_gate s), ready_at := 0, gfail := NoFail\<rparr>"
  have gate: "prepare_gate c ?v (t_start t) s = s\<lparr>s_gate := ?g\<rparr>"
    using read_marker_clean [OF cl mark] assms(11,13) v
    by (simp add: prepare_gate_def arm_def gate_reset_def time_before_def time_add_def Let_def)
  let ?s1 = "record_history EvCrash ?v (Some 71) (''spawn-failed: '' @ err)
      (record_history EvSpawn ?v None [] (s\<lparr>s_gate := ?g\<rparr>))"
  have spawn: "run_one_spawn c ?v (t_spawn t) (t_start t) (t_events t) (s\<lparr>s_gate := ?g\<rparr>) =
      (Some \<lparr>o_kind = OutSpawnFailure, o_info = \<lparr>code = 71, signaled = False\<rparr>\<rparr>, ?s1)"
    using assms(14) by (simp add: run_one_spawn_def)
  have act: "is_active (s_gate ?s1)" by (simp add: is_active_def)
  have sv: "serviceable c ?new a es (s_fs ?s1)"
    using cl cur prev mark ne assms(9,11) by (simp add: serviceable_def recoverable_def)
  obtain s' where s': "rollback_for_install_health c ?v FailSpawn (t_end t) ?s1 = (None, s')"
    "link_at (s_fs s') (current_link (c_root c)) = Some a"
    "nodes (s_fs s') (gate_marker_path (c_root c)) = None" "banned c ?v (s_fs s')"
    using install_health_clean [OF assms(6) sv v assms(15,16), of FailSpawn] by blast
  have "\<exists>new. s_log s' = s_log ?s1 @ new"
    using s'(1) by (auto simp: rollback_for_install_health_def rollback_def split_def Let_def
        split: option.splits if_splits)
  then have lg: "map h_event (take 2 (drop (length (s_log s)) (s_log s'))) = [EvSpawn, EvCrash]" by auto
  have st1: "loop_step c t s = after_spawn c ?v t
      \<lparr>o_kind = OutSpawnFailure, o_info = \<lparr>code = 71, signaled = False\<rparr>\<rparr> ?s1"
    using assms(12) by (simp only: loop_step_def assms(11) res bl gate spawn same if_False
        prod.case sum.case option.case bool.case)
  have st2: "after_spawn c ?v t
      \<lparr>o_kind = OutSpawnFailure, o_info = \<lparr>code = 71, signaled = False\<rparr>\<rparr> ?s1 = (Again, s')"
    by (simp only: after_spawn_def spawn_outcome.select_convs outcome_kind.case act if_True s'(1)
        finish_def prod.case option.case)
  show ?thesis
    by (intro exI conjI) (rule trans [OF st1 st2], rule s'(2), rule s'(3), rule s'(4), rule lg)
qed

lemma bad_update_undone_witness:
  "\<exists>res f' s'. demo_update = (Inr res, f')
    \<and> loop_step demo_config (idle_turn (StartFails ''e'')) (demo_sup f') = (Again, s')
    \<and> link_at (s_fs s') ''/r/current'' = Some ''versions/v1''"
proof -
  obtain res f' where a: "demo_update = (Inr res, f')"
    using demo_apply_succeeds by blast
  have f: "nodes f' ''/r/.swap.tmp'' = None" "nodes f' ''/r/state/blacklist.json'' = None"
    "nodes f' ''/r/state/blacklist.json.tmp'' = None" "nodes f' ''/r/state'' = Some Dir" "faults f' = []"
    using demo_update_free unfolding a by simp_all
  have c: "c_root demo_config = ''/r''" "c_blacklist demo_config = ''/r/state/blacklist.json''"
    by (simp_all add: demo_config_def)
  have m: "p_root demo_apply = ''/r''" "p_manifest demo_apply = Some demo_manifest"
    "f_version demo_manifest = ''v2''" by (simp_all add: demo_apply_def demo_manifest_def)
  have r: "recoverable demo_config [] f'"
    unfolding recoverable_def c demo_paths using f by (simp add: load_def os_read_file_def)
  have w: "window (s_gate (demo_sup f')) = seconds 90"
    by (simp add: demo_sup_def new_gate_def default_gate_window_def)
  have "\<exists>s'. loop_step demo_config (idle_turn (StartFails ''e'')) (demo_sup f') = (Again, s')
    \<and> link_at (s_fs s') (current_link (c_root demo_config)) = Some ''versions/v1''"
    using bad_update_undone [OF a m(2), of "''versions/v1''" demo_config "[]" "demo_sup f'"
        "idle_turn (StartFails ''e'')" "''e''"] r w demo_updatable demo_layout
    by (simp add: m c time_is_zero_def time_encodable_def plain_name_def contains_def idle_turn_def)
      (auto simp: demo_sup_def)
  with a show ?thesis by (auto simp: c demo_paths)
qed

subsection \<open>The operator takes a version back\<close>

text \<open>
  C5: marking the running version as bad through the API really gets rid of it. When the worker
  answers that it marked its own version, it leaves with status 65; the supervisor then makes
  the previous version current, whether or not a trial is on and however many crashes there
  were, the version is listed, and no later run of the loop spawns it.
\<close>
theorem operator_rollback:
  assumes "layout c" and "serviceable c a b es f"
    and "run_worker w g = (r, g')" and "wr_server r = Some srv" and "wk_ready w"
    and "api_blacklist_path srv = Some (c_blacklist c)"
    and "handle_blacklist_add srv label body now f = (BlMarked view v reason True, hook, f')"
    and "\<not> time_is_zero now" and "time_encodable now" and "hook \<longrightarrow> wk_wake w = WakeRollback"
    and "e_kind e = SelExit (Some (Exited (worker_exit (wr_error r))))"
    and "on_event c label e st s = (Inl out, s1)" and "s_fs s = f'"
  shows "\<exists>s'. after_spawn c label t out (end_session c s1) = (Again, s')
    \<and> link_at (s_fs s') (current_link (c_root c)) = Some b
    \<and> link_at (s_fs s') (previous_link (c_root c)) = Some a
    \<and> banned c label (s_fs s') \<and> consecutive (s_tracker s') = 0
    \<and> (\<forall>ts q s''. run_loop c ts s' = (q, s'') \<longrightarrow> (\<exists>new. s_log s'' = s_log s' @ new
         \<and> (\<forall>h \<in> set new. h_event h = EvSpawn \<longrightarrow> h_version h \<noteq> label)))"
proof -
  note m = marked_state [OF assms(7,6,1,2,8,9)]
  have v: "v = label" "banned c label f'" using m by simp_all
  have "wk_wake w = WakeRollback" using assms(10) m(3) by simp
  then have k: "e_kind e = SelExit (Some (Exited 65))"
    using worker_exit_served [OF assms(3-5)] assms(11) by simp
  note x = exit_outcome [OF assms(12) k]
  let ?s = "end_session c s1"
  have f1: "s_fs s1 = f'" "faults (s_fs s1) = []" using x(2) assms(13) banned_clean [OF v(2)] by simp_all
  note en = end_session_clean [OF assms(1) f1(2)]
  have keep: "nodes (s_fs ?s) q = nodes f q"
    if "q \<in> {current_link (c_root c), previous_link (c_root c), swap_tmp (c_root c)}" for q
    using pid_path_apart [OF assms(1) en(2), of q] m(5) that assms(1) f1(1)
    by (auto simp: only_at_def layout_def)
  have ban: "banned c label (s_fs ?s)"
    using banned_keeps [OF v(2)] keeps_remove_pid [OF assms(1), of "s_fs s1"] f1
    by (simp add: end_session_def clear_pid_file_def)
  have l: "nodes (s_fs ?s) (current_link (c_root c)) = Some (Link a)"
    "nodes (s_fs ?s) (previous_link (c_root c)) = Some (Link b)" "a \<noteq> b"
    "nodes (s_fs ?s) (swap_tmp (c_root c)) \<noteq> Some Dir"
    using assms(2) keep by (auto simp: serviceable_def)
  obtain s' where s': "attempt_worker_requested_rollback c label ?s = (None, s')"
    "link_at (s_fs s') (current_link (c_root c)) = Some b" "link_at (s_fs s') (previous_link (c_root c)) = Some a"
    "s_tracker s' = reset (s_tracker ?s)"
    using rollback_clean [OF assms(1) en(1) l] unfolding attempt_worker_requested_rollback_def by blast
  have b: "banned c label (s_fs s')"
    using rollback_quiet [OF assms(1) ban] s'(1)
    unfolding attempt_worker_requested_rollback_def quiet_def by (metis snd_conv)
  have "after_spawn c label t out ?s = (Again, s')"
    using x(1) s'(1) by (simp add: after_spawn_def finish_def)
  with s' b run_loop_quiet [OF assms(1) b] show ?thesis
    by (intro exI [of _ s']) (auto simp: quiet_def consecutive_def reset_def)
qed

lemma operator_rollback_witness:
  "\<exists>view f' (srv :: int server) out s1 s'. handle_blacklist_add srv ''v2'' EmptyBody (seconds 9) fresh_fs
      = (BlMarked view ''v2'' ''user-marked-bad'' True, True, f')
    \<and> on_event demo_config ''v2'' (demo_exit 65) demo_session (demo_sup f') = (Inl out, s1)
    \<and> after_spawn demo_config ''v2'' (idle_turn (Started 7)) out (end_session demo_config s1) = (Again, s')
    \<and> link_at (s_fs s') ''/r/current'' = Some ''versions/v1''"
proof -
  let ?w = "demo_leaver WakeRollback"
  obtain r g' srv where w: "run_worker ?w demo_tree = (r, g')" "wr_server r = Some srv"
    "ac_root (sv_cfg srv) = ''/r''" "ac_rollback (sv_cfg srv)" using demo_leaver_runs by blast
  have l: "wk_ready ?w" "wk_wake ?w = WakeRollback" by (simp_all add: demo_leaver_def)
  have x: "worker_exit (wr_error r) = 65" using worker_exit_served [OF w(1,2) l(1)] l(2) by simp
  have sv: "serviceable demo_config ''versions/v2'' ''versions/v1'' [] fresh_fs"
    unfolding serviceable_def demo_names demo_paths by (simp add: fresh_fs_def load_def os_read_file_def)
  have p: "api_blacklist_path srv = Some (c_blacklist demo_config)"
    using w(3) by (simp add: api_blacklist_path_def demo_names demo_api_paths)
  obtain es f' where ad: "add ''/r/state/blacklist.json''
      \<lparr>bl_version = ''v2'', bl_time = 0, bl_reason = ''user-marked-bad''\<rparr> (seconds 9) fresh_fs = (Inr es, f')"
    using add_clean [of fresh_fs "''/r/state/blacklist.json''" "[]"
        "\<lparr>bl_version = ''v2'', bl_time = 0, bl_reason = ''user-marked-bad''\<rparr>" _ "seconds 9"] sv
    unfolding serviceable_def demo_names demo_paths
    by (auto simp: time_is_zero_def time_encodable_def upsert_def)
  obtain view where h: "handle_blacklist_add srv ''v2'' EmptyBody (seconds 9) fresh_fs
      = (BlMarked view ''v2'' ''user-marked-bad'' True, True, f')"
    using ad p w(4) by (simp add: handle_blacklist_add_def decode_add_def demo_names Let_def)
  obtain out s1 where o: "on_event demo_config ''v2'' (demo_exit 65) demo_session (demo_sup f') = (Inl out, s1)"
    using demo_exit_taken by blast
  have k: "e_kind (demo_exit 65) = SelExit (Some (Exited (worker_exit (wr_error r))))"
    by (simp add: demo_exit_def x)
  obtain s' where "after_spawn demo_config ''v2'' (idle_turn (Started 7)) out (end_session demo_config s1) = (Again, s')"
    "link_at (s_fs s') ''/r/current'' = Some ''versions/v1''"
    using operator_rollback [OF demo_layout sv w(1,2) l(1) p h _ _ _ k o, of "idle_turn (Started 7)"] l(2)
    by (auto simp: demo_sup_def time_is_zero_def time_encodable_def demo_names demo_paths)
  with h o show ?thesis by blast
qed

subsection \<open>An accepted update takes over\<close>



subsection \<open>Two ways in which an accepted update goes wrong\<close>

text \<open>
  C20: an update installed while the running version is still on trial condemns that version. The
  worker's clean exit counts as the failure of its trial: the supervisor lists the healthy
  version as bad and deletes the marker of the new one. The next turn finds the listed version
  current again and swaps back, so that the new version runs without any trial, and its fallback
  is a version that will not be spawned.
\<close>
theorem restart_on_trial_condemns:
  assumes "layout c" and "update_exit c wd w label (path_join [''versions'', label]) v now f f' e"
    and "plain_name label" and "recoverable c es f'"
    and "on_event c label e st s = (Inl out, s1)" and "s_fs s = f'" and "is_active (s_gate s)"
    and "\<not> time_is_zero (t_end t)" and "time_encodable (t_end t)" and "\<not> t_cancelled t2"
  shows "\<exists>s2 s3. after_spawn c label t out (end_session c s1) = (Again, s2) \<and> loop_step c t2 s2 = (Again, s3)
    \<and> link_at (s_fs s3) (current_link (c_root c)) = Some (path_join [''versions'', v])
    \<and> link_at (s_fs s3) (previous_link (c_root c)) = Some (path_join [''versions'', label])
    \<and> nodes (s_fs s3) (gate_marker_path (c_root c)) = None
    \<and> banned c label (s_fs s3) \<and> \<not> is_active (s_gate s3)"
proof -
  note u = update_exit_state [OF assms(2,1,5,6)]
  let ?e = "end_session c s1" and ?new = "path_join [''versions'', v]" and ?old = "path_join [''versions'', label]"
  let ?s = "?e\<lparr>s_gate := snd (on_crash (s_gate ?e))\<rparr>"
  have lab: "label \<noteq> []" using assms(3) by (simp add: plain_name_def)
  have rc: "recoverable c es (s_fs ?e)"
    using recoverable_ended [OF assms(1) u(3,4) _ assms(4)] u(2) by (simp add: on_trial_def)
  have "serviceable c ?new ?old es (s_fs ?s)" using on_trial_serviceable [OF u(2) rc] by simp
  from install_health_clean [OF assms(1) this lab assms(8,9), of FailCrash] obtain s2 where
    s2: "rollback_for_install_health c label FailCrash (t_end t) ?s = (None, s2)"
    "link_at (s_fs s2) (current_link (c_root c)) = Some ?old"
    "link_at (s_fs s2) (previous_link (c_root c)) = Some ?new"
    "nodes (s_fs s2) (gate_marker_path (c_root c)) = None" "s_gate s2 = gate_reset (s_gate ?s)"
    "banned c label (s_fs s2)" "nodes (s_fs s2) (swap_tmp (c_root c)) \<noteq> Some Dir" by blast
  have st: "after_spawn c label t out ?e = (Again, s2)"
    using u(1,5) assms(7) s2(1) by (simp add: after_spawn_def after_crash_def finish_def)
  have ln: "nodes (s_fs s2) (current_link (c_root c)) = Some (Link ?old)"
    "nodes (s_fs s2) (previous_link (c_root c)) = Some (Link ?new)"
    using s2(2,3) by (auto simp: link_at_def split: option.splits node.splits)
  have ne: "?new \<noteq> ?old" using u(2) by (auto simp: on_trial_def)
  obtain s3 where s3: "loop_step c t2 s2 = (Again, s3)"
    "rollback c label ''blacklisted'' ''blacklisted version with no rollback target'' s2 = (None, s3)"
    using listed_turn [OF assms(1) s2(6) assms(10) ln(1) assms(3) ln(2) ne s2(7)] by blast
  have "banned c label (s_fs s3)" using rollback_quiet [OF assms(1) s2(6)] s3(2) unfolding quiet_def by (metis snd_conv)
  moreover have "\<not> is_active (s_gate s2)" using s2(5) by (simp add: is_active_def gate_reset_def)
  ultimately show ?thesis
    using rollback_clean [OF assms(1) banned_clean [OF s2(6)] ln ne [symmetric] s2(7), of label "''blacklisted''"
        "''blacklisted version with no rollback target''"] st s2(4) s3
    by (intro exI [of _ s2] exI [of _ s3]) auto
qed

lemma restart_on_trial_condemns_witness:
  "\<exists>res f' out s1 s2 s3. demo_update = (Inr res, f')
    \<and> on_event demo_config ''v1'' (demo_exit 0) demo_session ((demo_sup f')\<lparr>s_gate := armed_demo\<rparr>) = (Inl out, s1)
    \<and> after_spawn demo_config ''v1'' (idle_turn (Started 7)) out (end_session demo_config s1) = (Again, s2)
    \<and> loop_step demo_config (idle_turn (Started 8)) s2 = (Again, s3) \<and> banned demo_config ''v1'' (s_fs s3)"
proof -
  obtain res f' where a: "demo_update = (Inr res, f')" using demo_apply_succeeds by blast
  let ?s = "(demo_sup f')\<lparr>s_gate := armed_demo\<rparr>"
  obtain out s1 where o: "on_event demo_config ''v1'' (demo_exit 0) demo_session ?s = (Inl out, s1)"
    using demo_exit_taken by blast
  have g: "is_active (s_gate ?s)" "s_fs ?s = f'"
    by (simp_all add: armed_demo_def arm_def new_gate_def default_gate_window_def is_active_def demo_sup_def
        time_before_def time_add_def Let_def)
  from restart_on_trial_condemns [OF demo_layout _ demo_names(4) demo_update_exit(2) [OF a] o g(2,1),
      of demo_world "demo_leaver WakeRestart" "''v2''" "seconds 100" one_version_fs "idle_turn (Started 7)"
        "idle_turn (Started 8)"] a o demo_update_exit(1) [OF a]
  show ?thesis
    by (auto simp: demo_names idle_turn_def time_is_zero_def time_encodable_def)
qed

text \<open>
  C21: the restart after an update is charged to the crash budget. When the worker that leaves for
  the update is the crash that exhausts the budget, the supervisor rolls back at once: the
  version that ran before is current again, the installed one is not tried, and the history
  calls it a crash loop, although the API answered that the update is installed.
\<close>
theorem restart_spends_budget:
  assumes "layout c" and "update_exit c wd w label a v now f f' e" and "recoverable c es f'"
    and "on_event c label e st s = (Inl out, s1)" and "s_fs s = f'" and "\<not> is_active (s_gate s)"
    and "should_rollback (record_crash (t_end t) (s_tracker s))"
  shows "\<exists>s2 h. after_spawn c label t out (end_session c s1) = (Again, s2)
    \<and> link_at (s_fs s2) (current_link (c_root c)) = Some a
    \<and> link_at (s_fs s2) (previous_link (c_root c)) = Some (path_join [''versions'', v])
    \<and> last (s_log s2) = h \<and> h_event h = EvRollback \<and> h_version h = label \<and> h_reason h = ''crash-loop''"
proof -
  note u = update_exit_state [OF assms(2,1,4,5)]
  let ?s = "(end_session c s1)\<lparr>s_tracker := record_crash (t_end t) (s_tracker s)\<rparr>"
  have t: "on_trial c v a now (s_fs ?s)" using u(2) by simp
  have "nodes (s_fs ?s) (swap_tmp (c_root c)) \<noteq> Some Dir"
    using pid_path_apart [OF assms(1) u(3)] assms(3) by (simp add: recoverable_def)
  with t rollback_clean [OF assms(1), of ?s "path_join [''versions'', v]" a label "''crash-loop''"
      "''crash-loop with no rollback target''"] obtain s2 h where
    s2: "attempt_rollback c label ?s = (None, s2)" "link_at (s_fs s2) (current_link (c_root c)) = Some a"
    "link_at (s_fs s2) (previous_link (c_root c)) = Some (path_join [''versions'', v])"
    "s_log s2 = s_log ?s @ [h]" "h_event h = EvRollback" "h_version h = label" "h_reason h = ''crash-loop''"
    by (auto simp: on_trial_def attempt_rollback_def)
  have "after_spawn c label t out (end_session c s1) = (Again, s2)"
    using u(1,5,6) assms(6,7) s2(1) by (simp add: after_spawn_def after_crash_def finish_def)
  with s2 show ?thesis by simp
qed

lemma restart_spends_budget_witness:
  "\<exists>res f' out s1 s2. demo_update = (Inr res, f')
    \<and> on_event demo_config ''v1'' (demo_exit 0) demo_session ((demo_sup f')
        \<lparr>s_tracker := (new_tracker new_backoff)\<lparr>crashes := [seconds 90, seconds 95]\<rparr>\<rparr>) = (Inl out, s1)
    \<and> after_spawn demo_config ''v1'' (idle_turn (Started 7)) out (end_session demo_config s1) = (Again, s2)
    \<and> link_at (s_fs s2) ''/r/current'' = Some ''versions/v1''"
proof -
  obtain res f' where a: "demo_update = (Inr res, f')" using demo_apply_succeeds by blast
  let ?s = "(demo_sup f')\<lparr>s_tracker := (new_tracker new_backoff)\<lparr>crashes := [seconds 90, seconds 95]\<rparr>\<rparr>"
  obtain out s1 where o: "on_event demo_config ''v1'' (demo_exit 0) demo_session ?s = (Inl out, s1)"
    using demo_exit_taken by blast
  have g: "\<not> is_active (s_gate ?s)" "s_fs ?s = f'" by (simp_all add: demo_sup_def new_gate_def is_active_def)
  have b: "should_rollback (record_crash (t_end (idle_turn (Started 7))) (s_tracker ?s))"
    by (simp add: new_tracker_def record_crash_def should_rollback_def consecutive_def new_backoff_def
        time_is_zero_def time_before_def time_add_def wrap64_eq idle_turn_def Let_def)
  from restart_spends_budget [OF demo_layout demo_update_exit(1,2) [OF a] o g(2,1) b] a o
  show ?thesis by (auto simp: demo_names demo_paths)
qed

end
